(* ===== verification/Prelude.thy ===== *)
theory Prelude
  imports Main "HOL-Library.Word"
begin

text \<open>
  The prelude of the development: the named collections of facts, the operations of
  \<^verbatim>\<open>std::string\<close> that the server uses on its buffers and header values, decimal numbers,
  ASCII case folding, and the reachable states of a transition system with the locale
  that lifts a one-step invariant to all of them.

  A \<^verbatim>\<open>std::string\<close> is a \<open>string\<close> (a list of bytes), a position is a \<open>nat\<close>, and
  \<^verbatim>\<open>std::string::npos\<close> as the result of a search is \<open>None\<close>.
\<close>

named_theorems frame "fields an operation leaves alone"
named_theorems ops_bound "how many asynchronous operations an operation starts"

type_synonym u64 = "64 word"

subsection \<open>Searching a byte string\<close>

fun first_index :: "('a \<Rightarrow> bool) \<Rightarrow> 'a list \<Rightarrow> nat option" where
  "first_index P [] = None"
| "first_index P (x # xs) = (if P x then Some 0 else map_option Suc (first_index P xs))"

fun last_index :: "('a \<Rightarrow> bool) \<Rightarrow> 'a list \<Rightarrow> nat option" where
  "last_index P [] = None"
| "last_index P (x # xs) =
     (case last_index P xs of Some i \<Rightarrow> Some (Suc i) | None \<Rightarrow> if P x then Some 0 else None)"

text \<open>\<open>s.find(c, pos)\<close>, \<open>s.find_first_not_of(cs, pos)\<close> and \<open>s.find_last_not_of(cs, pos)\<close>.\<close>

definition find_char :: "string \<Rightarrow> char \<Rightarrow> nat \<Rightarrow> nat option" where
  "find_char s c pos = map_option (\<lambda>i. pos + i) (first_index (\<lambda>x. x = c) (drop pos s))"

definition find_first_not_of :: "string \<Rightarrow> string \<Rightarrow> nat \<Rightarrow> nat option" where
  "find_first_not_of s cs pos =
     map_option (\<lambda>i. pos + i) (first_index (\<lambda>x. x \<notin> set cs) (drop pos s))"

definition find_last_not_of :: "string \<Rightarrow> string \<Rightarrow> nat \<Rightarrow> nat option" where
  "find_last_not_of s cs pos = last_index (\<lambda>x. x \<notin> set cs) (take (Suc pos) s)"

text \<open>\<open>s.find(p, pos)\<close> and \<open>s.rfind(p, pos)\<close> for a string \<open>p\<close>.\<close>

fun first_sub :: "string \<Rightarrow> string \<Rightarrow> nat option" where
  "first_sub p s =
     (if take (length p) s = p then Some 0
      else (case s of [] \<Rightarrow> None | x # xs \<Rightarrow> map_option Suc (first_sub p xs)))"

fun last_sub :: "string \<Rightarrow> string \<Rightarrow> nat option" where
  "last_sub p s =
     (case s of
        [] \<Rightarrow> (if p = [] then Some 0 else None)
      | x # xs \<Rightarrow>
         (case last_sub p xs of
            Some i \<Rightarrow> Some (Suc i)
          | None \<Rightarrow> if take (length p) s = p then Some 0 else None))"

declare first_sub.simps [simp del] last_sub.simps [simp del]

definition find_str :: "string \<Rightarrow> string \<Rightarrow> nat \<Rightarrow> nat option" where
  "find_str s p pos =
     (if pos \<le> length s then map_option (\<lambda>i. pos + i) (first_sub p (drop pos s)) else None)"

definition rfind_str :: "string \<Rightarrow> string \<Rightarrow> nat \<Rightarrow> nat option" where
  "rfind_str s p pos = last_sub p (take (pos + length p) s)"

definition contains :: "string \<Rightarrow> string \<Rightarrow> bool" where
  "contains s p = (find_str s p 0 \<noteq> None)"

text \<open>
  \<open>s.substr(pos, n)\<close>. The C++ call throws when \<open>pos > s.size()\<close>; the callers' positions
  are proved to be in range where they matter.
\<close>

definition substr :: "string \<Rightarrow> nat \<Rightarrow> nat \<Rightarrow> string" where
  "substr s pos n = take n (drop pos s)"

lemma first_index_Some:
  "first_index P xs = Some i \<longleftrightarrow>
     i < length xs \<and> P (xs ! i) \<and> (\<forall>j < i. \<not> P (xs ! j))"
proof (induction xs arbitrary: i)
  case Nil
  then show ?case by simp
next
  case (Cons x xs)
  show ?case
  proof (cases i)
    case 0
    then show ?thesis by auto
  next
    case (Suc k)
    then show ?thesis by (auto simp: Cons.IH less_Suc_eq_0_disj)
  qed
qed

lemma first_index_None: "first_index P xs = None \<longleftrightarrow> (\<forall>x \<in> set xs. \<not> P x)"
  by (induction xs) auto

lemma first_index_takeWhile:
  "first_index P xs =
     (if \<exists>x \<in> set xs. P x then Some (length (takeWhile (\<lambda>x. \<not> P x) xs)) else None)"
  by (induction xs) auto

lemma first_index_skip: "\<forall>x \<in> set b. \<not> P x \<Longrightarrow> P y \<Longrightarrow> first_index P (b @ y # r) = Some (length b)"
  by (induction b) auto

lemma length_takeWhile_lt: "length (takeWhile P xs) < length xs \<longleftrightarrow> (\<exists>x \<in> set xs. \<not> P x)"
  by (induction xs) auto

lemma last_index_None: "last_index P xs = None \<longleftrightarrow> (\<forall>x \<in> set xs. \<not> P x)"
  by (induction xs) (auto split: option.splits)

lemma last_index_append:
  "last_index P (xs @ ys) =
     (case last_index P ys of Some i \<Rightarrow> Some (length xs + i) | None \<Rightarrow> last_index P xs)"
  by (induction xs) (auto split: option.splits)

lemma last_index_Some_bound: "last_index P xs = Some i \<Longrightarrow> i < length xs \<and> P (xs ! i)"
  by (induction xs arbitrary: i) (auto split: option.splits if_splits)

lemma last_index_skip: "\<forall>x \<in> set b. \<not> P x \<Longrightarrow> P y \<Longrightarrow> last_index P (r @ y # b) = Some (length r)"
  by (auto simp: last_index_append last_index_None split: option.splits)

lemma find_char_takeWhile:
  "find_char s c pos =
     (if c \<in> set (drop pos s) then Some (pos + length (takeWhile (\<lambda>x. x \<noteq> c) (drop pos s)))
      else None)"
  by (auto simp: find_char_def first_index_takeWhile)

lemma find_char_Some_bound:
  "find_char s c pos = Some i \<Longrightarrow> pos \<le> i \<and> i < length s \<and> s ! i = c"
  by (auto simp: find_char_def first_index_Some)

lemma find_first_not_of_Some_bound:
  "find_first_not_of s cs pos = Some i \<Longrightarrow> pos \<le> i \<and> i < length s \<and> s ! i \<notin> set cs"
  by (auto simp: find_first_not_of_def first_index_Some)

lemma find_last_not_of_Some_bound:
  "find_last_not_of s cs pos = Some i \<Longrightarrow> i \<le> pos \<and> i < length s \<and> s ! i \<notin> set cs"
  by (auto simp: find_last_not_of_def dest!: last_index_Some_bound)

lemma find_last_not_of_ge:
  assumes "i \<le> pos" "i < length s" "s ! i \<notin> set cs"
  obtains l where "find_last_not_of s cs pos = Some l" "i \<le> l" "l \<le> pos"
proof -
  let ?P = "\<lambda>x. x \<notin> set cs"
  have split: "take (Suc pos) s = take i s @ drop i (take (Suc pos) s)"
    using assms by (metis append_take_drop_id le_SucI min_absorb2 min.commute take_take)
  have "s ! i \<in> set (drop i (take (Suc pos) s))"
    using assms by (auto simp: in_set_conv_nth intro!: exI[of _ 0])
  then have "last_index ?P (drop i (take (Suc pos) s)) \<noteq> None"
    using assms(3) by (auto simp: last_index_None)
  then obtain k where k: "last_index ?P (drop i (take (Suc pos) s)) = Some k" by auto
  have "find_last_not_of s cs pos = Some (i + k)"
    unfolding find_last_not_of_def
    by (subst split) (use assms(2) k in \<open>simp add: last_index_append\<close>)
  then show thesis using that find_last_not_of_Some_bound by (metis le_add1)
qed

subsection \<open>Occurrences of a substring\<close>

lemma first_sub_Some_take:
  "first_sub p s = Some i \<Longrightarrow> take (length p) (drop i s) = p \<and> i + length p \<le> length s"
proof (induction s arbitrary: i)
  case Nil
  then show ?case by (auto simp: first_sub.simps[of p "[]"] split: if_splits)
next
  case (Cons x xs)
  show ?case
  proof (cases "take (length p) (x # xs) = p")
    case True
    then have "length p \<le> length (x # xs)"
      by (metis length_take min.cobounded1)
    with True Cons.prems show ?thesis by (simp add: first_sub.simps[of p "x # xs"])
  next
    case False
    with Cons show ?thesis by (auto simp: first_sub.simps[of p "x # xs"])
  qed
qed

lemma first_sub_least:
  "first_sub p s = Some i \<Longrightarrow> j < i \<Longrightarrow> take (length p) (drop j s) \<noteq> p"
proof (induction s arbitrary: i j)
  case Nil
  then show ?case by (auto simp: first_sub.simps[of p "[]"] split: if_splits)
next
  case (Cons x xs)
  then show ?case
    by (cases j) (auto simp: first_sub.simps[of p "x # xs"] split: if_splits)
qed

lemma first_sub_None:
  "first_sub p s = None \<Longrightarrow> take (length p) (drop j s) \<noteq> p"
proof (induction s arbitrary: j)
  case Nil
  then show ?case by (auto simp: first_sub.simps[of p "[]"] split: if_splits)
next
  case (Cons x xs)
  then show ?case
    by (cases j) (auto simp: first_sub.simps[of p "x # xs"] split: if_splits)
qed

lemma find_str_Some:
  "find_str s p pos = Some i \<Longrightarrow>
     pos \<le> i \<and> i + length p \<le> length s \<and> take (length p) (drop i s) = p"
  by (auto simp: find_str_def add.commute split: if_splits dest!: first_sub_Some_take)

lemma find_str_least:
  "find_str s p pos = Some i \<Longrightarrow> pos \<le> j \<Longrightarrow> j < i \<Longrightarrow> take (length p) (drop j s) \<noteq> p"
proof -
  assume a: "find_str s p pos = Some i" "pos \<le> j" "j < i"
  then obtain k where "first_sub p (drop pos s) = Some k" "i = pos + k"
    by (auto simp: find_str_def split: if_splits)
  with a first_sub_least[of p "drop pos s" k "j - pos"] show ?thesis by simp
qed

text \<open>A prefix that ends before the first match does has none.\<close>

lemma find_str_prefix:
  assumes "find_str (s @ t) p 0 = Some i" "length s < i + length p"
  shows "find_str s p 0 = None"
proof (rule ccontr)
  assume "find_str s p 0 \<noteq> None"
  then obtain j where j: "find_str s p 0 = Some j" by blast
  then have m: "take (length p) (drop j s) = p" "j + length p \<le> length s"
    using find_str_Some[OF j] by auto
  then have "take (length p) (drop j (s @ t)) = p" by simp
  with find_str_least[OF assms(1), of j] m(2) assms(2) show False by simp
qed

lemma find_str_None:
  "find_str s p pos = None \<Longrightarrow> pos \<le> j \<Longrightarrow> j \<le> length s \<Longrightarrow> take (length p) (drop j s) \<noteq> p"
  using first_sub_None[of p "drop pos s" "j - pos"]
  by (auto simp: find_str_def split: if_splits)

lemma last_sub_Some:
  "last_sub p s = Some i \<Longrightarrow> take (length p) (drop i s) = p \<and> i + length p \<le> length s"
proof (induction s arbitrary: i)
  case Nil
  then show ?case by (auto simp: last_sub.simps[of p "[]"] split: if_splits)
next
  case (Cons x xs)
  show ?case
  proof (cases "last_sub p xs")
    case None
    with Cons.prems have "i = 0" "take (length p) (x # xs) = p"
      by (auto simp: last_sub.simps[of p "x # xs"] split: if_splits)
    then show ?thesis by (metis add_0 drop0 length_take min.cobounded1)
  next
    case (Some k)
    with Cons show ?thesis by (auto simp: last_sub.simps[of p "x # xs"])
  qed
qed

lemma rfind_str_Some:
  assumes "rfind_str s p pos = Some i"
  shows "i \<le> pos" "i + length p \<le> length s" "take (length p) (drop i s) = p"
proof -
  from assms have t: "take (length p) (drop i (take (pos + length p) s)) = p"
    and l: "i + length p \<le> length (take (pos + length p) s)"
    unfolding rfind_str_def by (auto dest: last_sub_Some)
  from l show "i \<le> pos" "i + length p \<le> length s" by auto
  then show "take (length p) (drop i s) = p"
    using t by (simp add: drop_take min_def split: if_splits)
qed

subsection \<open>Lists of fields separated by a character\<close>

fun split_on :: "char \<Rightarrow> string \<Rightarrow> string list" where
  "split_on c [] = [[]]"
| "split_on c (x # xs) =
     (if x = c then [] # split_on c xs
      else (case split_on c xs of [] \<Rightarrow> [[x]] | w # ws \<Rightarrow> (x # w) # ws))"

definition trim :: "string \<Rightarrow> string \<Rightarrow> string" where
  "trim cs s = rev (dropWhile (\<lambda>x. x \<in> set cs) (rev (dropWhile (\<lambda>x. x \<in> set cs) s)))"

lemma split_on_nonempty [simp]: "split_on c s \<noteq> []"
  by (induction s) (auto split: list.splits)

lemma split_on_takeWhile:
  "split_on c s =
     (if c \<in> set s
      then takeWhile (\<lambda>x. x \<noteq> c) s # split_on c (tl (dropWhile (\<lambda>x. x \<noteq> c) s))
      else [s])"
  by (induction s) (auto split: list.splits)

lemma dropWhile_all: "(\<forall>x \<in> set (dropWhile P s). P x) \<longleftrightarrow> (\<forall>x \<in> set s. P x)"
  by (induction s) auto

lemma trim_eq_Nil: "trim cs s = [] \<longleftrightarrow> (\<forall>x \<in> set s. x \<in> set cs)"
  by (simp add: trim_def dropWhile_eq_Nil_conv dropWhile_all)

lemma trim_obtain:
  assumes "\<exists>x \<in> set m. x \<notin> set cs"
  obtains b1 b2 x t where "m = b1 @ trim cs m @ b2"
    "\<forall>y \<in> set b1. y \<in> set cs" "\<forall>y \<in> set b2. y \<in> set cs"
    "trim cs m \<noteq> []" "hd (trim cs m) \<notin> set cs" "last (trim cs m) \<notin> set cs"
proof
  let ?P = "\<lambda>x. x \<in> set cs"
  let ?d = "dropWhile ?P m"
  let ?b1 = "takeWhile ?P m" and ?b2 = "rev (takeWhile ?P (rev ?d))"
  have "rev ?d = takeWhile ?P (rev ?d) @ dropWhile ?P (rev ?d)" by simp
  then have d: "?d = trim cs m @ ?b2"
    unfolding trim_def by (metis rev_append rev_rev_ident)
  then show "m = ?b1 @ trim cs m @ ?b2" by (metis takeWhile_dropWhile_id)
  show "\<forall>y \<in> set ?b1. y \<in> set cs" "\<forall>y \<in> set ?b2. y \<in> set cs"
    by (auto dest: set_takeWhileD)
  show ne: "trim cs m \<noteq> []" using assms by (simp add: trim_eq_Nil)
  have "hd ?d \<notin> set cs" using assms hd_dropWhile[of ?P m] by (auto simp: dropWhile_eq_Nil_conv)
  then show "hd (trim cs m) \<notin> set cs" using d ne by (metis hd_append2)
  have "dropWhile ?P (rev ?d) \<noteq> []" using ne by (simp add: trim_def)
  then show "last (trim cs m) \<notin> set cs"
    using hd_dropWhile[of ?P "rev ?d"] by (simp add: trim_def last_rev)
qed

subsection \<open>Updating a list in one place\<close>

lemma length_filter_update:
  "i < length xs \<Longrightarrow>
     length (filter P (xs[i := x])) + (if P (xs ! i) then 1 else 0) =
     length (filter P xs) + (if P x then 1 else 0)"
proof (induction xs arbitrary: i)
  case (Cons y xs)
  then show ?case by (cases i) auto
qed simp

subsection \<open>Words\<close>

lemma unat_Suc_of_less:
  fixes a b :: "'a::len word"
  assumes "a < b" shows "unat (a + 1) = Suc (unat a)"
proof -
  have "Suc (unat a) < 2 ^ LENGTH('a)"
    using assms unsigned_less[of b, where 'a = nat] unfolding word_less_nat_alt by linarith
  then show ?thesis using unat_word_ariths(1)[of a 1] by simp
qed

subsection \<open>Reachable states\<close>

inductive reach :: "('s \<Rightarrow> bool) \<Rightarrow> ('s \<Rightarrow> 'e \<Rightarrow> 's \<Rightarrow> bool) \<Rightarrow> 's \<Rightarrow> bool"
  for start step where
  reach_start: "start s \<Longrightarrow> reach start step s"
| reach_step: "reach start step s \<Longrightarrow> step s e s' \<Longrightarrow> reach start step s'"

locale inductive_invariant =
  fixes start :: "'s \<Rightarrow> bool"
    and step :: "'s \<Rightarrow> 'e \<Rightarrow> 's \<Rightarrow> bool"
    and inv :: "'s \<Rightarrow> bool"
  assumes inv_start: "start s \<Longrightarrow> inv s"
    and inv_step: "inv s \<Longrightarrow> step s e s' \<Longrightarrow> inv s'"
begin

lemma inv_reach: "reach start step s \<Longrightarrow> inv s"
  by (induction rule: reach.induct) (auto intro: inv_start inv_step)

end

end
