(* ===== verification/Spine.thy ===== *)
theory Spine
  imports Prelude
begin

text \<open>
  The interface of the code the server calls and that is not part of the repository:
  SmartMet Spine (HTTP messages, the request parser, the reactor and its handler views),
  macgyver (\<^verbatim>\<open>Fmi::\<close>) and the Boost codecs. Requests, responses and handler views are type
  parameters \<open>'q\<close>, \<open>'p\<close>, \<open>'h\<close>, and every call is a field of the record \<open>spine\<close>, so each
  definition of the model that makes such a call takes the record as its first argument.
  A call that changes its object returns the new object. What a theorem relies on is
  stated by the predicates at the end of the theory.
\<close>

subsection \<open>Enumerations the server's code names\<close>

datatype request_method = GET | HEAD | Other_Method nat

datatype parsing_status = COMPLETE | FAILED | INCOMPLETE

datatype streamer_status = Stream_OK | Stream_EXIT_OK | Stream_EXIT_Other nat

text \<open>\<^verbatim>\<open>Fmi::CancellationToken::Reason\<close>, without \<^verbatim>\<open>None\<close>.\<close>

datatype interrupt_reason = Disconnected | Other_reason nat

text \<open>
  A \<^verbatim>\<open>boost::system::error_code\<close>: success, the two values the code compares with, and any
  other.
\<close>

datatype error_code = Success | Eof | Operation_aborted | Other_error nat

text \<open>Spine's status enumerators are the numeric codes themselves.\<close>

type_synonym status = int

abbreviation not_modified :: status where "not_modified \<equiv> 304"
abbreviation bad_request :: status where "bad_request \<equiv> 400"
abbreviation not_found :: status where "not_found \<equiv> 404"
abbreviation request_timeout :: status where "request_timeout \<equiv> 408"
abbreviation request_entity_too_large :: status where "request_entity_too_large \<equiv> 413"
abbreviation expectation_failed :: status where "expectation_failed \<equiv> 417"
abbreviation request_header_fields_too_large :: status
  where "request_header_fields_too_large \<equiv> 431"
abbreviation not_implemented :: status where "not_implemented \<equiv> 501"
abbreviation service_unavailable :: status where "service_unavailable \<equiv> 503"

record 'q parsed_request =
  pr_status :: parsing_status
  pr_request :: 'q
  pr_consumed :: nat

subsection \<open>The calls\<close>

record ('q, 'p, 'h) spine =
  \<comment> \<open>macgyver and Boost\<close>
  ascii_tolower_copy :: "string \<Rightarrow> string"
  stoul :: "string \<Rightarrow> nat option"
  to_hex :: "nat \<Rightarrow> string"
  fmi_to_string :: "int \<Rightarrow> string"
  icontains :: "string \<Rightarrow> string \<Rightarrow> bool"
  zstd_compress :: "string \<Rightarrow> string"
  gzip_compress :: "nat \<Rightarrow> string \<Rightarrow> string"
  ec_message :: "error_code \<Rightarrow> string"
  ec_value :: "error_code \<Rightarrow> int"
  reason_to_string :: "interrupt_reason \<Rightarrow> string"
  host_name :: "string \<Rightarrow> string"
  \<comment> \<open>the request parser and the request\<close>
  parseOneRequest :: "string \<Rightarrow> 'q parsed_request"
  new_Request :: 'q
  rq_getVersion :: "'q \<Rightarrow> string"
  rq_getHeader :: "'q \<Rightarrow> string \<Rightarrow> string option"
  rq_setHeader :: "'q \<Rightarrow> string \<Rightarrow> string \<Rightarrow> 'q"
  rq_removeHeader :: "'q \<Rightarrow> string \<Rightarrow> 'q"
  rq_getMethod :: "'q \<Rightarrow> request_method"
  rq_setMethod :: "'q \<Rightarrow> request_method \<Rightarrow> 'q"
  rq_getMethodString :: "'q \<Rightarrow> string"
  rq_getResource :: "'q \<Rightarrow> string"
  rq_getURI :: "'q \<Rightarrow> string"
  rq_getClientIP :: "'q \<Rightarrow> string"
  rq_setClientIP :: "'q \<Rightarrow> string \<Rightarrow> 'q"
  rq_getParameter :: "'q \<Rightarrow> string \<Rightarrow> string option"
  rq_getContentLength :: "'q \<Rightarrow> nat"
  rq_getContent :: "'q \<Rightarrow> string"
  \<comment> \<open>the response\<close>
  new_Response :: 'p
  stockOptionsResponse :: 'p
  rs_getStatus :: "'p \<Rightarrow> status"
  rs_setStatus :: "'p \<Rightarrow> status \<Rightarrow> bool \<Rightarrow> 'p"
  rs_setVersion :: "'p \<Rightarrow> string \<Rightarrow> 'p"
  rs_getHeader :: "'p \<Rightarrow> string \<Rightarrow> string option"
  rs_setHeader :: "'p \<Rightarrow> string \<Rightarrow> string \<Rightarrow> 'p"
  rs_removeHeader :: "'p \<Rightarrow> string \<Rightarrow> 'p"
  rs_getContentLength :: "'p \<Rightarrow> nat"
  rs_getContent :: "'p \<Rightarrow> string \<times> 'p"
  rs_setContent :: "'p \<Rightarrow> string \<Rightarrow> 'p"
  rs_hasStreamContent :: "'p \<Rightarrow> bool"
  rs_isGatewayResponse :: "'p \<Rightarrow> bool"
  rs_getChunked :: "'p \<Rightarrow> bool"
  rs_getStreamingStatus :: "'p \<Rightarrow> streamer_status"
  rs_headersToString :: "'p \<Rightarrow> string option"
  rs_headersToBuffer :: "'p \<Rightarrow> string option"
  rs_contentToBuffer :: "'p \<Rightarrow> string"
  rs_originatingBackend :: "'p \<Rightarrow> string"
  rs_backendPort :: "'p \<Rightarrow> int"
  rs_runStreamCompletionHandler :: "'p \<Rightarrow> nat \<Rightarrow> bool \<times> 'p"
  \<comment> \<open>negotiation helpers of Spine::HTTP and Spine::IPFilter\<close>
  selectContentEncoding :: "'q \<Rightarrow> string list \<Rightarrow> string \<Rightarrow> string"
  supportedContentEncodings :: "string list"
  wildcardContentEncoding :: string
  contentCodedETag :: "string \<Rightarrow> string \<Rightarrow> string"
  notModifiedETag :: "'q \<Rightarrow> string \<Rightarrow> string"
  resolveClientIP_filter :: "string \<Rightarrow> string option \<Rightarrow> string list \<Rightarrow> string"
  st_high_load :: status
  st_shutdown :: status
  \<comment> \<open>the reactor and its handler views\<close>
  getHandlerView :: "'q \<Rightarrow> 'h option"
  hv_isCatchNoMatch :: "'h \<Rightarrow> bool"
  hv_isAdminQuery :: "'h \<Rightarrow> 'q \<Rightarrow> bool"
  hv_queryIsFast :: "'h \<Rightarrow> 'q \<Rightarrow> bool"
  hv_getPluginName :: "'h \<Rightarrow> string"
  opt_staleWhileRevalidate :: nat
  opt_staleIfError :: nat
  opt_contentCodings :: "string list"

text \<open>
  \<open>ascii_tolower_copy\<close>, \<open>stoul\<close>, \<open>to_hex\<close> (\<^verbatim>\<open>Fmi::to_string("%x", n)\<close>), \<open>fmi_to_string\<close> and
  the texts of error codes and reasons come from macgyver and Boost; \<open>stoul\<close> throwing is
  \<open>None\<close>, and so is \<^verbatim>\<open>Response::headersToString\<close> throwing because the status is not set.
  \<open>rs_runStreamCompletionHandler\<close> also says whether a completion handler was there to run.
  A stream's \<open>rs_getContent\<close> takes the next chunk from the response it returns.
\<close>

subsection \<open>Documented behaviour of those calls\<close>

text \<open>ASCII case folding, byte by byte.\<close>

definition to_lower :: "char \<Rightarrow> char" where
  "to_lower c = (let n = of_char c :: nat in if 65 \<le> n \<and> n \<le> 90 then char_of (n + 32) else c)"

definition ascii_lower :: "string \<Rightarrow> string" where
  "ascii_lower s = map to_lower s"

lemma ascii_lower_append [simp]: "ascii_lower (s @ t) = ascii_lower s @ ascii_lower t"
  by (simp add: ascii_lower_def)

lemma length_ascii_lower [simp]: "length (ascii_lower s) = length s"
  by (simp add: ascii_lower_def)

lemma to_lower_idem [simp]: "to_lower (to_lower c) = to_lower c"
  by (simp add: to_lower_def Let_def)

lemma ascii_lower_idem [simp]: "ascii_lower (ascii_lower s) = ascii_lower s"
  by (simp add: ascii_lower_def)

definition lowers_ascii :: "('q, 'p, 'h) spine \<Rightarrow> bool" where
  "lowers_ascii sp \<longleftrightarrow> (\<forall>s. ascii_tolower_copy sp s = ascii_lower s)"

text \<open>
  A header section is a map from field names, compared without case, to values
  (RFC 9110 5.1).
\<close>

definition response_headers :: "('q, 'p, 'h) spine \<Rightarrow> bool" where
  "response_headers sp \<longleftrightarrow>
     (\<forall>p k v k'. rs_getHeader sp (rs_setHeader sp p k v) k' =
        (if ascii_lower k' = ascii_lower k then Some v else rs_getHeader sp p k')) \<and>
     (\<forall>p k k'. rs_getHeader sp (rs_removeHeader sp p k) k' =
        (if ascii_lower k' = ascii_lower k then None else rs_getHeader sp p k')) \<and>
     (\<forall>p v k. rs_getHeader sp (rs_setVersion sp p v) k = rs_getHeader sp p k)"

definition request_headers :: "('q, 'p, 'h) spine \<Rightarrow> bool" where
  "request_headers sp \<longleftrightarrow>
     (\<forall>q k v k'. rq_getHeader sp (rq_setHeader sp q k v) k' =
        (if ascii_lower k' = ascii_lower k then Some v else rq_getHeader sp q k')) \<and>
     (\<forall>q k k'. rq_getHeader sp (rq_removeHeader sp q k) k' =
        (if ascii_lower k' = ascii_lower k then None else rq_getHeader sp q k'))"

lemma response_headersD:
  assumes "response_headers sp"
  shows "rs_getHeader sp (rs_setHeader sp p k v) k' =
           (if ascii_lower k' = ascii_lower k then Some v else rs_getHeader sp p k')"
    and "rs_getHeader sp (rs_removeHeader sp p k) k' =
           (if ascii_lower k' = ascii_lower k then None else rs_getHeader sp p k')"
    and "rs_getHeader sp (rs_setVersion sp p v) k = rs_getHeader sp p k"
  using assms by (simp_all add: response_headers_def)

lemma request_headersD:
  assumes "request_headers sp"
  shows "rq_getHeader sp (rq_setHeader sp q k v) k' =
           (if ascii_lower k' = ascii_lower k then Some v else rq_getHeader sp q k')"
    and "rq_getHeader sp (rq_removeHeader sp q k) k' =
           (if ascii_lower k' = ascii_lower k then None else rq_getHeader sp q k')"
  using assms by (simp_all add: request_headers_def)

end
