(* ===== verification/Utility.thy ===== *)
theory Utility
  imports Spine
begin

text \<open>
  \<^verbatim>\<open>source/Utility.cpp\<close>: the date header, hexadecimal chunk lengths, the choice of a content
  coding and the compression of a response, the search for a token in a header value, the
  version to answer with, the peek at a request head in the raw buffer, the dump of a
  request and the password file.
\<close>

subsection \<open>Decimal numbers and dates\<close>

definition digit :: "nat \<Rightarrow> char" where
  "digit d = ''0123456789'' ! d"

text \<open>\<^verbatim>\<open>std::to_string\<close> of an unsigned number, and \<open>%02ld\<close> of \<^verbatim>\<open>printf\<close>.\<close>

fun decimal :: "nat \<Rightarrow> string" where
  "decimal n = (if n < 10 then [digit n] else decimal (n div 10) @ [digit (n mod 10)])"

declare decimal.simps [simp del]

definition decimal_int :: "int \<Rightarrow> string" where
  "decimal_int n = (if n < 0 then CHR ''-'' # decimal (nat (- n)) else decimal (nat n))"

definition pad2 :: "nat \<Rightarrow> string" where
  "pad2 n = (if n < 10 then CHR ''0'' # decimal n else decimal n)"

definition weekdays :: "string list" where
  "weekdays = [''Sun'', ''Mon'', ''Tue'', ''Wed'', ''Thu'', ''Fri'', ''Sat'', ''Sun'']"

definition months :: "string list" where
  "months = ['''', ''Jan'', ''Feb'', ''Mar'', ''Apr'', ''May'', ''Jun'', ''Jul'', ''Aug'',
             ''Sep'', ''Oct'', ''Nov'', ''Dec'']"

text \<open>The reading of the universal clock that \<open>makeDateString\<close> formats.\<close>

record clock =
  cl_weekday :: nat
  cl_day :: nat
  cl_month :: nat
  cl_year :: nat
  cl_hours :: nat
  cl_minutes :: nat
  cl_seconds :: nat

definition makeDateString :: "clock \<Rightarrow> string" where
  "makeDateString u_time =
     weekdays ! cl_weekday u_time @ '', '' @ pad2 (cl_day u_time) @ '' '' @
     months ! cl_month u_time @ '' '' @ decimal (cl_year u_time) @ '' '' @
     pad2 (cl_hours u_time) @ '':'' @ pad2 (cl_minutes u_time) @ '':'' @
     pad2 (cl_seconds u_time) @ '' GMT''"

definition valid_clock :: "clock \<Rightarrow> bool" where
  "valid_clock u \<longleftrightarrow> cl_weekday u \<le> 7 \<and> 1 \<le> cl_day u \<and> cl_day u \<le> 31 \<and>
     1 \<le> cl_month u \<and> cl_month u \<le> 12 \<and> 1000 \<le> cl_year u \<and> cl_year u \<le> 9999 \<and>
     cl_hours u < 24 \<and> cl_minutes u < 60 \<and> cl_seconds u \<le> 60"

lemma length_decimal_1: "n < 10 \<Longrightarrow> length (decimal n) = 1"
  by (simp add: decimal.simps)

lemma length_decimal_Suc: "10 \<le> n \<Longrightarrow> length (decimal n) = Suc (length (decimal (n div 10)))"
  by (subst decimal.simps) simp

lemma length_decimal_4: "1000 \<le> n \<Longrightarrow> n \<le> 9999 \<Longrightarrow> length (decimal n) = 4"
  by (simp add: length_decimal_Suc length_decimal_1 flip: div_mult2_eq)

lemma length_pad2: "n < 100 \<Longrightarrow> length (pad2 n) = 2"
  by (auto simp: pad2_def length_decimal_1 length_decimal_Suc)

lemma length_weekday: "w \<le> 7 \<Longrightarrow> length (weekdays ! w) = 3"
  by (auto simp: weekdays_def le_Suc_eq numeral_eq_Suc)

lemma length_month: "1 \<le> m \<Longrightarrow> m \<le> 12 \<Longrightarrow> length (months ! m) = 3"
  by (auto simp: months_def le_Suc_eq numeral_eq_Suc)

lemma decimal_digits: "set (decimal n) \<subseteq> set ''0123456789''"
proof (induction n rule: decimal.induct)
  case (1 n)
  show ?case
  proof (cases "n < 10")
    case True
    then show ?thesis by (auto simp: decimal.simps[of n] digit_def less_Suc_eq numeral_eq_Suc)
  next
    case False
    have "digit (n mod 10) \<in> set ''0123456789''"
      unfolding digit_def by (rule nth_mem) simp
    with False 1 show ?thesis by (auto simp: decimal.simps[of n])
  qed
qed

subsection \<open>Chunk lengths\<close>

definition convertToHex :: "('q, 'p, 'h) spine \<Rightarrow> nat \<Rightarrow> string" where
  "convertToHex sp theNumber = to_hex sp theNumber"

subsection \<open>Content codings\<close>

definition non_compressable_mimes :: "string list" where
  "non_compressable_mimes = [''image/png'', ''image/webp'', ''application/pdf'']"

definition select_content_encoding ::
  "('q, 'p, 'h) spine \<Rightarrow> 'q \<Rightarrow> 'p \<Rightarrow> nat \<Rightarrow> string list \<Rightarrow> string" where
  "select_content_encoding sp request response compressLimit contentCodings =
     (if rs_getHeader sp response ''Content-Encoding'' \<noteq> None then ''''
      else if (case rs_getHeader sp response ''Content-Type'' of
                 None \<Rightarrow> False
               | Some content_header \<Rightarrow>
                   list_ex (\<lambda>mime. contains content_header mime) non_compressable_mimes) then ''''
      else if rq_getParameter sp request ''gzip'' = Some ''1'' then ''gzip''
      else if rs_getContentLength sp response < compressLimit then ''''
      else selectContentEncoding sp request
             (if contentCodings = [] then supportedContentEncodings sp else contentCodings)
             (wildcardContentEncoding sp))"

definition gzip_fast_level :: nat where
  "gzip_fast_level = 3"

definition compress_response :: "('q, 'p, 'h) spine \<Rightarrow> 'p \<Rightarrow> string \<Rightarrow> 'p" where
  "compress_response sp response encoding =
     (let (content, response) = rs_getContent sp response;
          output = (if encoding = ''zstd'' then zstd_compress sp content
                    else gzip_compress sp gzip_fast_level content);
          response = rs_setContent sp response output;
          response = rs_setHeader sp response ''Content-Encoding'' encoding
      in (case rs_getHeader sp response ''ETag'' of
            None \<Rightarrow> response
          | Some etag \<Rightarrow>
              rs_setHeader sp response ''ETag'' (contentCodedETag sp etag encoding)))"

subsection \<open>Header values that are lists of tokens\<close>

definition ws :: string where
  "ws = [CHR '' '', CHR 0x09]"

definition crlf :: string where
  "crlf = [CHR 0x0D, CHR 0x0A]"

lemma length_crlf [simp]: "length crlf = 2"
  by (simp add: crlf_def)

definition npos :: nat where
  "npos = 2 ^ 64 - 1"

text \<open>
  The trimmed text between \<open>pos\<close> and \<open>end\<close>, as \<open>hasHeaderToken\<close>, \<open>peekRequestHead\<close> and
  \<open>stripHopByHopHeaders\<close> compute it: the first byte that is not white space, if it lies
  before \<open>end\<close>, up to the last one.
\<close>

definition trimmed_field :: "string \<Rightarrow> nat \<Rightarrow> nat \<Rightarrow> string option" where
  "trimmed_field s pos e =
     (case find_first_not_of s ws pos of
        None \<Rightarrow> None
      | Some first \<Rightarrow>
          if first < e then
            (let last = (case find_last_not_of s ws (e - 1) of None \<Rightarrow> npos | Some l \<Rightarrow> l)
             in Some (substr s first (last - first + 1)))
          else None)"

definition element_end :: "string \<Rightarrow> nat \<Rightarrow> nat" where
  "element_end s pos = (case find_char s CHR '','' pos of None \<Rightarrow> length s | Some i \<Rightarrow> i)"

lemma element_end_bounds:
  "pos \<le> length s \<Longrightarrow> pos \<le> element_end s pos \<and> element_end s pos \<le> length s"
  by (auto simp: element_end_def split: option.splits dest: find_char_Some_bound)

function hasHeaderToken_from ::
  "('q, 'p, 'h) spine \<Rightarrow> string \<Rightarrow> string \<Rightarrow> nat \<Rightarrow> bool" where
  "hasHeaderToken_from sp headerValue token pos =
     (if pos \<le> length headerValue then
        (let e = element_end headerValue pos in
         if (case trimmed_field headerValue pos e of
               None \<Rightarrow> False | Some t \<Rightarrow> ascii_tolower_copy sp t = token) then True
         else hasHeaderToken_from sp headerValue token (e + 1))
      else False)"
  by pat_completeness auto
termination
  by (relation "measure (\<lambda>(sp, hv, tok, pos). Suc (length hv) - pos)")
    (auto dest: element_end_bounds)

declare hasHeaderToken_from.simps [simp del]

definition hasHeaderToken :: "('q, 'p, 'h) spine \<Rightarrow> string \<Rightarrow> string \<Rightarrow> bool" where
  "hasHeaderToken sp headerValue token = hasHeaderToken_from sp headerValue token 0"

text \<open>The specification: split at the commas, trim, drop what is empty, fold the case.\<close>

definition header_elements :: "string \<Rightarrow> string list" where
  "header_elements s = filter (\<lambda>t. t \<noteq> []) (map (trim ws) (split_on CHR '','' s))"

definition header_tokens :: "string \<Rightarrow> string list" where
  "header_tokens s = map ascii_lower (header_elements s)"

lemma trimmed_field_trim:
  assumes "pos \<le> e" "e \<le> length s"
  shows "trimmed_field s pos e =
    (let t = trim ws (substr s pos (e - pos)) in if t = [] then None else Some t)"
proof -
  let ?m = "substr s pos (e - pos)"
  have m: "?m = take (e - pos) (drop pos s)" by (simp add: substr_def)
  have len: "length ?m = e - pos" using assms by (simp add: m)
  have sm: "s = take pos s @ ?m @ drop e s"
    using assms by (metis add_diff_cancel_left' append_take_drop_id drop_drop le_add_diff_inverse2 m)
  show ?thesis
  proof (cases "\<exists>x \<in> set ?m. x \<notin> set ws")
    case False
    then have all: "\<forall>x \<in> set ?m. x \<in> set ws" by simp
    have "\<not> first < e" if "find_first_not_of s ws pos = Some first" for first
    proof
      assume lt: "first < e"
      from that have b: "pos \<le> first" "first < length s" "s ! first \<notin> set ws"
        by (auto dest: find_first_not_of_Some_bound)
      with lt have "s ! first \<in> set ?m"
        by (auto simp: m in_set_conv_nth intro!: exI[of _ "first - pos"])
      with all b show False by simp
    qed
    then have "trimmed_field s pos e = None"
      by (auto simp: trimmed_field_def split: option.splits)
    moreover have "trim ws ?m = []" using all by (simp add: trim_eq_Nil)
    ultimately show ?thesis by (simp add: Let_def)
  next
    case True
    then obtain b1 b2 where dec: "?m = b1 @ trim ws ?m @ b2"
      and b1: "\<forall>y \<in> set b1. y \<in> set ws" and b2: "\<forall>y \<in> set b2. y \<in> set ws"
      and ne: "trim ws ?m \<noteq> []" and hd: "hd (trim ws ?m) \<notin> set ws"
      and last: "last (trim ws ?m) \<notin> set ws"
      by (rule trim_obtain) blast
    let ?t = "trim ws ?m"
    have dpos: "drop pos s = b1 @ ?t @ b2 @ drop e s"
      using sm dec assms by (metis append.assoc append_eq_conv_conj length_take min.absorb2 order_trans)
    have "first_index (\<lambda>x. x \<notin> set ws) (b1 @ hd ?t # (tl ?t @ b2 @ drop e s)) = Some (length b1)"
      by (rule first_index_skip) (use b1 hd in auto)
    moreover have "hd ?t # (tl ?t @ b2 @ drop e s) = ?t @ b2 @ drop e s"
      using ne by (metis append_Cons list.collapse)
    ultimately have ff: "find_first_not_of s ws pos = Some (pos + length b1)"
      by (simp add: find_first_not_of_def dpos)
    have te: "take e s = (take pos s @ b1 @ butlast ?t) @ last ?t # b2"
    proof -
      have "take e s = take pos s @ ?m"
        using assms by (metis le_add_diff_inverse m take_add)
      then show ?thesis using dec ne by (metis append.assoc append_Cons append_Nil append_butlast_last_id)
    qed
    have e_len: "e = pos + length b1 + length ?t + length b2"
      using len dec assms by (metis le_add_diff_inverse length_append add.assoc)
    then have e_pos: "Suc (e - 1) = e" using ne by (cases ?t) auto
    have fl: "find_last_not_of s ws (e - 1) = Some (pos + length b1 + (length ?t - 1))"
      unfolding find_last_not_of_def e_pos te
      by (subst last_index_skip) (use b2 last assms in auto)
    have "pos + length b1 + (length ?t - 1) - (pos + length b1) + 1 = length ?t"
      using ne by (cases ?t) auto
    moreover have "drop (pos + length b1) s = ?t @ b2 @ drop e s"
      using dpos by (metis add.commute append_eq_conv_conj drop_drop)
    then have "substr s (pos + length b1) (length ?t) = ?t" by (simp add: substr_def)
    moreover have "pos + length b1 < e" using e_len ne by (cases ?t) auto
    ultimately show ?thesis using ff fl ne by (simp add: trimmed_field_def Let_def)
  qed
qed

lemma split_on_element_end:
  assumes "pos \<le> length s"
  shows "split_on CHR '','' (drop pos s) =
    substr s pos (element_end s pos - pos) #
    (if element_end s pos < length s then split_on CHR '','' (drop (element_end s pos + 1) s) else [])"
proof (cases "CHR '','' \<in> set (drop pos s)")
  case True
  let ?k = "length (takeWhile (\<lambda>x. x \<noteq> CHR '','') (drop pos s))"
  have k: "?k < length (drop pos s)"
    using True unfolding length_takeWhile_lt by blast
  have e: "element_end s pos = pos + ?k"
    using True by (simp add: element_end_def find_char_takeWhile)
  moreover have "takeWhile (\<lambda>x. x \<noteq> CHR '','') (drop pos s) = take ?k (drop pos s)"
    by (rule takeWhile_eq_take)
  moreover have "tl (dropWhile (\<lambda>x. x \<noteq> CHR '','') (drop pos s)) = drop (pos + ?k + 1) s"
    unfolding dropWhile_eq_drop drop_drop by (simp add: drop_Suc tl_drop add.commute)
  ultimately show ?thesis
    using True k by (subst split_on_takeWhile) (simp add: substr_def)
next
  case False
  then have "element_end s pos = length s"
    by (simp add: element_end_def find_char_takeWhile)
  with False assms show ?thesis by (subst split_on_takeWhile) (simp add: substr_def)
qed

lemma header_elements_from:
  assumes "pos \<le> length s"
  shows "header_elements (drop pos s) =
    (case trimmed_field s pos (element_end s pos) of None \<Rightarrow> [] | Some t \<Rightarrow> [t]) @
    (if element_end s pos < length s then header_elements (drop (element_end s pos + 1) s) else [])"
  using element_end_bounds[OF assms]
  by (simp add: header_elements_def split_on_element_end[OF assms] trimmed_field_trim Let_def)

lemma hasHeaderToken_from_elements:
  "pos \<le> length hv \<Longrightarrow>
     hasHeaderToken_from sp hv token pos \<longleftrightarrow>
     token \<in> ascii_tolower_copy sp ` set (header_elements (drop pos hv))"
proof (induction sp hv token pos rule: hasHeaderToken_from.induct)
  case (1 sp hv token pos)
  let ?e = "element_end hv pos"
  have b: "pos \<le> ?e" "?e \<le> length hv" using element_end_bounds[OF "1.prems"] by auto
  have past: "\<not> hasHeaderToken_from sp hv token (?e + 1)" if "\<not> ?e < length hv"
    using that by (simp add: hasHeaderToken_from.simps)
  have IH: "hasHeaderToken_from sp hv token (?e + 1) \<longleftrightarrow>
      token \<in> ascii_tolower_copy sp ` set (header_elements (drop (?e + 1) hv))"
    if "?e < length hv" "\<not> (case trimmed_field hv pos ?e of None \<Rightarrow> False
      | Some t \<Rightarrow> ascii_tolower_copy sp t = token)"
    using "1.IH"[OF "1.prems" refl] that by simp
  show ?case
    unfolding hasHeaderToken_from.simps[of sp hv token pos] header_elements_from[OF "1.prems"]
    using "1.prems" past IH by (cases "trimmed_field hv pos ?e") (auto simp: Let_def)
qed

subsection \<open>The version to answer with\<close>

definition negotiateVersion :: "('q, 'p, 'h) spine \<Rightarrow> string \<Rightarrow> string" where
  "negotiateVersion sp requestVersion =
     (case find_char requestVersion CHR ''.'' 0 of
        None \<Rightarrow> ''1.0''
      | Some dot \<Rightarrow>
          (case (stoul sp (substr requestVersion 0 dot), stoul sp (drop (dot + 1) requestVersion)) of
             (Some major, Some minor) \<Rightarrow>
               if major > 1 \<or> (major = 1 \<and> minor \<ge> 1) then ''1.1'' else ''1.0''
           | _ \<Rightarrow> ''1.0''))"

definition reads_decimal :: "('q, 'p, 'h) spine \<Rightarrow> bool" where
  "reads_decimal sp \<longleftrightarrow> (\<forall>n < 2 ^ 64. stoul sp (decimal n) = Some n)"

lemma find_char_skip:
  "c \<notin> set a \<Longrightarrow> find_char (a @ c # b) c 0 = Some (length a)"
  by (subst find_char_def) (auto intro!: first_index_skip)

lemma dot_not_in_decimal: "CHR ''.'' \<notin> set (decimal n)"
  using decimal_digits[of n] by auto

subsection \<open>The request head in the raw buffer\<close>

record RawRequestHead =
  head_complete :: bool
  head_version :: string
  head_expect :: string

definition empty_head :: RawRequestHead where
  "empty_head = \<lparr>head_complete = False, head_version = [], head_expect = []\<rparr>"

function peek_expect :: "('q, 'p, 'h) spine \<Rightarrow> string \<Rightarrow> nat \<Rightarrow> nat \<Rightarrow> string" where
  "peek_expect sp buffer e pos =
     (if pos < e then
        (case find_str buffer crlf pos of
           None \<Rightarrow> []
         | Some lineEnd \<Rightarrow>
             if lineEnd > e then []
             else
               (let expect_line =
                  (case find_char buffer CHR '':'' pos of
                     None \<Rightarrow> None
                   | Some colon \<Rightarrow>
                       if colon < lineEnd \<and>
                          ascii_tolower_copy sp (substr buffer pos (colon - pos)) = ''expect''
                       then Some colon else None)
                in case expect_line of
                     Some colon \<Rightarrow>
                       (case trimmed_field buffer (colon + 1) lineEnd of None \<Rightarrow> [] | Some v \<Rightarrow> v)
                   | None \<Rightarrow> peek_expect sp buffer e (lineEnd + 2)))
      else [])"
  by pat_completeness auto
termination
  by (relation "measure (\<lambda>(sp, buffer, e, pos). e - pos)") (auto dest!: find_str_Some)

declare peek_expect.simps [simp del]

definition peekRequestHead :: "('q, 'p, 'h) spine \<Rightarrow> string \<Rightarrow> RawRequestHead" where
  "peekRequestHead sp buffer =
     (case find_str buffer (crlf @ crlf) 0 of
        None \<Rightarrow> empty_head
      | Some e \<Rightarrow>
          (let eol = (case find_str buffer crlf 0 of None \<Rightarrow> npos | Some i \<Rightarrow> i);
               version = (case rfind_str buffer ''HTTP/'' eol of
                            None \<Rightarrow> []
                          | Some versionPos \<Rightarrow>
                              substr buffer (versionPos + 5) (eol - versionPos - 5))
           in \<lparr>head_complete = True, head_version = version,
                head_expect = peek_expect sp buffer e (eol + 2)\<rparr>))"

subsection \<open>Request dumps and the password file\<close>

definition dumpRequest :: "('q, 'p, 'h) spine \<Rightarrow> 'q \<Rightarrow> string" where
  "dumpRequest sp request =
     ''Received request: '' @ rq_getURI sp request @ '' ('' @ rq_getClientIP sp request @ '')'' @
     (let contentLength = rq_getContentLength sp request in
      if contentLength > 0
      then substr (rq_getContent sp request) 0 (min 25 contentLength) @ [CHR 0x0A]
      else [])"

datatype password_error = Cannot_open | Cannot_read

text \<open>
  The argument is the content of the file, \<open>None\<close> when it cannot be opened.
  \<^verbatim>\<open>std::getline\<close> takes the bytes before the first line feed and sets \<^verbatim>\<open>eof\<close> when there is
  none.
\<close>

definition readPassword :: "string option \<Rightarrow> password_error + string" where
  "readPassword file =
     (case file of
        None \<Rightarrow> Inl Cannot_open
      | Some content \<Rightarrow>
          (let s = takeWhile (\<lambda>c. c \<noteq> CHR 0x0A) content;
               eof = (CHR 0x0A \<notin> set content)
           in if s = [] \<and> eof then Inl Cannot_read else Inr s))"

subsection \<open>The shape of a request head\<close>

text \<open>The header section a client sends: the request line, one line per field, an empty line.\<close>

definition field_line :: "string \<times> string \<Rightarrow> string" where
  "field_line nv = fst nv @ CHR '':'' # snd nv"

fun field_lines :: "(string \<times> string) list \<Rightarrow> string" where
  "field_lines [] = []"
| "field_lines (nv # nvs) = field_line nv @ crlf @ field_lines nvs"

definition request_head :: "string \<Rightarrow> (string \<times> string) list \<Rightarrow> string" where
  "request_head line hs = line @ crlf @ field_lines hs @ crlf"

definition no_cr :: "string \<Rightarrow> bool" where
  "no_cr s \<longleftrightarrow> CHR 0x0D \<notin> set s"

definition field_ok :: "string \<times> string \<Rightarrow> bool" where
  "field_ok nv \<longleftrightarrow> CHR '':'' \<notin> set (fst nv) \<and> no_cr (fst nv) \<and> no_cr (snd nv)"

text \<open>The value the peek has to report: the trimmed value of the first Expect field.\<close>

fun expect_value :: "(string \<times> string) list \<Rightarrow> string" where
  "expect_value [] = []"
| "expect_value (nv # nvs) =
     (if ascii_lower (fst nv) = ''expect'' then trim ws (snd nv) else expect_value nvs)"

lemma first_sub_crlf:
  "no_cr a \<Longrightarrow> first_sub crlf (a @ crlf @ rest) = Some (length a)"
  by (induction a) (auto simp: first_sub.simps crlf_def no_cr_def)

lemma find_str_crlf:
  assumes "no_cr a"
  shows "find_str (pre @ a @ crlf @ rest) crlf (length pre) = Some (length pre + length a)"
  using first_sub_crlf[OF assms] by (simp add: find_str_def)

lemma first_sub_skip_line:
  "no_cr a \<Longrightarrow> first_sub (crlf @ crlf) (a @ rest) =
     map_option (\<lambda>i. length a + i) (first_sub (crlf @ crlf) rest)"
proof (induction a)
  case Nil
  then show ?case by (simp add: option.map_ident)
next
  case (Cons x a)
  then have "first_sub (crlf @ crlf) ((x # a) @ rest) =
      map_option Suc (first_sub (crlf @ crlf) (a @ rest))"
    by (subst append_Cons, subst first_sub.simps) (auto simp: crlf_def no_cr_def)
  with Cons show ?case by (simp add: no_cr_def option.map_comp comp_def)
qed

lemma first_sub_skip_crlf:
  assumes "take (Suc (Suc 0)) rest \<noteq> crlf"
  shows "first_sub (crlf @ crlf) (crlf @ rest) =
    map_option (\<lambda>i. Suc (Suc i)) (first_sub (crlf @ crlf) rest)"
proof -
  have "first_sub (crlf @ crlf) (CHR 0x0A # rest) = map_option Suc (first_sub (crlf @ crlf) rest)"
    by (subst first_sub.simps) (simp add: crlf_def)
  moreover have "first_sub (crlf @ crlf) (crlf @ rest) =
      map_option Suc (first_sub (crlf @ crlf) (CHR 0x0A # rest))"
    using assms by (subst first_sub.simps) (simp add: crlf_def)
  ultimately show ?thesis by (simp add: option.map_comp comp_def)
qed

lemma field_line_starts:
  assumes "field_ok nv"
  shows "take (Suc (Suc 0)) (field_line nv @ rest) \<noteq> crlf" "no_cr (field_line nv)"
    "0 < length (field_line nv)"
  using assms by (cases "fst nv"; auto simp: field_ok_def field_line_def no_cr_def crlf_def)+

lemma first_sub_field_lines:
  "\<forall>nv \<in> set hs. field_ok nv \<Longrightarrow>
     first_sub (crlf @ crlf) (crlf @ field_lines hs @ crlf @ body) = Some (length (field_lines hs))"
proof (induction hs)
  case Nil
  then show ?case by (simp add: first_sub.simps crlf_def)
next
  case (Cons nv hs)
  then have ok: "field_ok nv" by simp
  note skip = first_sub_skip_crlf[OF field_line_starts(1)[OF ok]]
    first_sub_skip_line[OF field_line_starts(2)[OF ok]]
  from Cons show ?case by (simp add: skip)
qed

lemma find_head_end:
  assumes "no_cr line" "\<forall>nv \<in> set hs. field_ok nv"
  shows "find_str (request_head line hs @ body) (crlf @ crlf) 0 =
    Some (length line + length (field_lines hs))"
  using first_sub_skip_line[OF assms(1)] first_sub_field_lines[OF assms(2)]
  by (simp add: find_str_def request_head_def)

lemma peek_expect_fields:
  assumes "lowers_ascii sp" "\<forall>nv \<in> set hs. field_ok nv" "e + 2 = length P + length (field_lines hs)"
  shows "peek_expect sp (P @ field_lines hs @ crlf @ body) e (length P) = expect_value hs"
  using assms(2,3)
proof (induction hs arbitrary: P)
  case Nil
  then show ?case by (simp add: peek_expect.simps)
next
  case (Cons nv hs)
  obtain n v where nv: "nv = (n, v)" by (cases nv)
  let ?R = "field_lines hs @ crlf @ body"
  let ?b = "P @ (n @ CHR '':'' # v) @ crlf @ ?R"
  let ?c = "length P + length n" and ?l = "length P + length (n @ CHR '':'' # v)"
  have ok: "CHR '':'' \<notin> set n" "no_cr (n @ CHR '':'' # v)"
    using Cons.prems(1) by (auto simp: nv field_ok_def no_cr_def)
  have le: "length P < e" "?l \<le> e"
    using Cons.prems(2) by (auto simp: nv field_line_def crlf_def)
  have fe: "find_str ?b crlf (length P) = Some ?l" by (rule find_str_crlf[OF ok(2)])
  have fc: "find_char ?b CHR '':'' (length P) = Some ?c"
    using ok(1) by (subst find_char_def) (auto intro!: first_index_skip)
  have name: "substr ?b (length P) (?c - length P) = n" by (simp add: substr_def)
  have val: "substr ?b (?c + 1) (?l - (?c + 1)) = v" by (simp add: substr_def)
  have tf: "trimmed_field ?b (?c + 1) ?l = (if trim ws v = [] then None else Some (trim ws v))"
    using trimmed_field_trim[of "?c + 1" ?l ?b] val by (simp add: Let_def)
  have rest: "peek_expect sp ?b e (?l + 2) = expect_value hs"
    using Cons.IH[of "P @ n @ CHR '':'' # v @ crlf"] Cons.prems
    by (simp add: nv field_line_def add.assoc)
  have "field_lines (nv # hs) @ crlf @ body = (n @ CHR '':'' # v) @ crlf @ ?R"
    by (simp add: nv field_line_def)
  then show ?case
    using le fe fc name tf rest assms(1)
    by (subst peek_expect.simps) (auto simp: nv lowers_ascii_def Let_def)
qed

lemma take_drop_full:
  "take (length p) (drop j x) = p \<Longrightarrow> p \<noteq> [] \<Longrightarrow> j + length p \<le> length x"
  by (metis add.commute diff_diff_add drop_drop drop_eq_Nil le_diff_conv2 length_drop length_take
      min.cobounded1 nat_le_linear take_Nil)

lemma last_sub_hit:
  assumes "last_sub p b = None"
  shows "last_sub p (x # b) = (if take (length p) (x # b) = p then Some 0 else None)"
  using assms by (simp add: last_sub.simps[of p "x # b"])

lemma last_sub_prepend:
  "last_sub p s = Some i \<Longrightarrow> last_sub p (a @ s) = Some (length a + i)"
  by (induction a) (simp_all add: last_sub.simps[of p "_ # _"])

lemma last_sub_NoneI:
  "(\<And>j. j \<le> length s \<Longrightarrow> take (length p) (drop j s) \<noteq> p) \<Longrightarrow> last_sub p s = None"
proof (induction s)
  case Nil
  from Nil[of 0] show ?case by (auto simp: last_sub.simps)
next
  case (Cons x s)
  have "last_sub p s = None"
    by (rule Cons.IH) (use Cons.prems[of "Suc _"] in auto)
  with Cons.prems[of 0] show ?case by (simp add: last_sub_hit)
qed

lemma rfind_http:
  assumes "CHR ''/'' \<notin> set ver" "no_cr ver"
  shows "rfind_str ((pre @ ''HTTP/'' @ ver) @ crlf @ rest) ''HTTP/''
      (length (pre @ ''HTTP/'' @ ver)) = Some (length pre)"
proof -
  let ?w = "take 4 (CHR 0x0A # rest)"
  let ?x = "''TTP/'' @ ver @ CHR 0x0D # ?w"
  have tk: "take (length (pre @ ''HTTP/'' @ ver) + length ''HTTP/'')
      ((pre @ ''HTTP/'' @ ver) @ crlf @ rest) = pre @ CHR ''H'' # ?x"
  proof -
    have "take (length L + 5) (L @ R) = L @ take 5 R" for L R :: string by simp
    from this[of "pre @ ''HTTP/'' @ ver" "crlf @ rest"] show ?thesis by (simp add: crlf_def)
  qed
  have "last_sub ''HTTP/'' ?x = None"
  proof (rule last_sub_NoneI)
    fix j
    show "take (length ''HTTP/'') (drop j ?x) \<noteq> ''HTTP/''"
    proof
      assume m: "take (length ''HTTP/'') (drop j ?x) = ''HTTP/''"
      then have len: "j + length ''HTTP/'' \<le> length ?x" by (rule take_drop_full) simp
      have at: "?x ! (j + k) = ''HTTP/'' ! k" if "k < 5" for k
        using arg_cong[OF m, of "\<lambda>l. l ! k"] that len by simp
      show False
      proof (cases "j < length ver")
        case True
        show False
        proof (cases "j < 4")
          case True
          then consider "j = 0" | "j = 1" | "j = 2" | "j = 3" by linarith
          then show False using at[of 0] by cases (simp_all add: numeral_eq_Suc)
        next
          case False
          have "?x ! (j + 4) = ver ! j" using True by (simp add: nth_append)
          with at[of 4] have "ver ! j = CHR ''/''" by simp
          with True assms(1) show False by (metis nth_mem)
        qed
      next
        case False
        let ?k = "4 + length ver - j"
        have k: "?k < 5" "j + ?k = 4 + length ver" using False len by auto
        have "?x ! (4 + length ver) = CHR 0x0D" by (simp add: nth_append)
        with at[OF k(1)] k(2) have "''HTTP/'' ! ?k = CHR 0x0D" by metis
        moreover have "''HTTP/'' ! ?k \<in> set ''HTTP/''" by (rule nth_mem) (use k(1) in simp)
        ultimately show False by simp
      qed
    qed
  qed
  then show ?thesis
    unfolding rfind_str_def tk by (intro last_sub_prepend[of _ _ 0, simplified]) (simp add: last_sub_hit)
qed

lemma peekRequestHead_reads:
  assumes "lowers_ascii sp" "no_cr (pre @ ''HTTP/'' @ ver)" "CHR ''/'' \<notin> set ver"
    and "\<forall>nv \<in> set hs. field_ok nv"
  shows "peekRequestHead sp (request_head (pre @ ''HTTP/'' @ ver) hs @ body) =
    \<lparr>head_complete = True, head_version = ver, head_expect = expect_value hs\<rparr>"
proof -
  let ?line = "pre @ ''HTTP/'' @ ver"
  let ?b = "request_head ?line hs @ body"
  have shape: "?b = (?line @ crlf) @ field_lines hs @ crlf @ body"
    "?b = ?line @ crlf @ (field_lines hs @ crlf @ body)"
    by (simp_all add: request_head_def)
  have eol: "find_str ?b crlf 0 = Some (length ?line)"
    unfolding shape(2) using find_str_crlf[OF assms(2), of "[]"]
    by (simp only: append_Nil list.size add_0)
  have ver: "rfind_str ?b ''HTTP/'' (length ?line) = Some (length pre)"
    unfolding shape(2) by (rule rfind_http) (use assms(2,3) in \<open>auto simp: no_cr_def\<close>)
  have sub: "substr ?b (length pre + 5) (length ?line - length pre - 5) = ver"
    unfolding shape(2) substr_def by simp
  have ex: "peek_expect sp ?b (length ?line + length (field_lines hs)) (length ?line + 2) =
      expect_value hs"
    using peek_expect_fields[OF assms(1,4), of _ "?line @ crlf" body] 
    unfolding shape(1) by (simp add: crlf_def)
  show ?thesis
    using find_head_end[OF assms(2,4), of body] eol ver sub ex
    by (simp add: peekRequestHead_def Let_def)
qed

text \<open>C28. Whatever request line and header fields a client sends, \<open>peekRequestHead\<close> reports nothing
  as long as the empty line after them is not whole in the buffer, and then the section as
  complete, with the version of the request line and the trimmed value of the first
  \<^verbatim>\<open>Expect\<close> field, in any case, or nothing, whatever follows.\<close>

theorem peekRequestHead_complete:
  assumes "lowers_ascii sp" "no_cr (pre @ ''HTTP/'' @ ver)" "CHR ''/'' \<notin> set ver"
    and "\<forall>nv \<in> set hs. field_ok nv"
  shows "let head = request_head (pre @ ''HTTP/'' @ ver) hs in
    (\<forall>n < length head. peekRequestHead sp (take n head) = empty_head) \<and>
    peekRequestHead sp (head @ body) =
      \<lparr>head_complete = True, head_version = ver, head_expect = expect_value hs\<rparr>"
proof -
  let ?head = "request_head (pre @ ''HTTP/'' @ ver) hs"
  let ?i = "length (pre @ ''HTTP/'' @ ver) + length (field_lines hs)"
  have "length ?head = ?i + length (crlf @ crlf)" by (simp add: request_head_def)
  then have "peekRequestHead sp (take n ?head) = empty_head" if "n < length ?head" for n
    using find_str_prefix[of "take n ?head" "drop n ?head" "crlf @ crlf" ?i]
      find_head_end[OF assms(2,4), of "[]"] that
    by (simp only: append_take_drop_id append_Nil2 length_take peekRequestHead_def) simp
  then show ?thesis using peekRequestHead_reads[OF assms] by (simp add: Let_def)
qed

end
