(* ===== verification/Server.thy ===== *)
theory Server
  imports Utility
begin

text \<open>
  \<^verbatim>\<open>source/Server.cpp\<close> and \<^verbatim>\<open>include/Server.h\<close>: the settings a server reads at start up
  from its options and its configuration file, the per-plugin request limits, the default
  connection cap, the shutdown flag and the periodic memory log.
\<close>

subsection \<open>The connection cap\<close>

definition RLIM_INFINITY :: u64 where
  "RLIM_INFINITY = - 1"

text \<open>The argument is the soft limit, \<open>None\<close> when \<^verbatim>\<open>getrlimit\<close> fails.\<close>

definition defaultMaxConnections :: "u64 option \<Rightarrow> u64" where
  "defaultMaxConnections rlim_cur =
     (case rlim_cur of
        None \<Rightarrow> 4000
      | Some cur \<Rightarrow> if cur = RLIM_INFINITY then 4000 else max (cur * 3 div 4) 64)"

subsection \<open>What the constructor reads\<close>

text \<open>
  \<open>options\<close> are the fields of \<^verbatim>\<open>Spine::Options\<close> the constructor uses, \<open>config\<close> the results
  of its libconfig look-ups: \<open>None\<close> when a setting is absent or has another type. Three look-ups
  can throw: the conversion of an element of \<^verbatim>\<open>logmemoryfields\<close> that is not a string, that of the
  name of a plugin group without one (an element of a list), and \<^verbatim>\<open>IPFilter::fromConfig\<close> for a
  bad pattern. \<open>cf_logmemoryfields_ok\<close>, \<open>pg_hasName\<close> and \<open>cf_trustedproxies_ok\<close> say that they do not.
\<close>

record options =
  op_encryptionEnabled :: bool
  op_encryptionPassword :: string
  op_encryptionPasswordFile :: string
  op_compress :: bool
  op_compresslimit :: nat
  op_maxrequestsize :: nat
  op_timeout :: int
  op_logrequests :: bool
  op_port :: nat

record plugin_group =
  pg_name :: string
  pg_hasName :: bool
  pg_isGroup :: bool
  pg_request_timeout :: "int option"
  pg_cancel_on_disconnect :: "bool option"

record config =
  cf_logmemoryuse :: "nat option"
  cf_logmemoryfields :: "string list option"
  cf_logmemoryfields_ok :: bool
  cf_keepalive :: bool
  cf_keepalive_enabled :: "bool option"
  cf_keepalive_timeout :: "int option"
  cf_keepalive_maxrequests :: "int option"
  cf_maxconnections :: "int option"
  cf_maxheadersize :: "int option"
  cf_request_timeout :: "int option"
  cf_cancel_on_disconnect :: "bool option"
  cf_plugins :: "plugin_group list option"
  cf_trustedproxies :: "string list option"
  cf_trustedproxies_ok :: bool

record server =
  srv_encryptionEnabled :: bool
  srv_encryptionPassword :: string
  srv_canGzip :: bool
  srv_compressLimit :: nat
  srv_maxRequestSize :: nat
  srv_timeout :: int
  srv_dumpRequests :: bool
  srv_shutdownRequested :: bool
  srv_keepAliveEnabled :: bool
  srv_keepAliveTimeout :: int
  srv_maxKeepAliveRequests :: u64
  srv_maxConnections :: u64
  srv_connectionCount :: u64
  srv_maxHeaderSize :: nat
  srv_trustedProxies :: "string list"
  srv_requestTimeout :: nat
  srv_pluginRequestTimeouts :: "string \<rightharpoonup> nat"
  srv_cancelOnDisconnect :: bool
  srv_pluginCancelOnDisconnect :: "string \<rightharpoonup> bool"
  srv_memoryLogPeriod :: nat
  srv_memoryLogFields :: "string list"
  srv_memoryLogArmed :: bool

definition isKeepAliveEnabled :: "server \<Rightarrow> bool" where
  "isKeepAliveEnabled srv = srv_keepAliveEnabled srv"

definition getKeepAliveTimeout :: "server \<Rightarrow> int" where
  "getKeepAliveTimeout srv = srv_keepAliveTimeout srv"

definition getMaxKeepAliveRequests :: "server \<Rightarrow> u64" where
  "getMaxKeepAliveRequests srv = srv_maxKeepAliveRequests srv"

definition getMaxConnections :: "server \<Rightarrow> u64" where
  "getMaxConnections srv = srv_maxConnections srv"

definition getMaxHeaderSize :: "server \<Rightarrow> nat" where
  "getMaxHeaderSize srv = srv_maxHeaderSize srv"

definition getTrustedProxies :: "server \<Rightarrow> string list" where
  "getTrustedProxies srv = srv_trustedProxies srv"

definition getPassword :: "server \<Rightarrow> string" where
  "getPassword srv = srv_encryptionPassword srv"

definition isShutdownRequested :: "server \<Rightarrow> bool" where
  "isShutdownRequested srv = srv_shutdownRequested srv"

text \<open>The settings take these values before the configuration file is looked at.\<close>

definition initial_server :: "options \<Rightarrow> u64 option \<Rightarrow> server" where
  "initial_server opts rlim_cur =
     \<lparr>srv_encryptionEnabled = op_encryptionEnabled opts,
      srv_encryptionPassword = op_encryptionPassword opts,
      srv_canGzip = op_compress opts,
      srv_compressLimit = op_compresslimit opts,
      srv_maxRequestSize = op_maxrequestsize opts,
      srv_timeout = op_timeout opts,
      srv_dumpRequests = op_logrequests opts,
      srv_shutdownRequested = False,
      srv_keepAliveEnabled = True,
      srv_keepAliveTimeout = 30,
      srv_maxKeepAliveRequests = 1000,
      srv_maxConnections = defaultMaxConnections rlim_cur,
      srv_connectionCount = 0,
      srv_maxHeaderSize = 16384,
      srv_trustedProxies = [],
      srv_requestTimeout = 0,
      srv_pluginRequestTimeouts = Map.empty,
      srv_cancelOnDisconnect = False,
      srv_pluginCancelOnDisconnect = Map.empty,
      srv_memoryLogPeriod = 0,
      srv_memoryLogFields = [''RssAnon'', ''RssFile''],
      srv_memoryLogArmed = False\<rparr>"

definition scheduleMemoryLogging :: "server \<Rightarrow> server" where
  "scheduleMemoryLogging srv = srv\<lparr>srv_memoryLogArmed := True\<rparr>"

definition read_memory_log :: "config \<Rightarrow> server \<Rightarrow> server" where
  "read_memory_log cfg srv =
     (let srv = (case cf_logmemoryuse cfg of
                   None \<Rightarrow> srv | Some p \<Rightarrow> srv\<lparr>srv_memoryLogPeriod := p\<rparr>);
          srv = (case cf_logmemoryfields cfg of
                   None \<Rightarrow> srv | Some fs \<Rightarrow> srv\<lparr>srv_memoryLogFields := fs\<rparr>)
      in if srv_memoryLogPeriod srv > 0 then scheduleMemoryLogging srv else srv)"

definition read_keepalive :: "config \<Rightarrow> server \<Rightarrow> server" where
  "read_keepalive cfg srv =
     (if cf_keepalive cfg then
        (let srv = (case cf_keepalive_enabled cfg of
                      None \<Rightarrow> srv | Some b \<Rightarrow> srv\<lparr>srv_keepAliveEnabled := b\<rparr>);
             srv = (case cf_keepalive_timeout cfg of
                      None \<Rightarrow> srv
                    | Some t \<Rightarrow> if t > 0 then srv\<lparr>srv_keepAliveTimeout := t\<rparr> else srv)
         in (case cf_keepalive_maxrequests cfg of
               None \<Rightarrow> srv
             | Some m \<Rightarrow>
                 if m \<ge> 0 then srv\<lparr>srv_maxKeepAliveRequests := word_of_int m\<rparr> else srv))
      else srv)"

definition read_limits :: "config \<Rightarrow> server \<Rightarrow> server" where
  "read_limits cfg srv =
     (let srv = (case cf_maxconnections cfg of
                   None \<Rightarrow> srv
                 | Some n \<Rightarrow> if n \<ge> 0 then srv\<lparr>srv_maxConnections := word_of_int n\<rparr> else srv);
          srv = (case cf_maxheadersize cfg of
                   None \<Rightarrow> srv
                 | Some n \<Rightarrow> if n \<ge> 0 then srv\<lparr>srv_maxHeaderSize := nat n\<rparr> else srv);
          srv = (case cf_request_timeout cfg of
                   None \<Rightarrow> srv
                 | Some n \<Rightarrow> if n \<ge> 0 then srv\<lparr>srv_requestTimeout := nat n\<rparr> else srv)
      in (case cf_cancel_on_disconnect cfg of
            None \<Rightarrow> srv | Some b \<Rightarrow> srv\<lparr>srv_cancelOnDisconnect := b\<rparr>))"

definition read_plugin :: "('q, 'p, 'h) spine \<Rightarrow> plugin_group \<Rightarrow> server \<Rightarrow> server" where
  "read_plugin sp g srv =
     (if \<not> pg_isGroup g then srv
      else
        (let name = ascii_tolower_copy sp (pg_name g);
             srv = (case pg_request_timeout g of
                      None \<Rightarrow> srv
                    | Some t \<Rightarrow>
                        if t \<ge> 0
                        then srv\<lparr>srv_pluginRequestTimeouts :=
                                   (srv_pluginRequestTimeouts srv)(name \<mapsto> nat t)\<rparr>
                        else srv)
         in (case pg_cancel_on_disconnect g of
               None \<Rightarrow> srv
             | Some b \<Rightarrow> srv\<lparr>srv_pluginCancelOnDisconnect :=
                                (srv_pluginCancelOnDisconnect srv)(name \<mapsto> b)\<rparr>)))"

fun read_plugins :: "('q, 'p, 'h) spine \<Rightarrow> plugin_group list \<Rightarrow> server \<Rightarrow> server" where
  "read_plugins sp [] srv = srv"
| "read_plugins sp (g # gs) srv = read_plugins sp gs (read_plugin sp g srv)"

definition default_trusted_proxies :: "string list" where
  "default_trusted_proxies =
     [''127.0.0.0/8'', ''::1'', ''10.0.0.0/8'', ''172.16.0.0/12'', ''192.168.0.0/16'', ''fc00::/7'']"

definition read_trusted_proxies :: "config \<Rightarrow> server \<Rightarrow> server" where
  "read_trusted_proxies cfg srv =
     srv\<lparr>srv_trustedProxies :=
           (case cf_trustedproxies cfg of
              None \<Rightarrow> default_trusted_proxies | Some patterns \<Rightarrow> patterns)\<rparr>"

text \<open>
  The constructor. \<open>password_file\<close> is the content of the password file, \<open>tls\<close> whether the
  TLS context accepts the certificate and the key, \<open>bind\<close> the result of binding: the port
  the acceptor is bound to, \<open>None\<close> when binding throws.
\<close>

datatype server_error =
  Password_error password_error
| Tls_error
| Bind_error
| Memory_log_fields_error
| Plugin_name_error
| Trusted_proxies_error

definition plugins_named :: "config \<Rightarrow> bool" where
  "plugins_named cfg =
     (case cf_plugins cfg of
        None \<Rightarrow> True | Some gs \<Rightarrow> list_all (\<lambda>g. pg_isGroup g \<longrightarrow> pg_hasName g) gs)"

definition construct_server ::
  "('q, 'p, 'h) spine \<Rightarrow> options \<Rightarrow> config \<Rightarrow> u64 option \<Rightarrow> string option \<Rightarrow> bool \<Rightarrow>
   (nat \<Rightarrow> nat option) \<Rightarrow> server_error + (options \<times> server)" where
  "construct_server sp opts cfg rlim_cur password_file tls bind =
     (let srv = initial_server opts rlim_cur;
          with_password =
            (if srv_encryptionEnabled srv then
               (if op_encryptionPasswordFile opts \<noteq> [] then
                  (case readPassword password_file of
                     Inl e \<Rightarrow> Inl (Password_error e)
                   | Inr pw \<Rightarrow> if tls then Inr (srv\<lparr>srv_encryptionPassword := pw\<rparr>) else Inl Tls_error)
                else if tls then Inr srv else Inl Tls_error)
             else Inr srv)
      in case with_password of
           Inl e \<Rightarrow> Inl e
         | Inr srv \<Rightarrow>
             (case bind (op_port opts) of
                None \<Rightarrow> Inl Bind_error
              | Some bound \<Rightarrow>
                  if \<not> cf_logmemoryfields_ok cfg then Inl Memory_log_fields_error
                  else if \<not> plugins_named cfg then Inl Plugin_name_error
                  else if \<not> cf_trustedproxies_ok cfg then Inl Trusted_proxies_error
                  else
                  (let opts = (if op_port opts = 0 then opts\<lparr>op_port := bound\<rparr> else opts);
                       srv = read_memory_log cfg srv;
                       srv = read_keepalive cfg srv;
                       srv = read_limits cfg srv;
                       srv = (case cf_plugins cfg of
                                None \<Rightarrow> srv | Some gs \<Rightarrow> read_plugins sp gs srv);
                       srv = read_trusted_proxies cfg srv
                   in Inr (opts, srv))))"

subsection \<open>Per-plugin limits\<close>

definition getRequestTimeout :: "('q, 'p, 'h) spine \<Rightarrow> server \<Rightarrow> string \<Rightarrow> nat" where
  "getRequestTimeout sp srv thePluginName =
     (case srv_pluginRequestTimeouts srv (ascii_tolower_copy sp thePluginName) of
        Some t \<Rightarrow> t | None \<Rightarrow> srv_requestTimeout srv)"

definition getCancelOnDisconnect :: "('q, 'p, 'h) spine \<Rightarrow> server \<Rightarrow> string \<Rightarrow> bool" where
  "getCancelOnDisconnect sp srv thePluginName =
     (case srv_pluginCancelOnDisconnect srv (ascii_tolower_copy sp thePluginName) of
        Some b \<Rightarrow> b | None \<Rightarrow> srv_cancelOnDisconnect srv)"

text \<open>
  The contract of a setting that a plugin can override: a table by folded name, filled
  from the plugin groups in order, and a server-wide default.
\<close>

locale plugin_setting =
  fixes lower :: "string \<Rightarrow> string"
    and get :: "'srv \<Rightarrow> string \<Rightarrow> 'a"
    and override :: "'g \<Rightarrow> (string \<times> 'a) option"
    and load :: "'g list \<Rightarrow> 'srv \<Rightarrow> 'srv"
  assumes load_Nil: "load [] srv = srv"
    and load_snoc: "get (load (gs @ [g]) srv) name =
      (case override g of
         Some (n, v) \<Rightarrow> if lower n = lower name then v else get (load gs srv) name
       | None \<Rightarrow> get (load gs srv) name)"
begin

definition matching :: "string \<Rightarrow> 'g list \<Rightarrow> 'a list" where
  "matching name gs =
     [snd nv. Some nv \<leftarrow> map override gs, lower (fst nv) = lower name]"

text \<open>The last group that names the plugin decides, else the value before loading.\<close>

lemma get_load:
  "get (load gs srv) name = last (get srv name # matching name gs)"
proof (induction gs rule: rev_induct)
  case Nil
  then show ?case by (simp add: load_Nil matching_def)
next
  case (snoc g gs)
  then show ?case
    by (auto simp: load_snoc matching_def split: option.splits prod.splits)
qed

lemma get_load_case:
  assumes "lower n = lower m" "get srv n = get srv m"
  shows "get (load gs srv) n = get (load gs srv) m"
  using assms by (simp add: get_load matching_def)

end

definition group_timeout :: "plugin_group \<Rightarrow> (string \<times> nat) option" where
  "group_timeout g =
     (case pg_request_timeout g of
        Some t \<Rightarrow> if pg_isGroup g \<and> t \<ge> 0 then Some (pg_name g, nat t) else None
      | None \<Rightarrow> None)"

definition group_cancel :: "plugin_group \<Rightarrow> (string \<times> bool) option" where
  "group_cancel g =
     (case pg_cancel_on_disconnect g of
        Some b \<Rightarrow> if pg_isGroup g then Some (pg_name g, b) else None
      | None \<Rightarrow> None)"

lemma read_plugins_snoc: "read_plugins sp (gs @ [g]) srv = read_plugin sp g (read_plugins sp gs srv)"
  by (induction gs arbitrary: srv) auto

interpretation request_timeouts: plugin_setting
  "ascii_tolower_copy sp" "getRequestTimeout sp" group_timeout "read_plugins sp"
  for sp :: "('q, 'p, 'h) spine"
  by unfold_locales
    (auto simp: read_plugins_snoc read_plugin_def getRequestTimeout_def group_timeout_def Let_def
      split: option.splits)

interpretation disconnect_flags: plugin_setting
  "ascii_tolower_copy sp" "getCancelOnDisconnect sp" group_cancel "read_plugins sp"
  for sp :: "('q, 'p, 'h) spine"
  by unfold_locales
    (auto simp: read_plugins_snoc read_plugin_def getCancelOnDisconnect_def group_cancel_def Let_def
      split: option.splits)

subsection \<open>The memory log\<close>

definition status_line :: "string list \<Rightarrow> string \<Rightarrow> (string \<rightharpoonup> string) \<Rightarrow> (string \<rightharpoonup> string)" where
  "status_line flds line values =
     (case find_char line CHR '':'' 0 of
        None \<Rightarrow> values
      | Some pos \<Rightarrow>
          (let key = substr line 0 pos in
           if key \<in> set flds
           then values(key \<mapsto> dropWhile (\<lambda>c. c \<in> set ws) (drop (pos + 1) line))
           else values))"

definition status_values :: "string list \<Rightarrow> string list \<Rightarrow> (string \<rightharpoonup> string)" where
  "status_values flds lines = fold (status_line flds) lines Map.empty"

record jemalloc =
  je_epoch_ok :: bool
  je_stat :: "string \<Rightarrow> nat option"

definition stat_or_zero :: "jemalloc \<Rightarrow> string \<Rightarrow> nat" where
  "stat_or_zero je name = (case je_stat je name of None \<Rightarrow> 0 | Some v \<Rightarrow> v)"

text \<open>\<open>percent\<close> formats \<^verbatim>\<open>100.0 * a / b\<close> with one decimal.\<close>

definition appendJemallocStats :: "(nat \<Rightarrow> nat \<Rightarrow> string) \<Rightarrow> jemalloc option \<Rightarrow> string" where
  "appendJemallocStats percent mallctl =
     (case mallctl of
        None \<Rightarrow> []
      | Some je \<Rightarrow>
          if \<not> je_epoch_ok je then []
          else
            (case je_stat je ''stats.allocated'' of
               None \<Rightarrow> []
             | Some allocated \<Rightarrow>
                 (let active = stat_or_zero je ''stats.active'';
                      resident = stat_or_zero je ''stats.resident'';
                      mapped = stat_or_zero je ''stats.mapped'';
                      retained = stat_or_zero je ''stats.retained''
                  in '' jemalloc.allocated='' @ decimal allocated @
                     '' jemalloc.active='' @ decimal active @
                     '' jemalloc.resident='' @ decimal resident @
                     '' jemalloc.mapped='' @ decimal mapped @
                     '' jemalloc.retained='' @ decimal retained @
                     (if active > 0 \<and> active \<ge> allocated
                      then '' jemalloc.fragmentation='' @ percent (active - allocated) active
                      else []))))"

text \<open>
  \<open>lines\<close> are the lines of \<^verbatim>\<open>/proc/self/status\<close>, \<open>None\<close> when it cannot be opened; the
  result is what is printed.
\<close>

definition readAndLogMemoryUsage ::
  "(nat \<Rightarrow> nat \<Rightarrow> string) \<Rightarrow> jemalloc option \<Rightarrow> string list \<Rightarrow> string list option \<Rightarrow> string" where
  "readAndLogMemoryUsage percent mallctl flds lines =
     (case lines of
        None \<Rightarrow> []
      | Some ls \<Rightarrow>
          (let values = status_values flds ls
           in ''Memory:'' @
              concat (map (\<lambda>f. '' '' @ f @ ''='' @
                (case values f of Some v \<Rightarrow> v | None \<Rightarrow> [])) flds) @
              appendJemallocStats percent mallctl @ [CHR 0x0A]))"

definition handleMemoryLogTimer ::
  "(nat \<Rightarrow> nat \<Rightarrow> string) \<Rightarrow> jemalloc option \<Rightarrow> string list option \<Rightarrow> error_code \<Rightarrow> server \<Rightarrow>
   server \<times> string" where
  "handleMemoryLogTimer percent mallctl lines ec srv =
     (let srv = srv\<lparr>srv_memoryLogArmed := False\<rparr> in
      if ec \<noteq> Success \<or> srv_shutdownRequested srv then (srv, [])
      else (scheduleMemoryLogging srv,
            readAndLogMemoryUsage percent mallctl (srv_memoryLogFields srv) lines))"

end
