(* ===== verification/Connection.thy ===== *)
theory Connection
  imports Server
begin

text \<open>
  \<^verbatim>\<open>include/Connection.h\<close>, \<^verbatim>\<open>source/Connection.cpp\<close> and the fields of
  \<^verbatim>\<open>include/AsyncConnection.h\<close>: the state of a connection, as the base class and the derived
  class declare it, and the part of the outside world a connection acts on (its socket, the
  operations it has started, the hooks it has called, its log). A connection is alive as
  long as an asynchronous operation holds a \<^verbatim>\<open>shared_ptr\<close> to it, so the list \<open>pending\<close> is
  also the list of its owners.
\<close>

subsection \<open>State\<close>

text \<open>
  Sizes of data held in memory are \<open>nat\<close>; the counters that are compared, subtracted or
  matched for equality (\<open>itsRequestCount\<close>, \<open>itsMaxKeepAliveRequests\<close>,
  \<open>itsTimerGeneration\<close>) are 64-bit words.
\<close>

record ('q, 'p) connection =
  itsServer_set :: bool
  itsEncryptionEnabled :: bool
  itsTimerGeneration :: u64
  itsBuffer :: string
  itsRequest :: 'q
  itsResponse :: 'p
  itsReceivedBytes :: nat
  itsResponseString :: string
  itsPendingHeaders :: string
  itsCanGzipResponse :: bool
  itsCompressLimit :: nat
  itsMaxRequestSize :: nat
  itsTimeout :: int
  itsKeepAliveEnabled :: bool
  itsKeepAliveTimeout :: int
  itsMaxKeepAliveRequests :: u64
  itsMaxHeaderSize :: nat
  itsRequestCount :: u64
  itsKeepAlive :: bool
  itsResponseVersion :: string
  itsIdle :: bool
  itsCounted :: bool
  hasTimedOut :: bool
  itsQueryIsFast :: bool
  itsAdminQuery :: bool
  itsDumpRequests :: bool
  itsFinalStatus :: error_code

record ('q, 'p) async_connection = "('q, 'p) connection" +
  itsSentBytes :: nat
  itsTotalStreamedBytes :: nat
  itsBackendNotified :: bool
  itsHeadRequest :: bool
  itsExpectHandled :: bool
  itsDeclaredContentLength :: nat
  itsPrematurelyDisconnected :: bool

datatype pool = Admin_pool | Slow_pool | Fast_pool

text \<open>The write handlers, the jobs given to a thread pool, and what may be pending.\<close>

datatype writer = Regular_writer | Stream_writer | Chunked_writer | Final_writer

datatype 'h job = Handle_request 'h | Next_chunk | Next_chunked_chunk

datatype 'h pending =
  Pending_handshake
| Pending_read
| Pending_posted
| Pending_disconnect_read
| Pending_write writer nat
| Pending_timer u64
| Pending_job pool "'h job"

datatype hook =
  Client_started string
| Client_finished string error_code
| Plugin_called string
| Stream_logged nat
| Backend_finished string int streamer_status

datatype severity = Connection_error | Server_info

record report =
  rp_severity :: severity
  rp_message :: string
  rp_clientIP :: string
  rp_hostName :: string
  rp_uri :: string

record ('q, 'p, 'h) conn = "('q, 'p) async_connection" +
  socketOpen :: bool
  tcpNoDelay :: bool
  lockHeld :: bool
  deadlocked :: bool
  timerSeconds :: int
  pending :: "'h pending list"
  wire :: string
  hooks :: "hook list"
  reports :: "report list"
  destroyed :: bool

text \<open>
  What the operating system, the other threads and the plugins answer while one handler
  runs: the shutdown flag, the clock, the peer address, the load, the pools, the plugin, the
  outcome of the cancellation token, and the result of each synchronous write (an error
  code and, for a failed write, how many bytes had been sent).
\<close>

record cancellation_token =
  ct_deadline :: "nat option"
  ct_probe :: bool

record ('q, 'p, 'h) env =
  env_shutdown :: bool
  env_clock :: clock
  env_build :: string
  env_remoteIP :: "string option"
  env_noDelay :: error_code
  env_loadHigh :: bool
  env_adminPoolSize :: nat
  env_slowPoolSize :: nat
  env_schedule :: "pool \<Rightarrow> bool"
  env_handle :: "'h \<Rightarrow> 'q \<Rightarrow> 'p \<Rightarrow> ('q \<times> 'p \<times> bool) option"
  env_interrupt :: "cancellation_token \<Rightarrow> interrupt_reason option"
  env_elapsed :: string
  env_headerWrite :: "error_code \<times> nat"
  env_contentWrite :: "error_code \<times> nat"
  env_expectWrite :: "error_code \<times> nat"
  env_flushWrite :: "error_code \<times> nat"

subsection \<open>Construction and destruction\<close>

text \<open>
  The constructors, base class first, with the initializers of the declarations. The server
  is read once, for the settings of persistent connections; the flag and the counter shared
  with it are arguments of the functions that use them.
\<close>

definition construct_Connection ::
  "('q, 'p, 'h) spine \<Rightarrow> server \<Rightarrow> bool \<Rightarrow> bool \<Rightarrow> nat \<Rightarrow> nat \<Rightarrow> int \<Rightarrow> bool \<Rightarrow> ('q, 'p) connection" where
  "construct_Connection sp theServer encryptionEnabled canGzipResponse compressLimit maxRequestSize
     timeout dumpRequests =
     \<lparr>itsServer_set = True,
      itsEncryptionEnabled = encryptionEnabled,
      itsTimerGeneration = 0,
      itsBuffer = [],
      itsRequest = new_Request sp,
      itsResponse = new_Response sp,
      itsReceivedBytes = 0,
      itsResponseString = [],
      itsPendingHeaders = [],
      itsCanGzipResponse = canGzipResponse,
      itsCompressLimit = compressLimit,
      itsMaxRequestSize = maxRequestSize,
      itsTimeout = timeout,
      itsKeepAliveEnabled = isKeepAliveEnabled theServer,
      itsKeepAliveTimeout = getKeepAliveTimeout theServer,
      itsMaxKeepAliveRequests = getMaxKeepAliveRequests theServer,
      itsMaxHeaderSize = getMaxHeaderSize theServer,
      itsRequestCount = 0,
      itsKeepAlive = False,
      itsResponseVersion = ''1.0'',
      itsIdle = False,
      itsCounted = False,
      hasTimedOut = False,
      itsQueryIsFast = False,
      itsAdminQuery = False,
      itsDumpRequests = dumpRequests,
      itsFinalStatus = Success\<rparr>"

definition construct_AsyncConnection ::
  "('q, 'p, 'h) spine \<Rightarrow> server \<Rightarrow> bool \<Rightarrow> bool \<Rightarrow> nat \<Rightarrow> nat \<Rightarrow> int \<Rightarrow> bool \<Rightarrow>
   ('q, 'p) async_connection" where
  "construct_AsyncConnection sp serverInstance sslEnabled canGzipResponse compressLimit maxRequestSize
     timeout dumpRequests =
     connection.extend
       (construct_Connection sp serverInstance sslEnabled canGzipResponse compressLimit maxRequestSize
          timeout dumpRequests)
       (async_connection.fields 0 0 False False False 0 False)"

text \<open>The call of \<^verbatim>\<open>create\<close> in \<^verbatim>\<open>startAccept\<close>, and the outside world of a new connection.\<close>

definition new_connection :: "('q, 'p, 'h) spine \<Rightarrow> server \<Rightarrow> ('q, 'p, 'h) conn" where
  "new_connection sp srv =
     async_connection.extend
       (construct_AsyncConnection sp srv (srv_encryptionEnabled srv) (srv_canGzip srv)
          (srv_compressLimit srv) (srv_maxRequestSize srv) (srv_timeout srv) (srv_dumpRequests srv))
       (conn.fields True False False False 0 [] [] [] [] False)"

lemma new_connection_eq:
  "new_connection sp srv =
     \<lparr>itsServer_set = True,
      itsEncryptionEnabled = srv_encryptionEnabled srv,
      itsTimerGeneration = 0,
      itsBuffer = [],
      itsRequest = new_Request sp,
      itsResponse = new_Response sp,
      itsReceivedBytes = 0,
      itsResponseString = [],
      itsPendingHeaders = [],
      itsCanGzipResponse = srv_canGzip srv,
      itsCompressLimit = srv_compressLimit srv,
      itsMaxRequestSize = srv_maxRequestSize srv,
      itsTimeout = srv_timeout srv,
      itsKeepAliveEnabled = isKeepAliveEnabled srv,
      itsKeepAliveTimeout = getKeepAliveTimeout srv,
      itsMaxKeepAliveRequests = getMaxKeepAliveRequests srv,
      itsMaxHeaderSize = getMaxHeaderSize srv,
      itsRequestCount = 0,
      itsKeepAlive = False,
      itsResponseVersion = ''1.0'',
      itsIdle = False,
      itsCounted = False,
      hasTimedOut = False,
      itsQueryIsFast = False,
      itsAdminQuery = False,
      itsDumpRequests = srv_dumpRequests srv,
      itsFinalStatus = Success,
      itsSentBytes = 0,
      itsTotalStreamedBytes = 0,
      itsBackendNotified = False,
      itsHeadRequest = False,
      itsExpectHandled = False,
      itsDeclaredContentLength = 0,
      itsPrematurelyDisconnected = False,
      socketOpen = True,
      tcpNoDelay = False,
      lockHeld = False,
      deadlocked = False,
      timerSeconds = 0,
      pending = [],
      wire = [],
      hooks = [],
      reports = [],
      destroyed = False\<rparr>"
  by (simp add: new_connection_def construct_AsyncConnection_def construct_Connection_def
      async_connection.defs conn.defs connection.defs)

text \<open>
  The connection counter is shared with the server, so \<open>registerConnection\<close> and the
  destructor take and return it.
\<close>

definition registerConnection ::
  "u64 \<times> ('q, 'p, 'h) conn \<Rightarrow> u64 \<times> ('q, 'p, 'h) conn" where
  "registerConnection cs = (case cs of (count, s) \<Rightarrow> (count + 1, s\<lparr>itsCounted := True\<rparr>))"

definition add_report ::
  "severity \<Rightarrow> ('q, 'p, 'h) spine \<Rightarrow> string \<Rightarrow> ('q, 'p, 'h) conn \<Rightarrow> ('q, 'p, 'h) conn" where
  "add_report sev sp message s =
     s\<lparr>reports := reports s @
         [\<lparr>rp_severity = sev, rp_message = message,
           rp_clientIP = rq_getClientIP sp (itsRequest s),
           rp_hostName = host_name sp (rq_getClientIP sp (itsRequest s)),
           rp_uri = rq_getURI sp (itsRequest s)\<rparr>]\<rparr>"

definition reportError ::
  "('q, 'p, 'h) spine \<Rightarrow> string \<Rightarrow> ('q, 'p, 'h) conn \<Rightarrow> ('q, 'p, 'h) conn" where
  "reportError = add_report Connection_error"

definition reportInfo ::
  "('q, 'p, 'h) spine \<Rightarrow> string \<Rightarrow> ('q, 'p, 'h) conn \<Rightarrow> ('q, 'p, 'h) conn" where
  "reportInfo = add_report Server_info"

definition closeSocket :: "('q, 'p, 'h) conn \<Rightarrow> ('q, 'p, 'h) conn" where
  "closeSocket s = s\<lparr>socketOpen := False\<rparr>"

text \<open>The destructors, derived class first.\<close>

definition destruct_AsyncConnection :: "('q, 'p, 'h) conn \<Rightarrow> ('q, 'p, 'h) conn" where
  "destruct_AsyncConnection s = (if \<not> hasTimedOut s then closeSocket s else s)"

definition destruct_Connection ::
  "('q, 'p, 'h) spine \<Rightarrow> bool \<Rightarrow> u64 \<times> ('q, 'p, 'h) conn \<Rightarrow> u64 \<times> ('q, 'p, 'h) conn" where
  "destruct_Connection sp shutdown_flag cs =
     (case cs of (count, s) \<Rightarrow>
        (if itsCounted s then count - 1 else count,
         (if \<not> shutdown_flag
          then s\<lparr>hooks := hooks s @
                   [Client_finished (rq_getClientIP sp (itsRequest s)) (itsFinalStatus s)]\<rparr>
          else s)\<lparr>destroyed := True, socketOpen := False\<rparr>))"

definition destroy ::
  "('q, 'p, 'h) spine \<Rightarrow> bool \<Rightarrow> u64 \<times> ('q, 'p, 'h) conn \<Rightarrow> u64 \<times> ('q, 'p, 'h) conn" where
  "destroy sp shutdown_flag cs =
     destruct_Connection sp shutdown_flag (fst cs, destruct_AsyncConnection (snd cs))"

subsection \<open>Starting operations\<close>

definition add_pending :: "'h pending \<Rightarrow> ('q, 'p, 'h) conn \<Rightarrow> ('q, 'p, 'h) conn" where
  "add_pending p s = s\<lparr>pending := p # pending s\<rparr>"

definition startRead :: "('q, 'p, 'h) conn \<Rightarrow> ('q, 'p, 'h) conn" where
  "startRead s = add_pending Pending_read s"

text \<open>A synchronous write. On a closed socket no byte leaves.\<close>

definition sync_write ::
  "error_code \<times> nat \<Rightarrow> string \<Rightarrow> ('q, 'p, 'h) conn \<Rightarrow> ('q, 'p, 'h) conn \<times> error_code" where
  "sync_write answer data s =
     (if socketOpen s then
        (s\<lparr>wire := wire s @ (if fst answer = Success then data else take (snd answer) data)\<rparr>,
         fst answer)
      else (s, if fst answer = Success \<and> data \<noteq> [] then Other_error 9 else fst answer))"

text \<open>
  \<open>armTimer\<close> runs under \<open>itsMutex\<close>, which is not recursive: taking it while it is held
  would block the thread for good, recorded as \<open>deadlocked\<close>.
\<close>

definition armTimer :: "int \<Rightarrow> ('q, 'p, 'h) conn \<Rightarrow> ('q, 'p, 'h) conn" where
  "armTimer theSeconds s =
     (if lockHeld s then s\<lparr>deadlocked := True\<rparr>
      else
        (let generation = itsTimerGeneration s + 1
         in add_pending (Pending_timer generation)
              (s\<lparr>itsTimerGeneration := generation, timerSeconds := theSeconds\<rparr>)))"

end
