(* ===== verification/Conn_Reply.thy ===== *)
theory Conn_Reply
  imports Connection
begin

text \<open>
  The part of \<^verbatim>\<open>source/AsyncConnection.cpp\<close> that ends a request/response cycle: the keep-alive
  negotiation, the headers the server adds to every response, the stock replies, the
  decision to reuse the connection, and the timer.
\<close>

subsection \<open>Keep-alive negotiation\<close>

definition evaluateKeepAlive ::
  "('q, 'p, 'h) spine \<Rightarrow> ('q, 'p, 'h) env \<Rightarrow> ('q, 'p, 'h) conn \<Rightarrow> bool" where
  "evaluateKeepAlive sp e s =
     (if \<not> itsKeepAliveEnabled s then False
      else if env_shutdown e then False
      else if itsMaxKeepAliveRequests s > 0 \<and> itsRequestCount s \<ge> itsMaxKeepAliveRequests s
      then False
      else
        (let connection = rq_getHeader sp (itsRequest s) ''Connection'' in
         if itsResponseVersion s = ''1.1'' then
           \<not> (case connection of None \<Rightarrow> False | Some c \<Rightarrow> hasHeaderToken sp c ''close'')
         else
           (case connection of
              Some c \<Rightarrow> hasHeaderToken sp c ''keep-alive''
            | None \<Rightarrow>
                (case rq_getHeader sp (itsRequest s) ''Proxy-Connection'' of
                   None \<Rightarrow> False | Some c \<Rightarrow> hasHeaderToken sp c ''keep-alive''))))"

subsection \<open>Response headers\<close>

definition set_header ::
  "('q, 'p, 'h) spine \<Rightarrow> string \<Rightarrow> string \<Rightarrow> ('q, 'p, 'h) conn \<Rightarrow> ('q, 'p, 'h) conn" where
  "set_header sp k v s = s\<lparr>itsResponse := rs_setHeader sp (itsResponse s) k v\<rparr>"

definition remove_header ::
  "('q, 'p, 'h) spine \<Rightarrow> string \<Rightarrow> ('q, 'p, 'h) conn \<Rightarrow> ('q, 'p, 'h) conn" where
  "remove_header sp k s = s\<lparr>itsResponse := rs_removeHeader sp (itsResponse s) k\<rparr>"

text \<open>The value of the informational Keep-Alive header of an HTTP/1.0 response.\<close>

definition keep_alive_value :: "('q, 'p, 'h) spine \<Rightarrow> ('q, 'p, 'h) conn \<Rightarrow> string" where
  "keep_alive_value sp s =
     ''timeout='' @ fmi_to_string sp (itsKeepAliveTimeout s) @
     (if itsMaxKeepAliveRequests s > 0
      then '', max='' @ fmi_to_string sp (uint (itsMaxKeepAliveRequests s - itsRequestCount s))
      else [])"

definition setConnectionHeaders ::
  "('q, 'p, 'h) spine \<Rightarrow> ('q, 'p, 'h) conn \<Rightarrow> ('q, 'p, 'h) conn" where
  "setConnectionHeaders sp s =
     (let s = (if rs_getChunked sp (itsResponse s) then
                 (if itsResponseVersion s \<noteq> ''1.1'' then s\<lparr>itsKeepAlive := False\<rparr> else s)
               else s\<lparr>itsResponse := rs_setVersion sp (itsResponse s) (itsResponseVersion s)\<rparr>);
          s = (case rs_getHeader sp (itsResponse s) ''Connection'' of
                 None \<Rightarrow> s
               | Some h \<Rightarrow> if hasHeaderToken sp h ''close'' then s\<lparr>itsKeepAlive := False\<rparr> else s)
      in if \<not> itsKeepAlive s then
           remove_header sp ''Keep-Alive'' (set_header sp ''Connection'' ''close'' s)
         else if itsResponseVersion s = ''1.1'' then
           remove_header sp ''Keep-Alive'' (remove_header sp ''Connection'' s)
         else
           (let s = set_header sp ''Connection'' ''keep-alive'' s
            in set_header sp ''Keep-Alive'' (keep_alive_value sp s) s))"

definition stale_directives :: "('q, 'p, 'h) spine \<Rightarrow> string" where
  "stale_directives sp =
     (if opt_staleWhileRevalidate sp > 0
      then '', stale-while-revalidate='' @ decimal (opt_staleWhileRevalidate sp) else []) @
     (if opt_staleIfError sp > 0
      then '', stale-if-error='' @ decimal (opt_staleIfError sp) else [])"

definition appendStaleDirectives ::
  "('q, 'p, 'h) spine \<Rightarrow> ('q, 'p, 'h) conn \<Rightarrow> ('q, 'p, 'h) conn" where
  "appendStaleDirectives sp s =
     (if opt_staleWhileRevalidate sp > 0 \<or> opt_staleIfError sp > 0 then
        (case rs_getHeader sp (itsResponse s) ''Cache-Control'' of
           None \<Rightarrow> s
         | Some cc \<Rightarrow>
             if contains cc ''max-age'' \<and> \<not> contains cc ''stale-''
             then set_header sp ''Cache-Control'' (cc @ stale_directives sp) s
             else s)
      else s)"

definition setServerHeaders ::
  "('q, 'p, 'h) spine \<Rightarrow> ('q, 'p, 'h) env \<Rightarrow> ('q, 'p, 'h) conn \<Rightarrow> ('q, 'p, 'h) conn" where
  "setServerHeaders sp e s =
     (let s = set_header sp ''Server'' (''SmartMet Server ('' @ env_build e @ '')'') s;
          s = (case rs_getHeader sp (itsResponse s) ''Vary'' of
                 None \<Rightarrow> set_header sp ''Vary'' ''Accept-Encoding'' s
               | Some vary \<Rightarrow>
                   if vary = [] then set_header sp ''Vary'' ''Accept-Encoding'' s
                   else if \<not> icontains sp vary ''Accept-Encoding''
                   then set_header sp ''Vary'' (vary @ '', Accept-Encoding'') s
                   else s);
          s = set_header sp ''Date'' (makeDateString (env_clock e)) s;
          s = setConnectionHeaders sp s
      in appendStaleDirectives sp s)"

subsection \<open>Ending a response\<close>

definition finishResponse ::
  "('q, 'p, 'h) spine \<Rightarrow> ('q, 'p, 'h) env \<Rightarrow> ('q, 'p, 'h) conn \<Rightarrow> ('q, 'p, 'h) conn" where
  "finishResponse sp e s =
     (if \<not> itsKeepAlive s \<or> hasTimedOut s \<or> env_shutdown e then s
      else
        (let clientIP = rq_getClientIP sp (itsRequest s);
             s = s\<lparr>itsSentBytes := 0,
                   itsTotalStreamedBytes := 0,
                   itsDeclaredContentLength := 0,
                   itsResponseString := [],
                   itsRequest := rq_setClientIP sp (new_Request sp) clientIP,
                   itsResponse := new_Response sp,
                   itsResponseVersion := ''1.0'',
                   itsQueryIsFast := False,
                   itsAdminQuery := False,
                   itsKeepAlive := False,
                   itsExpectHandled := False,
                   itsHeadRequest := False,
                   itsBackendNotified := False\<rparr>;
             pipelined = (itsBuffer s \<noteq> []);
             s = s\<lparr>itsIdle := \<not> pipelined\<rparr>;
             s = armTimer (if pipelined then itsTimeout s else itsKeepAliveTimeout s) s
         in if pipelined then add_pending Pending_posted s else startRead s))"

definition sendSimpleReply ::
  "('q, 'p, 'h) spine \<Rightarrow> ('q, 'p, 'h) env \<Rightarrow> ('q, 'p, 'h) conn \<Rightarrow> ('q, 'p, 'h) conn" where
  "sendSimpleReply sp e s =
     (case rs_headersToBuffer sp (itsResponse s) of
        None \<Rightarrow> s
      | Some headerbuffer \<Rightarrow>
          (let contentbuffer = rs_contentToBuffer sp (itsResponse s);
               (s, err) = sync_write (env_headerWrite e) headerbuffer s;
               (s, err) = sync_write (env_contentWrite e) contentbuffer s;
               s = s\<lparr>itsFinalStatus := err\<rparr>;
               s = (if err \<noteq> Success then s\<lparr>itsKeepAlive := False\<rparr> else s)
           in if itsKeepAlive s then finishResponse sp e s else closeSocket s))"

definition sendStockReply ::
  "('q, 'p, 'h) spine \<Rightarrow> ('q, 'p, 'h) env \<Rightarrow> status \<Rightarrow> ('q, 'p, 'h) conn \<Rightarrow> ('q, 'p, 'h) conn" where
  "sendStockReply sp e theStatus s =
     (let s = s\<lparr>itsResponse := rs_setStatus sp (itsResponse s) theStatus True\<rparr>;
          s = set_header sp ''Content-Length''
                (decimal (rs_getContentLength sp (itsResponse s))) s;
          s = setServerHeaders sp e s
      in sendSimpleReply sp e s)"

definition rejectConnection ::
  "('q, 'p, 'h) spine \<Rightarrow> ('q, 'p, 'h) env \<Rightarrow> ('q, 'p, 'h) conn \<Rightarrow> ('q, 'p, 'h) conn" where
  "rejectConnection sp e s =
     sendStockReply sp e service_unavailable
       (s\<lparr>itsKeepAlive := False, itsResponseVersion := ''1.0''\<rparr>)"

subsection \<open>The timer\<close>

definition handleTimer ::
  "('q, 'p, 'h) spine \<Rightarrow> ('q, 'p, 'h) env \<Rightarrow> error_code \<Rightarrow> u64 \<Rightarrow> ('q, 'p, 'h) conn \<Rightarrow>
   ('q, 'p, 'h) conn" where
  "handleTimer sp e err theGeneration s =
     (if lockHeld s then s\<lparr>deadlocked := True\<rparr>
      else
        (let s = s\<lparr>lockHeld := True\<rparr>;
             s = (if err = Operation_aborted then s
                  else if theGeneration \<noteq> itsTimerGeneration s then s
                  else
                    (let s = s\<lparr>hasTimedOut := True\<rparr> in
                     if itsIdle s then closeSocket s
                     else sendStockReply sp e request_timeout (s\<lparr>itsKeepAlive := False\<rparr>)))
         in s\<lparr>lockHeld := False\<rparr>))"

text \<open>The generation bump with which \<open>handleCompletedRead\<close> cancels the timer.\<close>

definition cancelTimer :: "('q, 'p, 'h) conn \<Rightarrow> ('q, 'p, 'h) conn" where
  "cancelTimer s =
     (if lockHeld s then s\<lparr>deadlocked := True\<rparr>
      else s\<lparr>itsTimerGeneration := itsTimerGeneration s + 1\<rparr>)"

subsection \<open>Start\<close>

definition start ::
  "('q, 'p, 'h) env \<Rightarrow> u64 \<times> ('q, 'p, 'h) conn \<Rightarrow> u64 \<times> ('q, 'p, 'h) conn" where
  "start e cs =
     (let (count, s) = registerConnection cs;
          s = (if env_noDelay e = Success then s\<lparr>tcpNoDelay := True\<rparr> else s);
          s = armTimer (itsTimeout s) s
      in (count,
          if itsEncryptionEnabled s then add_pending Pending_handshake s else startRead s))"

definition handleHandshake :: "error_code \<Rightarrow> ('q, 'p, 'h) conn \<Rightarrow> ('q, 'p, 'h) conn" where
  "handleHandshake err s = (if err = Success then startRead s else closeSocket s)"

end
