(* ===== verification/Conn_Stream.thy ===== *)
theory Conn_Stream
  imports Conn_Reply
begin

text \<open>
  The part of \<^verbatim>\<open>source/AsyncConnection.cpp\<close> that writes a response: the four write handlers,
  which send what is left of \<open>itsResponseString\<close> until nothing is, the two loops that take
  chunks from a stream, the functions that start a reply, and the reports to the access log
  and to the backend hooks at its end.

  An asynchronous \<^verbatim>\<open>write_some\<close> is the pending operation \<open>Pending_write w off\<close>, where \<open>off\<close>
  is the offset of the buffer it was given; \<open>written\<close> is its effect on the wire.
\<close>

subsection \<open>Reports at the end of a response\<close>

definition notifyBackendFinished ::
  "('q, 'p, 'h) spine \<Rightarrow> streamer_status \<Rightarrow> ('q, 'p, 'h) conn \<Rightarrow> ('q, 'p, 'h) conn" where
  "notifyBackendFinished sp theStatus s =
     (if itsBackendNotified s \<or> rs_originatingBackend sp (itsResponse s) = [] then s
      else s\<lparr>itsBackendNotified := True,
             hooks := hooks s @
               [Backend_finished (rs_originatingBackend sp (itsResponse s))
                  (rs_backendPort sp (itsResponse s)) theStatus]\<rparr>)"

definition finalizeStreamLogging ::
  "('q, 'p, 'h) spine \<Rightarrow> ('q, 'p, 'h) conn \<Rightarrow> ('q, 'p, 'h) conn" where
  "finalizeStreamLogging sp s =
     (case rs_runStreamCompletionHandler sp (itsResponse s) (itsTotalStreamedBytes s) of
        (logged, response) \<Rightarrow>
          s\<lparr>itsResponse := response,
            hooks := (if logged then hooks s @ [Stream_logged (itsTotalStreamedBytes s)]
                      else hooks s)\<rparr>)"

subsection \<open>The pending header section\<close>

text \<open>\<open>False\<close>: the second \<^verbatim>\<open>headersToString\<close> throws as well.\<close>

definition preparePendingHeaders ::
  "('q, 'p, 'h) spine \<Rightarrow> ('q, 'p, 'h) conn \<Rightarrow> bool \<times> ('q, 'p, 'h) conn" where
  "preparePendingHeaders sp s =
     (case rs_headersToString sp (itsResponse s) of
        Some headers \<Rightarrow> (True, s\<lparr>itsPendingHeaders := headers\<rparr>)
      | None \<Rightarrow>
          (let s = reportInfo sp ''Response status not set, defaulting to 501 Not Implemented'' s;
               s = s\<lparr>itsResponse := rs_setStatus sp (itsResponse s) not_implemented True\<rparr>
           in case rs_headersToString sp (itsResponse s) of
                Some headers \<Rightarrow> (True, s\<lparr>itsPendingHeaders := headers\<rparr>)
              | None \<Rightarrow> (False, s)))"

definition flushPendingHeaders ::
  "('q, 'p, 'h) spine \<Rightarrow> ('q, 'p, 'h) env \<Rightarrow> ('q, 'p, 'h) conn \<Rightarrow> bool \<times> ('q, 'p, 'h) conn" where
  "flushPendingHeaders sp e s =
     (if itsPendingHeaders s = [] then (True, s)
      else
        (let (s, err) = sync_write (env_flushWrite e) (itsPendingHeaders s) s;
             s = s\<lparr>itsPendingHeaders := []\<rparr>
         in if err \<noteq> Success then
              (False,
               (reportInfo sp
                  (''Unable to send stream response headers to '' @ rq_getClientIP sp (itsRequest s) @
                   ''. Reason: '' @ ec_message sp err) s)\<lparr>itsFinalStatus := err\<rparr>)
            else (True, s)))"

subsection \<open>Asking a pool for the next chunk\<close>

definition request_pool :: "('q, 'p, 'h) conn \<Rightarrow> pool" where
  "request_pool s =
     (if itsAdminQuery s then Admin_pool
      else if itsQueryIsFast s then Fast_pool
      else Slow_pool)"

definition scheduleChunkGetter ::
  "('q, 'p, 'h) spine \<Rightarrow> ('q, 'p, 'h) env \<Rightarrow> ('q, 'p, 'h) conn \<Rightarrow> ('q, 'p, 'h) conn" where
  "scheduleChunkGetter sp e s =
     (let scheduled = env_schedule e (request_pool s) in
      if scheduled then add_pending (Pending_job (request_pool s) Next_chunk) s
      else
        reportInfo sp ''Request queue was full, aborting chunked transfer''
          (sendStockReply sp e service_unavailable (s\<lparr>itsKeepAlive := False\<rparr>)))"

definition scheduleChunkedChunkGetter ::
  "('q, 'p, 'h) spine \<Rightarrow> ('q, 'p, 'h) env \<Rightarrow> ('q, 'p, 'h) conn \<Rightarrow> ('q, 'p, 'h) conn" where
  "scheduleChunkedChunkGetter sp e s =
     (let scheduled = env_schedule e (request_pool s) in
      if scheduled then add_pending (Pending_job (request_pool s) Next_chunked_chunk) s
      else
        reportInfo sp ''Request queue was full, aborting chunked transfer''
          (sendStockReply sp e service_unavailable (s\<lparr>itsKeepAlive := False\<rparr>)))"

subsection \<open>The write handlers\<close>

definition async_write_some :: "writer \<Rightarrow> nat \<Rightarrow> ('q, 'p, 'h) conn \<Rightarrow> ('q, 'p, 'h) conn" where
  "async_write_some w off s = add_pending (Pending_write w off) s"

text \<open>A write of \<open>n\<close> bytes completes: they are on the wire, and the operation is over.\<close>

definition written :: "writer \<Rightarrow> nat \<Rightarrow> nat \<Rightarrow> ('q, 'p, 'h) conn \<Rightarrow> ('q, 'p, 'h) conn" where
  "written w off n s =
     s\<lparr>pending := remove1 (Pending_write w off) (pending s),
       wire := wire s @ take n (drop off (itsResponseString s))\<rparr>"

definition writeStreamReply ::
  "('q, 'p, 'h) spine \<Rightarrow> ('q, 'p, 'h) env \<Rightarrow> error_code \<Rightarrow> nat \<Rightarrow> ('q, 'p, 'h) conn \<Rightarrow>
   ('q, 'p, 'h) conn" where
  "writeStreamReply sp e err bytes_transferred s =
     (let s = s\<lparr>itsFinalStatus := err\<rparr> in
      if err = Success then
        (let s = s\<lparr>itsSentBytes := itsSentBytes s + bytes_transferred\<rparr> in
         if itsSentBytes s < length (itsResponseString s)
         then async_write_some Stream_writer (itsSentBytes s) s
         else scheduleChunkGetter sp e s)
      else
        (let s = s\<lparr>itsKeepAlive := False\<rparr>;
             s = sendStockReply sp e service_unavailable s;
             s = reportInfo sp (''Error in stream reply send to '' @ rq_getClientIP sp (itsRequest s) @
                   ''. Reason: '' @ ec_message sp err) s;
             s = finalizeStreamLogging sp s
         in notifyBackendFinished sp (rs_getStreamingStatus sp (itsResponse s)) s))"

definition writeChunkedReply ::
  "('q, 'p, 'h) spine \<Rightarrow> ('q, 'p, 'h) env \<Rightarrow> error_code \<Rightarrow> nat \<Rightarrow> ('q, 'p, 'h) conn \<Rightarrow>
   ('q, 'p, 'h) conn" where
  "writeChunkedReply sp e err bytes_transferred s =
     (let s = s\<lparr>itsFinalStatus := err\<rparr> in
      if err = Success then
        (let s = s\<lparr>itsSentBytes := itsSentBytes s + bytes_transferred\<rparr> in
         if itsSentBytes s < length (itsResponseString s)
         then async_write_some Chunked_writer (itsSentBytes s) s
         else scheduleChunkedChunkGetter sp e s)
      else
        (let s = s\<lparr>itsKeepAlive := False\<rparr>;
             s = sendStockReply sp e service_unavailable s;
             s = reportInfo sp (''Error in chunked reply send to '' @ rq_getClientIP sp (itsRequest s) @
                   ''. Reason: '' @ ec_message sp err @ ''. Code: '' @
                   fmi_to_string sp (ec_value sp err)) s;
             s = finalizeStreamLogging sp s
         in notifyBackendFinished sp (rs_getStreamingStatus sp (itsResponse s)) s))"

definition finalizeChunkedReply ::
  "('q, 'p, 'h) spine \<Rightarrow> ('q, 'p, 'h) env \<Rightarrow> error_code \<Rightarrow> nat \<Rightarrow> ('q, 'p, 'h) conn \<Rightarrow>
   ('q, 'p, 'h) conn" where
  "finalizeChunkedReply sp e err bytes_transferred s =
     (let s = s\<lparr>itsFinalStatus := err\<rparr> in
      if err = Success then
        (let s = s\<lparr>itsSentBytes := itsSentBytes s + bytes_transferred\<rparr> in
         if itsSentBytes s < length (itsResponseString s)
         then async_write_some Final_writer (itsSentBytes s) s
         else finishResponse sp e (finalizeStreamLogging sp s))
      else
        (let s = s\<lparr>itsKeepAlive := False\<rparr>;
             s = sendStockReply sp e service_unavailable s;
             s = reportInfo sp (''Error in finalizing chunked reply send to '' @
                   rq_getClientIP sp (itsRequest s) @ ''. Reason: '' @ ec_message sp err @
                   ''. Code: '' @ fmi_to_string sp (ec_value sp err)) s
         in finalizeStreamLogging sp s))"

definition writeRegularReply ::
  "('q, 'p, 'h) spine \<Rightarrow> ('q, 'p, 'h) env \<Rightarrow> error_code \<Rightarrow> nat \<Rightarrow> ('q, 'p, 'h) conn \<Rightarrow>
   ('q, 'p, 'h) conn" where
  "writeRegularReply sp e err bytes_transferred s =
     (let s = s\<lparr>itsFinalStatus := err\<rparr> in
      if err = Success then
        (let s = s\<lparr>itsSentBytes := itsSentBytes s + bytes_transferred\<rparr> in
         if itsSentBytes s < length (itsResponseString s)
         then async_write_some Regular_writer (itsSentBytes s) s
         else finishResponse sp e (notifyBackendFinished sp Stream_EXIT_OK s))
      else
        (let s = s\<lparr>itsKeepAlive := False\<rparr>;
             s = sendStockReply sp e service_unavailable s
         in reportInfo sp (''Error in reply send to '' @ rq_getClientIP sp (itsRequest s) @
              ''. Reason: '' @ ec_message sp err) s))"

subsection \<open>Taking chunks from the stream\<close>

definition getNextChunk ::
  "('q, 'p, 'h) spine \<Rightarrow> ('q, 'p, 'h) env \<Rightarrow> ('q, 'p, 'h) conn \<Rightarrow> ('q, 'p, 'h) conn" where
  "getNextChunk sp e s =
     (let streamStatus = rs_getStreamingStatus sp (itsResponse s) in
      if streamStatus = Stream_OK then
        (let (contentstring, response) = rs_getContent sp (itsResponse s);
             s = s\<lparr>itsResponse := response\<rparr>
         in if contentstring \<noteq> [] then
              (let s = s\<lparr>itsTotalStreamedBytes := itsTotalStreamedBytes s + length contentstring,
                         itsResponseString := itsPendingHeaders s @ contentstring,
                         itsPendingHeaders := [],
                         itsSentBytes := 0\<rparr>
               in async_write_some Stream_writer 0 s)
            else
              (let (flushed, s) = flushPendingHeaders sp e s in
               if \<not> flushed then s else scheduleChunkGetter sp e s))
      else
        (let (flushed, s) = flushPendingHeaders sp e s in
         if \<not> flushed then s
         else
           (let s = finalizeStreamLogging sp s;
                s = notifyBackendFinished sp streamStatus s;
                s = (if itsKeepAlive s \<and> itsTotalStreamedBytes s \<noteq> itsDeclaredContentLength s then
                       (reportInfo sp (''Streamed response delivered '' @
                          fmi_to_string sp (int (itsTotalStreamedBytes s)) @
                          '' bytes instead of the announced '' @
                          fmi_to_string sp (int (itsDeclaredContentLength s)) @
                          '', closing the connection'') s)\<lparr>itsKeepAlive := False\<rparr>
                     else s)
            in finishResponse sp e s)))"

definition chunk_frame :: "('q, 'p, 'h) spine \<Rightarrow> string \<Rightarrow> string" where
  "chunk_frame sp c = convertToHex sp (length c) @ crlf @ c @ crlf"

definition last_chunk :: string where
  "last_chunk = CHR ''0'' # crlf @ crlf"

definition getNextChunkedChunk ::
  "('q, 'p, 'h) spine \<Rightarrow> ('q, 'p, 'h) env \<Rightarrow> ('q, 'p, 'h) conn \<Rightarrow> ('q, 'p, 'h) conn" where
  "getNextChunkedChunk sp e s =
     (let streamStatus = rs_getStreamingStatus sp (itsResponse s) in
      if streamStatus = Stream_OK then
        (let (contentstring, response) = rs_getContent sp (itsResponse s);
             s = s\<lparr>itsResponse := response\<rparr>
         in if contentstring \<noteq> [] then
              (let s = s\<lparr>itsTotalStreamedBytes := itsTotalStreamedBytes s + length contentstring,
                         itsResponseString := itsPendingHeaders s @ chunk_frame sp contentstring,
                         itsPendingHeaders := [],
                         itsSentBytes := 0\<rparr>
               in async_write_some Chunked_writer 0 s)
            else
              (let (flushed, s) = flushPendingHeaders sp e s in
               if \<not> flushed then s else scheduleChunkedChunkGetter sp e s))
      else
        (let s = notifyBackendFinished sp streamStatus s in
         if streamStatus \<noteq> Stream_EXIT_OK then
           (let s = snd (flushPendingHeaders sp e s);
                s = finalizeStreamLogging sp s;
                s = reportInfo sp
                      ''Chunked response stream failed mid-body, closing the connection unterminated'' s;
                s = s\<lparr>itsKeepAlive := False\<rparr>
            in closeSocket s)
         else
           (let s = s\<lparr>itsResponseString := itsPendingHeaders s @ last_chunk,
                      itsPendingHeaders := [],
                      itsSentBytes := 0\<rparr>
            in async_write_some Final_writer 0 s)))"

subsection \<open>Starting a reply\<close>

definition startGatewayReply ::
  "('q, 'p, 'h) spine \<Rightarrow> ('q, 'p, 'h) env \<Rightarrow> ('q, 'p, 'h) conn \<Rightarrow> ('q, 'p, 'h) conn" where
  "startGatewayReply sp e s = getNextChunk sp e (s\<lparr>itsKeepAlive := False\<rparr>)"

definition startChunkedReply ::
  "('q, 'p, 'h) spine \<Rightarrow> ('q, 'p, 'h) env \<Rightarrow> ('q, 'p, 'h) conn \<Rightarrow> ('q, 'p, 'h) conn" where
  "startChunkedReply sp e s =
     (let s = set_header sp ''Transfer-Encoding'' ''chunked'' s;
          s = remove_header sp ''Content-Length'' s;
          (returns, s) = preparePendingHeaders sp s
      in if \<not> returns then s else getNextChunkedChunk sp e s)"

definition startStreamReply ::
  "('q, 'p, 'h) spine \<Rightarrow> ('q, 'p, 'h) env \<Rightarrow> ('q, 'p, 'h) conn \<Rightarrow> ('q, 'p, 'h) conn" where
  "startStreamReply sp e s =
     (let s = s\<lparr>itsDeclaredContentLength := rs_getContentLength sp (itsResponse s)\<rparr>;
          s = set_header sp ''Content-Length'' (decimal (itsDeclaredContentLength s)) s;
          (returns, s) = preparePendingHeaders sp s
      in if \<not> returns then s else getNextChunk sp e s)"

definition statusHasNoBody :: "status \<Rightarrow> bool" where
  "statusHasNoBody status = (status \<ge> 100 \<and> status < 200 \<or> status = 204 \<or> status = 304)"

text \<open>
  The three parts of \<open>startRegularReply\<close>: the content coding and the entity tag of the
  response, its framing headers, and the write of headers and body.
\<close>

definition encode_response ::
  "('q, 'p, 'h) spine \<Rightarrow> ('q, 'p, 'h) conn \<Rightarrow> ('q, 'p, 'h) conn" where
  "encode_response sp s =
     (let streamed = rs_hasStreamContent sp (itsResponse s);
          s = (if itsCanGzipResponse s \<and> \<not> streamed then
                 (let encoding = select_content_encoding sp (itsRequest s) (itsResponse s)
                        (itsCompressLimit s) (opt_contentCodings sp)
                  in if encoding \<noteq> []
                     then s\<lparr>itsResponse := compress_response sp (itsResponse s) encoding\<rparr> else s)
               else s)
      in if rs_getStatus sp (itsResponse s) = not_modified then
           (case rs_getHeader sp (itsResponse s) ''ETag'' of
              None \<Rightarrow> s
            | Some etag \<Rightarrow>
                set_header sp ''ETag'' (notModifiedETag sp (itsRequest s) etag) s)
         else s)"

definition frame_response ::
  "('q, 'p, 'h) spine \<Rightarrow> ('q, 'p, 'h) conn \<Rightarrow> ('q, 'p, 'h) conn" where
  "frame_response sp s =
     (if statusHasNoBody (rs_getStatus sp (itsResponse s)) then
        remove_header sp ''Transfer-Encoding''
          (remove_header sp ''Content-Length''
            (s\<lparr>itsResponse := rs_setContent sp (itsResponse s) []\<rparr>))
      else if itsHeadRequest s \<and> rs_getChunked sp (itsResponse s) then
        remove_header sp ''Transfer-Encoding'' (remove_header sp ''Content-Length'' s)
      else
        set_header sp ''Content-Length'' (decimal (rs_getContentLength sp (itsResponse s))) s)"

definition startRegularReply ::
  "('q, 'p, 'h) spine \<Rightarrow> ('q, 'p, 'h) env \<Rightarrow> ('q, 'p, 'h) conn \<Rightarrow> ('q, 'p, 'h) conn" where
  "startRegularReply sp e s =
     (let s = encode_response sp s;
          s = frame_response sp s;
          (s, headers) =
            (case rs_headersToString sp (itsResponse s) of
               Some headers \<Rightarrow> (s, Some headers)
             | None \<Rightarrow>
                 (let s = reportInfo sp
                        ''Response status not set, defaulting to 501 Not Implemented'' s;
                      s = s\<lparr>itsResponse := rs_setStatus sp (itsResponse s) not_implemented True\<rparr>
                  in (s, rs_headersToString sp (itsResponse s))))
      in case headers of
           None \<Rightarrow> s
         | Some headers \<Rightarrow>
             (let s = (if itsHeadRequest s then s\<lparr>itsResponseString := headers\<rparr>
                       else
                         (let (content, response) = rs_getContent sp (itsResponse s)
                          in s\<lparr>itsResponse := response, itsResponseString := headers @ content\<rparr>))
              in async_write_some Regular_writer 0 s))"

end
