(* ===== verification/Conn_Request.thy ===== *)
theory Conn_Request
  imports Conn_Stream
begin

text \<open>
  The part of \<^verbatim>\<open>source/AsyncConnection.cpp\<close> from the first byte of a request to the call of
  its handler: reading, the limits on a request that is not complete, \<^verbatim>\<open>Expect\<close>, the checks
  on a parsed request, the choice of the thread pool, and \<open>handleCompletedRead\<close>, which runs
  in that pool.
\<close>

subsection \<open>Watching the socket\<close>

definition POLLERR :: "16 word" where "POLLERR = 0x8"
definition POLLHUP :: "16 word" where "POLLHUP = 0x10"
definition POLLNVAL :: "16 word" where "POLLNVAL = 0x20"
definition POLLRDHUP :: "16 word" where "POLLRDHUP = 0x2000"

text \<open>The answer of \<^verbatim>\<open>poll\<close>: its return value and the returned events.\<close>

definition clientHasDisconnected :: "int \<times> 16 word \<Rightarrow> bool" where
  "clientHasDisconnected answer =
     (if fst answer \<le> 0 then False
      else and (snd answer) (or (or (or POLLRDHUP POLLHUP) POLLERR) POLLNVAL) \<noteq> 0)"

text \<open>
  The token of a request: its deadline in seconds from now, and whether the probe for a
  closed connection is set.
\<close>

definition createCancellationToken ::
  "('q, 'p, 'h) spine \<Rightarrow> server \<Rightarrow> 'h \<Rightarrow> ('q, 'p, 'h) conn \<Rightarrow> cancellation_token" where
  "createCancellationToken sp srv theHandlerView s =
     (let deadline =
        (if \<not> itsAdminQuery s \<and> \<not> hv_isCatchNoMatch sp theHandlerView then
           (let timeout = getRequestTimeout sp srv (hv_getPluginName sp theHandlerView)
            in if timeout > 0 then Some timeout else None)
         else None)
      in if \<not> getCancelOnDisconnect sp srv (hv_getPluginName sp theHandlerView)
         then \<lparr>ct_deadline = deadline, ct_probe = False\<rparr>
         else \<lparr>ct_deadline = deadline, ct_probe = True\<rparr>)"

definition notifyClientDisconnect ::
  "error_code \<Rightarrow> ('q, 'p, 'h) conn \<Rightarrow> ('q, 'p, 'h) conn" where
  "notifyClientDisconnect err s =
     (if err \<noteq> Success then
        (if err = Operation_aborted then s else s\<lparr>itsPrematurelyDisconnected := True\<rparr>)
      else add_pending Pending_disconnect_read s)"

subsection \<open>A request that is not complete\<close>

definition continueReply :: string where
  "continueReply = ''HTTP/1.1 100 Continue'' @ crlf @ crlf"

definition handleExpectContinue ::
  "('q, 'p, 'h) spine \<Rightarrow> ('q, 'p, 'h) env \<Rightarrow> ('q, 'p, 'h) conn \<Rightarrow> bool \<times> ('q, 'p, 'h) conn" where
  "handleExpectContinue sp e s =
     (if itsExpectHandled s then (True, s)
      else
        (let head = peekRequestHead sp (itsBuffer s) in
         if \<not> head_complete head then (True, s)
         else
           (let s = s\<lparr>itsExpectHandled := True\<rparr> in
            if head_expect head = [] then (True, s)
            else if negotiateVersion sp (head_version head) \<noteq> ''1.1'' then (True, s)
            else if hasHeaderToken sp (head_expect head) ''100-continue'' then
              (let (s, err) = sync_write (env_expectWrite e) continueReply s
               in if err \<noteq> Success
                  then (False, s\<lparr>itsFinalStatus := err, itsKeepAlive := False\<rparr>)
                  else (True, s))
            else
              (let s = reportInfo sp (''Unsupported expectation '' @ [CHR 0x27] @ head_expect head @
                         [CHR 0x27] @ '', rejecting the request'') s;
                   s = s\<lparr>itsKeepAlive := False\<rparr>
               in (False, sendStockReply sp e expectation_failed s)))))"

definition handleIncompleteRequest ::
  "('q, 'p, 'h) spine \<Rightarrow> ('q, 'p, 'h) env \<Rightarrow> ('q, 'p, 'h) conn \<Rightarrow> ('q, 'p, 'h) conn" where
  "handleIncompleteRequest sp e s =
     (if itsMaxHeaderSize s > 0 \<and> length (itsBuffer s) > itsMaxHeaderSize s \<and>
         find_str (itsBuffer s) (crlf @ crlf) 0 = None then
        (let s = reportError sp ''431 Request header fields too large'' s;
             s = s\<lparr>itsKeepAlive := False\<rparr>
         in sendStockReply sp e request_header_fields_too_large s)
      else
        (let (again, s) = handleExpectContinue sp e s in if again then startRead s else s))"

definition handleReadError ::
  "('q, 'p, 'h) spine \<Rightarrow> error_code \<Rightarrow> ('q, 'p, 'h) conn \<Rightarrow> ('q, 'p, 'h) conn" where
  "handleReadError sp err s =
     (if err = Eof then s
      else if itsIdle s then s
      else if err = Operation_aborted then reportInfo sp ''Connection timeout'' s
      else reportInfo sp (''Error occurred while reading socket: '' @ ec_message sp err) s)"

subsection \<open>A parsed request\<close>

text \<open>The caught exception is replaced by one whose text is \<open>Operation failed!\<close>.\<close>

definition resolveClientIP ::
  "('q, 'p, 'h) spine \<Rightarrow> ('q, 'p, 'h) env \<Rightarrow> server \<Rightarrow> ('q, 'p, 'h) conn \<Rightarrow>
   bool \<times> ('q, 'p, 'h) conn" where
  "resolveClientIP sp e srv s =
     (case env_remoteIP e of
        None \<Rightarrow>
          (False, reportError sp (''Failed to obtain remote endpoint IP address:'' @ [CHR 0x0A] @
                    ''Operation failed!'') s)
      | Some peerIP \<Rightarrow>
          (True,
           if itsServer_set s then
             s\<lparr>itsRequest := rq_setClientIP sp (itsRequest s)
                 (resolveClientIP_filter sp peerIP
                    (rq_getHeader sp (itsRequest s) ''X-Forwarded-For'') (getTrustedProxies srv))\<rparr>
           else s\<lparr>itsRequest := rq_setClientIP sp (itsRequest s) peerIP\<rparr>))"

definition hopByHop :: "string list" where
  "hopByHop = [''Connection'', ''Keep-Alive'', ''Proxy-Connection'', ''Proxy-Authenticate'',
               ''Proxy-Authorization'', ''TE'', ''Trailer'']"

function listed_names :: "string \<Rightarrow> nat \<Rightarrow> string list" where
  "listed_names connection pos =
     (if pos \<le> length connection then
        (let e = element_end connection pos in
         (case trimmed_field connection pos e of None \<Rightarrow> [] | Some name \<Rightarrow> [name]) @
         listed_names connection (e + 1))
      else [])"
  by pat_completeness auto
termination
  by (relation "measure (\<lambda>(connection, pos). Suc (length connection) - pos)")
    (auto dest: element_end_bounds)

declare listed_names.simps [simp del]

definition stripHopByHopHeaders ::
  "('q, 'p, 'h) spine \<Rightarrow> ('q, 'p, 'h) conn \<Rightarrow> ('q, 'p, 'h) conn" where
  "stripHopByHopHeaders sp s =
     (let listed = (case rq_getHeader sp (itsRequest s) ''Connection'' of
                      None \<Rightarrow> [] | Some connection \<Rightarrow> listed_names connection 0);
          request = fold (\<lambda>name q. rq_removeHeader sp q name) hopByHop (itsRequest s);
          request = fold (\<lambda>name q. rq_removeHeader sp q name) listed request
      in s\<lparr>itsRequest := request\<rparr>)"

definition scheduleRequest ::
  "('q, 'p, 'h) spine \<Rightarrow> ('q, 'p, 'h) env \<Rightarrow> 'h \<Rightarrow> ('q, 'p, 'h) conn \<Rightarrow> ('q, 'p, 'h) conn" where
  "scheduleRequest sp e handlerView s =
     (if hv_isCatchNoMatch sp handlerView then
        (let s = s\<lparr>itsQueryIsFast := True, itsAdminQuery := False\<rparr> in
         if env_schedule e Fast_pool
         then add_pending (Pending_job Fast_pool (Handle_request handlerView)) s
         else reportInfo sp ''Frontend request queue was full''
                (sendStockReply sp e service_unavailable s))
      else
        (let s = s\<lparr>itsQueryIsFast :=
                     (env_slowPoolSize e = 0 \<or> hv_queryIsFast sp handlerView (itsRequest s))\<rparr>;
             pool = (if itsAdminQuery s then Admin_pool
                     else if itsQueryIsFast s then Fast_pool
                     else Slow_pool)
         in if env_schedule e pool
            then add_pending (Pending_job pool (Handle_request handlerView)) s
            else reportInfo sp ''Backend request queue was full, returning high load notification''
                   (sendStockReply sp e (st_high_load sp) s)))"

text \<open>The request handed to the handlers: HEAD becomes GET, and the header that says so is the
  server's own.\<close>

definition originalMethod :: string where
  "originalMethod = ''X-SmartMet-Original-Method''"

definition take_head_method ::
  "('q, 'p, 'h) spine \<Rightarrow> ('q, 'p, 'h) conn \<Rightarrow> ('q, 'p, 'h) conn" where
  "take_head_method sp s =
     (let request = rq_removeHeader sp (itsRequest s) originalMethod;
          head = (rq_getMethod sp request = HEAD);
          request = (if head
                     then rq_setHeader sp (rq_setMethod sp request GET) originalMethod ''HEAD''
                     else request)
      in s\<lparr>itsRequest := request, itsHeadRequest := head\<rparr>)"

text \<open>The end of \<open>handleParsedRequest\<close>: where a request that is well formed goes.\<close>

definition route_request ::
  "('q, 'p, 'h) spine \<Rightarrow> ('q, 'p, 'h) env \<Rightarrow> ('q, 'p, 'h) conn \<Rightarrow> ('q, 'p, 'h) conn" where
  "route_request sp e s =
     (if rq_getMethodString sp (itsRequest s) = ''OPTIONS'' \<and>
         rq_getResource sp (itsRequest s) = ''*'' then
        (let s = s\<lparr>itsResponse := stockOptionsResponse sp\<rparr>;
             s = setServerHeaders sp e s
         in sendSimpleReply sp e s)
      else
        (case getHandlerView sp (itsRequest s) of
           None \<Rightarrow> sendStockReply sp e not_found s
         | Some handlerView \<Rightarrow>
             (let s = s\<lparr>itsAdminQuery :=
                    (\<not> hv_isCatchNoMatch sp handlerView \<and>
                     hv_isAdminQuery sp handlerView (itsRequest s) \<and>
                     env_adminPoolSize e > 0)\<rparr>
              in if \<not> itsAdminQuery s \<and> env_loadHigh e
                 then sendStockReply sp e (st_high_load sp) s
                 else scheduleRequest sp e handlerView s)))"

text \<open>Its beginning: the request is counted, and version and keep-alive are negotiated.\<close>

definition negotiate ::
  "('q, 'p, 'h) spine \<Rightarrow> ('q, 'p, 'h) env \<Rightarrow> ('q, 'p, 'h) conn \<Rightarrow> ('q, 'p, 'h) conn" where
  "negotiate sp e s =
     (let s = s\<lparr>itsRequestCount := itsRequestCount s + 1\<rparr>;
          s = s\<lparr>itsResponseVersion := negotiateVersion sp (rq_getVersion sp (itsRequest s))\<rparr>
      in s\<lparr>itsKeepAlive := evaluateKeepAlive sp e s\<rparr>)"

definition handleParsedRequest ::
  "('q, 'p, 'h) spine \<Rightarrow> ('q, 'p, 'h) env \<Rightarrow> server \<Rightarrow> ('q, 'p, 'h) conn \<Rightarrow>
   ('q, 'p, 'h) conn" where
  "handleParsedRequest sp e srv s =
     (let (resolved, s) = resolveClientIP sp e srv s in
      if \<not> resolved then s
      else
        (let s = negotiate sp e s in
         if itsResponseVersion s = ''1.1'' \<and> rq_getHeader sp (itsRequest s) ''Host'' = None then
           (let s = reportError sp ''400 Missing Host header on an HTTP/1.1 request'' s;
                s = s\<lparr>itsKeepAlive := False\<rparr>
            in sendStockReply sp e bad_request s)
         else
           (let s = stripHopByHopHeaders sp s;
                s = take_head_method sp s
            in route_request sp e s)))"

subsection \<open>Reading\<close>

text \<open>\<open>handleRead\<close> from the count of the received bytes on.\<close>

definition receive ::
  "('q, 'p, 'h) spine \<Rightarrow> ('q, 'p, 'h) env \<Rightarrow> server \<Rightarrow> string \<Rightarrow> ('q, 'p, 'h) conn \<Rightarrow>
   ('q, 'p, 'h) conn" where
  "receive sp e srv socketBuffer s =
     (let s = s\<lparr>itsReceivedBytes := itsReceivedBytes s + length socketBuffer\<rparr> in
      if itsMaxRequestSize s > 0 \<and> itsReceivedBytes s > itsMaxRequestSize s then
        (let s = reportError sp ''413 Entity too large'' s
         in sendStockReply sp e request_entity_too_large s)
      else
        (let s = s\<lparr>itsBuffer := itsBuffer s @ socketBuffer\<rparr>;
             parsedRequest = parseOneRequest sp (itsBuffer s)
         in case pr_status parsedRequest of
              COMPLETE \<Rightarrow>
                (let s = s\<lparr>itsRequest := pr_request parsedRequest\<rparr>;
                     s = s\<lparr>itsBuffer := drop (pr_consumed parsedRequest) (itsBuffer s)\<rparr>;
                     s = s\<lparr>itsReceivedBytes := length (itsBuffer s)\<rparr>
                 in handleParsedRequest sp e srv s)
            | FAILED \<Rightarrow> sendStockReply sp e bad_request s
            | INCOMPLETE \<Rightarrow> handleIncompleteRequest sp e s))"

definition handleRead ::
  "('q, 'p, 'h) spine \<Rightarrow> ('q, 'p, 'h) env \<Rightarrow> server \<Rightarrow> error_code \<Rightarrow> string \<Rightarrow>
   ('q, 'p, 'h) conn \<Rightarrow> ('q, 'p, 'h) conn" where
  "handleRead sp e srv err socketBuffer s =
     (if env_shutdown e then sendStockReply sp e (st_shutdown sp) s
      else
        (let s = s\<lparr>itsFinalStatus := err\<rparr> in
         if err = Success then
           (let was_idle = itsIdle s;
                s = s\<lparr>itsIdle := False\<rparr>;
                s = (if was_idle \<and> \<not> hasTimedOut s then armTimer (itsTimeout s) s else s)
            in receive sp e srv socketBuffer s)
         else handleReadError sp err s))"

subsection \<open>Handling\<close>

definition start_reply ::
  "('q, 'p, 'h) spine \<Rightarrow> ('q, 'p, 'h) env \<Rightarrow> ('q, 'p, 'h) conn \<Rightarrow> ('q, 'p, 'h) conn" where
  "start_reply sp e s =
     (if itsHeadRequest s then startRegularReply sp e (setServerHeaders sp e s)
      else if rs_hasStreamContent sp (itsResponse s) then
        (if rs_isGatewayResponse sp (itsResponse s) then startGatewayReply sp e s
         else if rs_getChunked sp (itsResponse s) then startChunkedReply sp e (setServerHeaders sp e s)
         else startStreamReply sp e (setServerHeaders sp e s))
      else startRegularReply sp e (setServerHeaders sp e s))"

text \<open>Before the call of the plugin, and after it returned.\<close>

definition begin_handling ::
  "('q, 'p, 'h) spine \<Rightarrow> 'h \<Rightarrow> ('q, 'p, 'h) conn \<Rightarrow> ('q, 'p, 'h) conn" where
  "begin_handling sp theHandlerView s =
     (let s = s\<lparr>hooks := hooks s @ [Client_started (rq_getClientIP sp (itsRequest s))]\<rparr>;
          s = (if itsDumpRequests s then reportInfo sp (dumpRequest sp (itsRequest s)) s else s)
      in s\<lparr>hooks := hooks s @ [Plugin_called (hv_getPluginName sp theHandlerView)]\<rparr>)"

definition end_handling ::
  "('q, 'p, 'h) spine \<Rightarrow> ('q, 'p, 'h) env \<Rightarrow> 'h \<Rightarrow> interrupt_reason option \<Rightarrow> bool \<Rightarrow>
   ('q, 'p, 'h) conn \<Rightarrow> ('q, 'p, 'h) conn" where
  "end_handling sp e theHandlerView interrupted success s =
     (let s = (case interrupted of
                 None \<Rightarrow> s
               | Some reason \<Rightarrow>
                   reportInfo sp (reason_to_string sp reason @ '', the '' @
                     hv_getPluginName sp theHandlerView @ '' request was cancelled after '' @
                     env_elapsed e @ '' seconds'') s)
      in if interrupted = Some Disconnected then s
         else if \<not> success then sendStockReply sp e bad_request s
         else start_reply sp e s)"

text \<open>
  With no disconnect noticed, the watch for one is cancelled. \<^verbatim>\<open>socket().cancel()\<close> without an
  error code throws on a socket that is closed, as it is after the timer has expired; the
  catch clause prints the stack, and the plugin is not called.
  \<open>env_handle\<close> is \<open>None\<close> when the plugin throws: the catch clause prints the stack and
  nothing else happens. \<open>env_interrupt\<close> is the reason the token reports after the call.
\<close>

definition handleCompletedRead ::
  "('q, 'p, 'h) spine \<Rightarrow> ('q, 'p, 'h) env \<Rightarrow> server \<Rightarrow> 'h \<Rightarrow> ('q, 'p, 'h) conn \<Rightarrow>
   ('q, 'p, 'h) conn" where
  "handleCompletedRead sp e srv theHandlerView s =
     (let s = cancelTimer s in
      if itsPrematurelyDisconnected s then
        (if hv_isCatchNoMatch sp theHandlerView then s
         else
           reportInfo sp (''Client '' @ [CHR 0x27] @ rq_getClientIP sp (itsRequest s) @ [CHR 0x27] @
             '' has already disconnected, not calling the plugin '' @
             hv_getPluginName sp theHandlerView) s)
      else if \<not> socketOpen s then s
      else
        (let s = begin_handling sp theHandlerView s;
             cancellation = createCancellationToken sp srv theHandlerView s
         in case env_handle e theHandlerView (itsRequest s) (itsResponse s) of
              None \<Rightarrow> s
            | Some (request, response, success) \<Rightarrow>
                end_handling sp e theHandlerView (env_interrupt e cancellation) success
                  (s\<lparr>itsRequest := request, itsResponse := response\<rparr>)))"

end
