(* ===== verification/Conn_System.thy ===== *)
theory Conn_System
  imports Conn_Request
begin

text \<open>
  A connection as a transition system: the events are the completions of the operations it
  has started, each runs its handler, and a handler may start new operations. The events
  come in any order the operating system and the pools choose.
\<close>

subsection \<open>Events\<close>

datatype 'h event =
  Handshake_done error_code
| Read_done error_code string
| Posted_run
| Disconnect_read_done error_code
| Write_done writer nat error_code nat
| Timer_fired u64 error_code
| Job_run pool "'h job"

fun operation_of :: "'h event \<Rightarrow> 'h pending" where
  "operation_of (Handshake_done err) = Pending_handshake"
| "operation_of (Read_done err bytes) = Pending_read"
| "operation_of Posted_run = Pending_posted"
| "operation_of (Disconnect_read_done err) = Pending_disconnect_read"
| "operation_of (Write_done w off err n) = Pending_write w off"
| "operation_of (Timer_fired generation err) = Pending_timer generation"
| "operation_of (Job_run pool j) = Pending_job pool j"

text \<open>
  What a socket can report: a write transfers at least one byte unless there was none to
  transfer, never more than its buffer holds, and none when it fails or the socket is
  closed. A wait of the timer is aborted only because the timer was armed anew, and that
  changed the generation.
\<close>

fun event_ok :: "'h event \<Rightarrow> ('q, 'p, 'h) conn \<Rightarrow> bool" where
  "event_ok (Write_done w off err n) s =
     (if err = Success
      then socketOpen s \<and> n \<le> length (itsResponseString s) - off \<and>
           (off < length (itsResponseString s) \<longrightarrow> 0 < n)
      else n = 0)"
| "event_ok (Timer_fired generation err) s =
     (err = Operation_aborted \<longrightarrow> generation \<noteq> itsTimerGeneration s)"
| "event_ok ev s = True"

fun write_handler ::
  "('q, 'p, 'h) spine \<Rightarrow> ('q, 'p, 'h) env \<Rightarrow> writer \<Rightarrow> error_code \<Rightarrow> nat \<Rightarrow>
   ('q, 'p, 'h) conn \<Rightarrow> ('q, 'p, 'h) conn" where
  "write_handler sp e Regular_writer = writeRegularReply sp e"
| "write_handler sp e Stream_writer = writeStreamReply sp e"
| "write_handler sp e Chunked_writer = writeChunkedReply sp e"
| "write_handler sp e Final_writer = finalizeChunkedReply sp e"

definition complete :: "'h pending \<Rightarrow> ('q, 'p, 'h) conn \<Rightarrow> ('q, 'p, 'h) conn" where
  "complete p s = s\<lparr>pending := remove1 p (pending s)\<rparr>"

fun run_handler ::
  "('q, 'p, 'h) spine \<Rightarrow> ('q, 'p, 'h) env \<Rightarrow> server \<Rightarrow> 'h event \<Rightarrow> ('q, 'p, 'h) conn \<Rightarrow>
   ('q, 'p, 'h) conn" where
  "run_handler sp e srv (Handshake_done err) s = handleHandshake err (complete Pending_handshake s)"
| "run_handler sp e srv (Read_done err bytes) s =
     handleRead sp e srv err bytes (complete Pending_read s)"
| "run_handler sp e srv Posted_run s =
     handleRead sp e srv Success [] (complete Pending_posted s)"
| "run_handler sp e srv (Disconnect_read_done err) s =
     notifyClientDisconnect err (complete Pending_disconnect_read s)"
| "run_handler sp e srv (Write_done w off err n) s =
     write_handler sp e w err n (written w off n s)"
| "run_handler sp e srv (Timer_fired generation err) s =
     handleTimer sp e err generation (complete (Pending_timer generation) s)"
| "run_handler sp e srv (Job_run pool j) s =
     (let s = complete (Pending_job pool j) s in
      case j of
        Handle_request h \<Rightarrow> handleCompletedRead sp e srv h s
      | Next_chunk \<Rightarrow> getNextChunk sp e s
      | Next_chunked_chunk \<Rightarrow> getNextChunkedChunk sp e s)"

definition dispatch ::
  "('q, 'p, 'h) spine \<Rightarrow> server \<Rightarrow> ('q, 'p, 'h) env \<Rightarrow> 'h event \<Rightarrow> ('q, 'p, 'h) conn \<Rightarrow>
   ('q, 'p, 'h) conn option" where
  "dispatch sp srv e ev s =
     (if operation_of ev \<in> set (pending s) \<and> event_ok ev s then Some (run_handler sp e srv ev s)
      else None)"

inductive conn_step ::
  "('q, 'p, 'h) spine \<Rightarrow> server \<Rightarrow> ('q, 'p, 'h) conn \<Rightarrow> ('q, 'p, 'h) env \<times> 'h event \<Rightarrow>
   ('q, 'p, 'h) conn \<Rightarrow> bool" for sp srv where
  handler_step: "dispatch sp srv e ev s = Some s' \<Longrightarrow> conn_step sp srv s (e, ev) s'"

inductive_cases conn_stepE: "conn_step sp srv s x s'"
inductive_simps conn_step_iff: "conn_step sp srv s (e, ev) s'"

text \<open>A connection is started after the accept, or it is only answered.\<close>

inductive conn_start :: "('q, 'p, 'h) spine \<Rightarrow> server \<Rightarrow> ('q, 'p, 'h) conn \<Rightarrow> bool" for sp srv where
  started: "conn_start sp srv (snd (start e (count, new_connection sp srv)))"
| rejected: "conn_start sp srv (rejectConnection sp e (new_connection sp srv))"

abbreviation reachable :: "('q, 'p, 'h) spine \<Rightarrow> server \<Rightarrow> ('q, 'p, 'h) conn \<Rightarrow> bool" where
  "reachable sp srv \<equiv> reach (conn_start sp srv) (conn_step sp srv)"

end
