(* ===== verification/Conn_Invariant.thy ===== *)
theory Conn_Invariant
  imports Conn_System
begin

text \<open>
  The invariant of the reachable states of a connection: at most one operation besides the
  timer is pending, and what each kind of pending operation may rely on. It is proved
  handler by handler and lifted to the reachable states by the locale
  \<open>inductive_invariant\<close>.
\<close>

subsection \<open>The operations other than the timer\<close>

fun is_timer :: "'h pending \<Rightarrow> bool" where
  "is_timer (Pending_timer generation) = True"
| "is_timer p = False"

definition others :: "'h pending list \<Rightarrow> 'h pending list" where
  "others ps = filter (\<lambda>p. \<not> is_timer p) ps"

abbreviation ops :: "('q, 'p, 'h) conn \<Rightarrow> 'h pending list" where
  "ops s \<equiv> others (pending s)"

lemma others_simps [simp]:
  "others [] = []" "others (p # ps) = (if is_timer p then others ps else p # others ps)"
  by (simp_all add: others_def)

lemma set_others [simp]: "set (others ps) = {p \<in> set ps. \<not> is_timer p}"
  by (auto simp: others_def)

lemma others_remove1: "others (remove1 p ps) = (if is_timer p then others ps else remove1 p (others ps))"
  by (induction ps) auto

text \<open>What holds whatever is pending.\<close>

definition may_serve :: "('q, 'p, 'h) conn \<Rightarrow> bool" where
  "may_serve s \<longleftrightarrow> itsMaxKeepAliveRequests s = 0 \<or> itsRequestCount s < itsMaxKeepAliveRequests s"

definition base_inv :: "('q, 'p, 'h) conn \<Rightarrow> bool" where
  "base_inv s \<longleftrightarrow>
     itsServer_set s \<and> \<not> itsPrematurelyDisconnected s \<and> \<not> lockHeld s \<and> \<not> deadlocked s \<and>
     (itsMaxKeepAliveRequests s = 0 \<or> itsRequestCount s \<le> itsMaxKeepAliveRequests s) \<and>
     (itsKeepAlive s \<longrightarrow> may_serve s)"

text \<open>
  The per-request state as a new request has to find it. A connection whose timer has
  expired has been given a 408 response; nothing is sent on it any more.
\<close>

definition fresh :: "('q, 'p, 'h) spine \<Rightarrow> ('q, 'p, 'h) conn \<Rightarrow> bool" where
  "fresh sp s \<longleftrightarrow>
     itsSentBytes s = 0 \<and> itsTotalStreamedBytes s = 0 \<and> itsDeclaredContentLength s = 0 \<and>
     \<not> itsBackendNotified s \<and>
     (hasTimedOut s \<or> itsResponse s = new_Response sp \<and> itsResponseString s = [])"

definition awaiting :: "('q, 'p, 'h) spine \<Rightarrow> ('q, 'p, 'h) conn \<Rightarrow> bool" where
  "awaiting sp s \<longleftrightarrow> \<not> itsKeepAlive s \<and> may_serve s \<and> fresh sp s"

text \<open>What holds while an operation is pending.\<close>

fun op_inv :: "('q, 'p, 'h) spine \<Rightarrow> 'h pending \<Rightarrow> ('q, 'p, 'h) conn \<Rightarrow> bool" where
  "op_inv sp Pending_handshake s \<longleftrightarrow> awaiting sp s \<and> \<not> itsIdle s"
| "op_inv sp Pending_read s \<longleftrightarrow> awaiting sp s"
| "op_inv sp Pending_posted s \<longleftrightarrow> awaiting sp s \<and> \<not> itsIdle s"
| "op_inv sp Pending_disconnect_read s \<longleftrightarrow> False"
| "op_inv sp (Pending_write w off) s \<longleftrightarrow>
     \<not> itsIdle s \<and> off = itsSentBytes s \<and> off \<le> length (itsResponseString s)"
| "op_inv sp (Pending_timer generation) s \<longleftrightarrow> True"
| "op_inv sp (Pending_job pool j) s \<longleftrightarrow>
     \<not> itsIdle s \<and> (case j of Handle_request h \<Rightarrow> fresh sp s | _ \<Rightarrow> True)"

definition conn_inv :: "('q, 'p, 'h) spine \<Rightarrow> ('q, 'p, 'h) conn \<Rightarrow> bool" where
  "conn_inv sp s \<longleftrightarrow>
     base_inv s \<and> itsPendingHeaders s = [] \<and>
     length (ops s) \<le> 1 \<and> list_all (\<lambda>p. op_inv sp p s) (ops s)"

text \<open>A handler runs with no other operation pending: \<open>quiet\<close>; a read handler, \<open>reading\<close>.\<close>

definition quiet :: "('q, 'p, 'h) conn \<Rightarrow> bool" where
  "quiet s \<longleftrightarrow> base_inv s \<and> ops s = [] \<and> itsPendingHeaders s = [] \<and> \<not> itsIdle s"

definition reading :: "('q, 'p, 'h) spine \<Rightarrow> ('q, 'p, 'h) conn \<Rightarrow> bool" where
  "reading sp s \<longleftrightarrow> quiet s \<and> awaiting sp s"

lemmas inv_defs = conn_inv_def quiet_def base_inv_def may_serve_def awaiting_def fresh_def

subsection \<open>What the operations leave alone\<close>

text \<open>A step that touches nothing but the response and, to clear it, the keep-alive flag.\<close>

definition reshapes :: "('q, 'p, 'h) conn \<Rightarrow> ('q, 'p, 'h) conn \<Rightarrow> bool" where
  "reshapes s s' \<longleftrightarrow>
     (\<exists>p k. s' = s\<lparr>itsResponse := p, itsKeepAlive := k\<rparr> \<and> (k \<longrightarrow> itsKeepAlive s))"

lemma reshapesI:
  "reshapes s s" "reshapes s (s\<lparr>itsResponse := p\<rparr>)" "reshapes s (s\<lparr>itsKeepAlive := False\<rparr>)"
  unfolding reshapes_def
    apply (rule exI[of _ "itsResponse s"], rule exI[of _ "itsKeepAlive s"], simp)
   apply (rule exI[of _ p], rule exI[of _ "itsKeepAlive s"], simp)
  apply (rule exI[of _ "itsResponse s"], rule exI[of _ False], simp)
  done

lemma reshapes_trans [trans]: "reshapes s t \<Longrightarrow> reshapes t u \<Longrightarrow> reshapes s u"
  by (fastforce simp: reshapes_def)

lemma reshapes_header:
  "reshapes s t \<Longrightarrow> reshapes s (set_header sp k v t)"
  "reshapes s t \<Longrightarrow> reshapes s (remove_header sp k t)"
  unfolding set_header_def remove_header_def by (erule reshapes_trans, rule reshapesI)+

lemma reshapes_close: "reshapes s t \<Longrightarrow> reshapes s (t\<lparr>itsKeepAlive := False\<rparr>)"
  by (erule reshapes_trans) (rule reshapesI)

lemma reshapes_setConnectionHeaders: "reshapes s t \<Longrightarrow> reshapes s (setConnectionHeaders sp t)"
  unfolding setConnectionHeaders_def Let_def
  by (auto split: option.splits
      intro!: reshapes_header reshapes_close intro: reshapes_trans reshapesI)

lemma reshapes_setServerHeaders: "reshapes s t \<Longrightarrow> reshapes s (setServerHeaders sp e t)"
  unfolding setServerHeaders_def appendStaleDirectives_def Let_def
  by (auto split: option.splits intro!: reshapes_header reshapes_setConnectionHeaders)

lemma quiet_frame [simp, frame]:
  "quiet (s\<lparr>wire := w\<rparr>) = quiet s" "quiet (s\<lparr>hooks := h\<rparr>) = quiet s"
  "quiet (s\<lparr>reports := r\<rparr>) = quiet s" "quiet (s\<lparr>itsFinalStatus := f\<rparr>) = quiet s"
  "quiet (s\<lparr>itsRequest := q\<rparr>) = quiet s" "quiet (s\<lparr>itsResponse := p\<rparr>) = quiet s"
  "quiet (s\<lparr>itsBuffer := b\<rparr>) = quiet s" "quiet (s\<lparr>itsReceivedBytes := n\<rparr>) = quiet s"
  "quiet (s\<lparr>itsResponseVersion := v\<rparr>) = quiet s" "quiet (s\<lparr>itsHeadRequest := d\<rparr>) = quiet s"
  "quiet (s\<lparr>itsQueryIsFast := d\<rparr>) = quiet s" "quiet (s\<lparr>itsAdminQuery := d\<rparr>) = quiet s"
  "quiet (s\<lparr>itsExpectHandled := d\<rparr>) = quiet s" "quiet (s\<lparr>itsSentBytes := n\<rparr>) = quiet s"
  "quiet (s\<lparr>itsTotalStreamedBytes := n\<rparr>) = quiet s"
  "quiet (s\<lparr>itsDeclaredContentLength := n\<rparr>) = quiet s"
  "quiet (s\<lparr>itsResponseString := v\<rparr>) = quiet s" "quiet (s\<lparr>itsBackendNotified := d\<rparr>) = quiet s"
  "quiet (s\<lparr>socketOpen := d\<rparr>) = quiet s" "quiet (s\<lparr>itsTimerGeneration := g\<rparr>) = quiet s"
  by (simp_all add: inv_defs)

lemma quiet_close [intro]: "quiet s \<Longrightarrow> quiet (s\<lparr>itsKeepAlive := False\<rparr>)"
  by (simp add: inv_defs)

lemma quiet_reports [simp, frame]:
  "quiet (reportInfo sp m s) = quiet s" "quiet (reportError sp m s) = quiet s"
  by (simp_all add: reportInfo_def reportError_def add_report_def)

lemma quiet_reshapes: "reshapes s t \<Longrightarrow> quiet s \<Longrightarrow> quiet t"
  by (auto simp: reshapes_def inv_defs)

lemma quiet_setServerHeaders [intro]: "quiet s \<Longrightarrow> quiet (setServerHeaders sp e s)"
  using quiet_reshapes reshapes_setServerHeaders[OF reshapesI(1)] by blast

lemma sync_write_wire: "\<exists>w. fst (sync_write a d s) = s\<lparr>wire := wire s @ w\<rparr>"
  by (auto simp: sync_write_def intro: exI[of _ "[]"])

lemma quiet_sync_write [simp, frame]: "quiet (fst (sync_write a d s)) = quiet s"
  using sync_write_wire[of a d s] by auto

lemma conn_inv_quiet [intro]: "quiet s \<Longrightarrow> conn_inv sp s"
  by (simp add: quiet_def conn_inv_def)

subsection \<open>Every handler preserves the invariant\<close>

text \<open>The functions that end a handler, from a state with no other operation pending.\<close>

lemma finishResponse_inv: "quiet s \<Longrightarrow> conn_inv sp (finishResponse sp e s)"
  by (auto simp: finishResponse_def Let_def inv_defs armTimer_def add_pending_def startRead_def)

lemma startRead_inv: "reading sp s \<Longrightarrow> conn_inv sp (startRead s)"
  by (auto simp: startRead_def add_pending_def reading_def inv_defs)

lemma async_write_inv:
  "quiet s \<Longrightarrow> off = itsSentBytes s \<Longrightarrow> off \<le> length (itsResponseString s) \<Longrightarrow>
     conn_inv sp (async_write_some w off s)"
  by (auto simp: async_write_some_def add_pending_def inv_defs)

lemma add_job_inv:
  "quiet s \<Longrightarrow> (case j of Handle_request h \<Rightarrow> fresh sp s | _ \<Rightarrow> True) \<Longrightarrow>
     conn_inv sp (add_pending (Pending_job p j) s)"
  by (auto simp: add_pending_def inv_defs split: job.splits)

lemma closeSocket_inv: "quiet s \<Longrightarrow> conn_inv sp (closeSocket s)"
  by (auto simp: closeSocket_def)

lemma op_inv_reports [simp, frame]: "op_inv sp x (s\<lparr>reports := r\<rparr>) = op_inv sp x s"
  by (cases x; simp add: awaiting_def may_serve_def fresh_def split: job.split)

lemma conn_inv_reports [simp, frame]: "conn_inv sp (reportInfo sp' m s) = conn_inv sp s"
  by (simp add: reportInfo_def add_report_def conn_inv_def base_inv_def may_serve_def)

lemma sendSimpleReply_inv: "quiet s \<Longrightarrow> conn_inv sp (sendSimpleReply sp e s)"
  by (auto simp: sendSimpleReply_def Let_def split_beta split: option.splits
      intro!: finishResponse_inv closeSocket_inv)

lemma sendStockReply_inv: "quiet s \<Longrightarrow> conn_inv sp (sendStockReply sp e st s)"
  by (auto simp: sendStockReply_def Let_def set_header_def intro!: sendSimpleReply_inv)

text \<open>With the keep-alive flag cleared, a stock reply starts nothing.\<close>

lemma sendSimpleReply_closes:
  assumes "\<not> itsKeepAlive s"
  shows "\<exists>w f d. sendSimpleReply sp e s =
    s\<lparr>wire := wire s @ w, itsFinalStatus := f, socketOpen := d, itsKeepAlive := False\<rparr>"
proof -
  have id: "s = s\<lparr>wire := wire s @ [], itsFinalStatus := itsFinalStatus s, socketOpen := socketOpen s,
      itsKeepAlive := False\<rparr>" using assms by simp
  show ?thesis
  proof (cases "rs_headersToBuffer sp (itsResponse s)")
    case None
    then show ?thesis using id by (simp only: sendSimpleReply_def option.case) metis
  next
    case (Some hdr)
    obtain s1 err1 where 1: "sync_write (env_headerWrite e) hdr s = (s1, err1)" by force
    obtain w1 where s1: "s1 = s\<lparr>wire := wire s @ w1\<rparr>"
      using sync_write_wire[of "env_headerWrite e" hdr s] 1 by auto
    obtain s2 err2 where
      2: "sync_write (env_contentWrite e) (rs_contentToBuffer sp (itsResponse s)) s1 = (s2, err2)" by force
    obtain w2 where s2: "s2 = s1\<lparr>wire := wire s1 @ w2\<rparr>"
      using sync_write_wire[of "env_contentWrite e" "rs_contentToBuffer sp (itsResponse s)" s1] 2 by auto
    have "\<not> itsKeepAlive s2" using assms by (simp add: s1 s2)
    then have "sendSimpleReply sp e s =
        s2\<lparr>itsFinalStatus := err2, socketOpen := False, itsKeepAlive := False\<rparr>"
      by (simp add: sendSimpleReply_def Some 1 2 closeSocket_def Let_def)
    then have "sendSimpleReply sp e s =
        s\<lparr>wire := wire s @ (w1 @ w2), itsFinalStatus := err2, socketOpen := False,
          itsKeepAlive := False\<rparr>"
      by (simp add: s1 s2)
    then show ?thesis by blast
  qed
qed

lemma sendStockReply_closes:
  assumes "\<not> itsKeepAlive s"
  shows "\<exists>p w f d. sendStockReply sp e st s =
    s\<lparr>itsResponse := p, wire := wire s @ w, itsFinalStatus := f, socketOpen := d,
      itsKeepAlive := False\<rparr>"
proof -
  let ?s = "set_header sp ''Content-Length''
    (decimal (rs_getContentLength sp (rs_setStatus sp (itsResponse s) st True)))
    (s\<lparr>itsResponse := rs_setStatus sp (itsResponse s) st True\<rparr>)"
  have "reshapes s ?s" by (intro reshapes_header) (rule reshapesI)
  then have "reshapes s (setServerHeaders sp e ?s)" by (rule reshapes_setServerHeaders)
  then obtain p k where t: "setServerHeaders sp e ?s = s\<lparr>itsResponse := p, itsKeepAlive := k\<rparr>" "\<not> k"
    using assms by (auto simp: reshapes_def)
  with sendSimpleReply_closes[of "s\<lparr>itsResponse := p, itsKeepAlive := k\<rparr>" sp e] show ?thesis
    by (auto simp: sendStockReply_def Let_def)
qed

lemma quiet_sendStockReply: "quiet s \<Longrightarrow> \<not> itsKeepAlive s \<Longrightarrow> quiet (sendStockReply sp e st s)"
  using sendStockReply_closes[of s sp e st] by (auto simp: inv_defs)

text \<open>
  While a streamed reply starts, the header section waits to be sent: \<open>busy\<close> is \<open>quiet\<close>
  but for that.
\<close>

definition busy :: "('q, 'p, 'h) conn \<Rightarrow> bool" where
  "busy s \<longleftrightarrow> quiet (s\<lparr>itsPendingHeaders := []\<rparr>)"

lemma quiet_busy [intro]: "quiet s \<Longrightarrow> busy s"
  by (simp add: busy_def inv_defs)

lemma busy_frame [simp, frame]:
  "busy (s\<lparr>itsResponse := p\<rparr>) = busy s" "busy (s\<lparr>itsPendingHeaders := h\<rparr>) = busy s"
  "busy (s\<lparr>hooks := k\<rparr>) = busy s" "busy (s\<lparr>itsBackendNotified := d\<rparr>) = busy s"
  "busy (s\<lparr>itsDeclaredContentLength := n\<rparr>) = busy s" "busy (s\<lparr>reports := r\<rparr>) = busy s"
  "busy (s\<lparr>itsTotalStreamedBytes := n\<rparr>) = busy s" "busy (s\<lparr>itsRequest := q\<rparr>) = busy s"
  by (simp_all add: busy_def inv_defs)

lemma busy_reports [simp, frame]: "busy (reportInfo sp m s) = busy s"
  by (simp add: reportInfo_def add_report_def)

lemma busy_header [simp, frame]:
  "busy (set_header sp k v s) = busy s" "busy (remove_header sp k s) = busy s"
  by (simp_all add: set_header_def remove_header_def)

lemma quiet_of_busy: "busy s \<Longrightarrow> quiet (s\<lparr>itsPendingHeaders := []\<rparr>)"
  by (simp add: busy_def)

lemma quiet_flushPendingHeaders: "busy s \<Longrightarrow> quiet (snd (flushPendingHeaders sp e s))"
  using sync_write_wire[of "env_flushWrite e" "itsPendingHeaders s" s]
  by (auto simp: flushPendingHeaders_def split_beta Let_def busy_def)
    (auto simp: inv_defs reportInfo_def add_report_def)

lemma quiet_finalizeStreamLogging [simp, frame]:
  "quiet (finalizeStreamLogging sp s) = quiet s"
  by (simp add: finalizeStreamLogging_def split_beta inv_defs)

lemma quiet_notifyBackendFinished [simp, frame]:
  "quiet (notifyBackendFinished sp st s) = quiet s" "busy (notifyBackendFinished sp st s) = busy s"
  by (simp_all add: notifyBackendFinished_def inv_defs busy_def)

lemma after_reply_inv:
  assumes "quiet s"
  shows "conn_inv sp (reportInfo sp m s)" "conn_inv sp (finalizeStreamLogging sp s)"
    "conn_inv sp (notifyBackendFinished sp st s)"
  using assms by (auto intro!: conn_inv_quiet)

lemma scheduleChunkGetter_inv:
  "quiet s \<Longrightarrow> conn_inv sp (scheduleChunkGetter sp e s)"
  "quiet s \<Longrightarrow> conn_inv sp (scheduleChunkedChunkGetter sp e s)"
  by (auto simp: scheduleChunkGetter_def scheduleChunkedChunkGetter_def Let_def
      intro!: add_job_inv after_reply_inv quiet_sendStockReply quiet_close)

lemma write_handler_inv: "quiet s \<Longrightarrow> conn_inv sp (write_handler sp e w err n s)"
  by (cases w)
    (auto simp: writeRegularReply_def writeStreamReply_def writeChunkedReply_def
      finalizeChunkedReply_def Let_def
      intro!: async_write_inv scheduleChunkGetter_inv finishResponse_inv after_reply_inv
        quiet_sendStockReply quiet_close)

lemma busy_async_write:
  "busy s \<Longrightarrow> conn_inv sp (async_write_some w 0
     (s\<lparr>itsTotalStreamedBytes := t, itsResponseString := r, itsPendingHeaders := [],
        itsSentBytes := 0\<rparr>))"
  "busy s \<Longrightarrow> conn_inv sp (async_write_some w 0
     (s\<lparr>itsResponseString := r, itsPendingHeaders := [], itsSentBytes := 0\<rparr>))"
  by (auto intro!: async_write_inv dest: quiet_of_busy)
    (simp_all add: busy_def inv_defs)

lemma getNextChunk_inv: "busy s \<Longrightarrow> conn_inv sp (getNextChunk sp e s)"
  using quiet_flushPendingHeaders[of "s\<lparr>itsResponse := snd (rs_getContent sp (itsResponse s))\<rparr>" sp e]
    quiet_flushPendingHeaders[of s sp e]
  by (auto simp: getNextChunk_def Let_def split_beta
      intro!: busy_async_write(1)[where s = "s\<lparr>itsResponse := snd (rs_getContent sp (itsResponse s))\<rparr>", simplified]
        scheduleChunkGetter_inv finishResponse_inv)

lemma getNextChunkedChunk_inv: "busy s \<Longrightarrow> conn_inv sp (getNextChunkedChunk sp e s)"
  using quiet_flushPendingHeaders[of "s\<lparr>itsResponse := snd (rs_getContent sp (itsResponse s))\<rparr>" sp e]
    quiet_flushPendingHeaders[of "notifyBackendFinished sp st s" sp e for st]
  by (auto simp: getNextChunkedChunk_def Let_def split_beta
      intro!: busy_async_write[simplified] scheduleChunkGetter_inv closeSocket_inv)

lemma preparePendingHeaders_busy: "busy s \<Longrightarrow> busy (snd (preparePendingHeaders sp s))"
  by (auto simp: preparePendingHeaders_def Let_def split: option.splits)

lemma preparePendingHeaders_throws:
  "quiet s \<Longrightarrow> preparePendingHeaders sp s = (False, t) \<Longrightarrow> quiet t"
  by (auto simp: preparePendingHeaders_def Let_def split: option.splits)

lemma quiet_header [simp, frame]:
  "quiet (set_header sp k v s) = quiet s" "quiet (remove_header sp k s) = quiet s"
  by (simp_all add: set_header_def remove_header_def)

lemma prepared_inv:
  assumes "quiet s" and "\<And>t. busy t \<Longrightarrow> conn_inv sp (f t)"
  shows "conn_inv sp (case preparePendingHeaders sp s of (returns, t) \<Rightarrow> if \<not> returns then t else f t)"
  using preparePendingHeaders_busy[of s sp] preparePendingHeaders_throws[of s sp] assms
  by (cases "preparePendingHeaders sp s") auto

lemma startChunkedReply_inv: "quiet s \<Longrightarrow> conn_inv sp (startChunkedReply sp e s)"
  unfolding startChunkedReply_def Let_def by (rule prepared_inv) (auto intro: getNextChunkedChunk_inv)

lemma startStreamReply_inv: "quiet s \<Longrightarrow> conn_inv sp (startStreamReply sp e s)"
  unfolding startStreamReply_def Let_def by (rule prepared_inv) (auto intro: getNextChunk_inv)

lemma startGatewayReply_inv: "quiet s \<Longrightarrow> conn_inv sp (startGatewayReply sp e s)"
  unfolding startGatewayReply_def by (auto intro: getNextChunk_inv)

lemma quiet_encode_response [simp, frame]: "quiet (encode_response sp s) = quiet s"
  by (simp add: encode_response_def Let_def split: option.splits)

lemma quiet_frame_response [simp, frame]: "quiet (frame_response sp s) = quiet s"
  by (simp add: frame_response_def)

lemma frame_response_sent [simp, frame]:
  "itsSentBytes (frame_response sp s) = itsSentBytes s"
  "itsSentBytes (encode_response sp s) = itsSentBytes s"
  by (simp_all add: frame_response_def encode_response_def set_header_def remove_header_def Let_def
      split: option.splits)

lemma reports_sent [simp, frame]: "itsSentBytes (reportInfo sp m s) = itsSentBytes s"
  by (simp add: reportInfo_def add_report_def)

lemma startRegularReply_inv:
  "quiet s \<Longrightarrow> itsSentBytes s = 0 \<Longrightarrow> conn_inv sp (startRegularReply sp e s)"
  unfolding startRegularReply_def Let_def
  by (auto simp: split_beta split: option.splits
      intro!: async_write_inv)

lemma setServerHeaders_sent [simp, frame]: "itsSentBytes (setServerHeaders sp e s) = itsSentBytes s"
  using reshapes_setServerHeaders[OF reshapesI(1), of s sp e] by (auto simp: reshapes_def)

lemma start_reply_inv: "quiet s \<Longrightarrow> itsSentBytes s = 0 \<Longrightarrow> conn_inv sp (start_reply sp e s)"
  by (auto simp: start_reply_def intro!: startRegularReply_inv startGatewayReply_inv
      startChunkedReply_inv startStreamReply_inv)

lemma quiet_cancelTimer: "quiet s \<Longrightarrow> quiet (cancelTimer s)"
  by (auto simp: cancelTimer_def inv_defs)

lemma begin_handling_frame [simp, frame]:
  "quiet (begin_handling sp h s) = quiet s" "itsSentBytes (begin_handling sp h s) = itsSentBytes s"
  by (simp_all add: begin_handling_def Let_def)

lemma end_handling_inv:
  "quiet s \<Longrightarrow> itsSentBytes s = 0 \<Longrightarrow> conn_inv sp (end_handling sp e h interrupted ok s)"
  by (auto simp: end_handling_def Let_def split: option.splits
      intro!: start_reply_inv sendStockReply_inv)

lemma handleCompletedRead_inv:
  assumes "quiet s" "itsSentBytes s = 0"
  shows "conn_inv sp (handleCompletedRead sp e srv h s)"
proof -
  let ?t = "begin_handling sp h (cancelTimer s)"
  have q: "quiet (cancelTimer s)" "itsSentBytes (cancelTimer s) = 0"
    using assms quiet_cancelTimer[OF assms(1)] by (simp_all add: cancelTimer_def)
  then have "\<not> itsPrematurelyDisconnected (cancelTimer s)" by (simp add: inv_defs)
  moreover have "conn_inv sp (case x of None \<Rightarrow> ?t
      | Some (request, response, success) \<Rightarrow>
          end_handling sp e h i success (?t\<lparr>itsRequest := request, itsResponse := response\<rparr>))"
    for x i
    using q by (simp add: conn_inv_quiet end_handling_inv split: option.split prod.split)
  moreover have "conn_inv sp (cancelTimer s)" using q(1) by (rule conn_inv_quiet)
  ultimately show ?thesis
    by (simp only: handleCompletedRead_def Let_def if_False split: if_split) simp
qed

text \<open>The functions that read a request.\<close>

lemma reading_frame [simp, frame]:
  "reading sp (s\<lparr>wire := w\<rparr>) = reading sp s" "reading sp (s\<lparr>hooks := h\<rparr>) = reading sp s"
  "reading sp (s\<lparr>reports := r\<rparr>) = reading sp s" "reading sp (s\<lparr>itsFinalStatus := f\<rparr>) = reading sp s"
  "reading sp (s\<lparr>itsRequest := q\<rparr>) = reading sp s" "reading sp (s\<lparr>itsBuffer := b\<rparr>) = reading sp s"
  "reading sp (s\<lparr>itsReceivedBytes := n\<rparr>) = reading sp s"
  "reading sp (s\<lparr>itsExpectHandled := d\<rparr>) = reading sp s"
  by (simp_all add: reading_def awaiting_def fresh_def may_serve_def)

lemma reading_reports [simp, frame]:
  "reading sp (reportInfo sp m s) = reading sp s" "reading sp (reportError sp m s) = reading sp s"
  by (simp_all add: reportInfo_def reportError_def add_report_def)

lemma reading_quiet: "reading sp s \<Longrightarrow> quiet s \<and> \<not> itsKeepAlive s"
  by (simp add: reading_def awaiting_def)

lemma reading_sync_write [simp, frame]: "reading sp (fst (sync_write a d s)) = reading sp s"
  using sync_write_wire[of a d s] by auto

lemma handleExpectContinue_reads:
  assumes "reading sp s" "handleExpectContinue sp e s = (again, t)"
  shows "reading sp t \<or> \<not> again \<and> quiet t"
  using assms reading_quiet[OF assms(1)]
    reading_sync_write[of sp "env_expectWrite e" continueReply "s\<lparr>itsExpectHandled := True\<rparr>"]
  unfolding handleExpectContinue_def Let_def
  by (auto simp: split_beta split: if_splits intro!: quiet_sendStockReply
      dest: reading_quiet)

lemma handleIncompleteRequest_inv:
  assumes "reading sp s" shows "conn_inv sp (handleIncompleteRequest sp e s)"
proof -
  obtain again t where h: "handleExpectContinue sp e s = (again, t)" by force
  from handleExpectContinue_reads[OF assms h] have "conn_inv sp (if again then startRead t else t)"
    by (auto intro!: startRead_inv dest: reading_quiet)
  with h reading_quiet[OF assms] show ?thesis
    by (auto simp: handleIncompleteRequest_def Let_def intro!: sendStockReply_inv)
qed

lemma resolveClientIP_reading:
  assumes "reading sp s" shows "reading sp (snd (resolveClientIP sp e srv s))"
  using assms by (simp add: resolveClientIP_def split: option.split)

lemma stripHopByHopHeaders_reading [simp, frame]:
  "quiet (stripHopByHopHeaders sp s) = quiet s" "fresh sp (stripHopByHopHeaders sp s) = fresh sp s"
  "quiet (take_head_method sp s) = quiet s" "fresh sp (take_head_method sp s) = fresh sp s"
  by (simp_all add: stripHopByHopHeaders_def take_head_method_def fresh_def Let_def)

lemma scheduleRequest_inv:
  assumes "quiet s" "fresh sp s" shows "conn_inv sp (scheduleRequest sp e h s)"
proof -
  have "fresh sp (s\<lparr>itsQueryIsFast := q\<rparr>)" "fresh sp (s\<lparr>itsQueryIsFast := q, itsAdminQuery := a\<rparr>)"
    for q a using assms by (simp_all add: fresh_def)
  moreover have "conn_inv sp (reportInfo sp m (sendStockReply sp e st t))" if "quiet t" for t st m
    using sendStockReply_inv[OF that, of sp e st] by simp
  ultimately show ?thesis
    using assms by (auto simp: scheduleRequest_def Let_def intro!: add_job_inv)
qed

lemma route_request_inv:
  assumes "quiet s" "fresh sp s" shows "conn_inv sp (route_request sp e s)"
proof -
  have "fresh sp (s\<lparr>itsAdminQuery := a\<rparr>)" for a using assms by (simp add: fresh_def)
  with assms show ?thesis
    by (auto simp: route_request_def Let_def split: option.split
        intro!: sendSimpleReply_inv sendStockReply_inv scheduleRequest_inv)
qed

lemma negotiate_quiet:
  assumes "reading sp s" shows "quiet (negotiate sp e s)" "fresh sp (negotiate sp e s)"
proof -
  have may: "may_serve s" and f: "fresh sp s" and q: "quiet s"
    using assms by (auto simp: reading_def awaiting_def)
  have "itsMaxKeepAliveRequests s = 0 \<or> itsRequestCount s + 1 \<le> itsMaxKeepAliveRequests s"
    using may by (auto simp: may_serve_def intro: inc_le)
  moreover have "evaluateKeepAlive sp e t \<Longrightarrow> may_serve t" for t
    by (auto simp: evaluateKeepAlive_def may_serve_def word_greater_zero_iff split: if_splits)
  ultimately show "quiet (negotiate sp e s)"
    using q by (fastforce simp: negotiate_def Let_def quiet_def base_inv_def may_serve_def)
  show "fresh sp (negotiate sp e s)" using f by (simp add: negotiate_def Let_def fresh_def)
qed

lemma handleParsedRequest_inv:
  assumes "reading sp s" shows "conn_inv sp (handleParsedRequest sp e srv s)"
proof -
  obtain resolved t where t: "resolveClientIP sp e srv s = (resolved, t)" by force
  then have r: "reading sp t" using resolveClientIP_reading[OF assms, of e srv] by simp
  note n = negotiate_quiet[OF r]
  show ?thesis
    using n reading_quiet[OF r]
    by (simp add: handleParsedRequest_def t Let_def route_request_inv sendStockReply_inv
        quiet_close reportError_def add_report_def conn_inv_quiet)
qed

text \<open>What a completed read finds: as \<open>reading\<close>, but the connection may be marked idle.\<close>

definition received :: "('q, 'p, 'h) spine \<Rightarrow> ('q, 'p, 'h) conn \<Rightarrow> bool" where
  "received sp s \<longleftrightarrow> base_inv s \<and> ops s = [] \<and> itsPendingHeaders s = [] \<and> awaiting sp s"

lemma received_reading: "received sp s \<Longrightarrow> \<not> itsIdle s \<Longrightarrow> reading sp s"
  by (simp add: received_def reading_def quiet_def)

lemma received_inv: "received sp s \<Longrightarrow> conn_inv sp s"
  by (simp add: received_def conn_inv_def)

lemma received_frame [simp, frame]:
  "received sp (s\<lparr>itsFinalStatus := f\<rparr>) = received sp s"
  "received sp (s\<lparr>itsReceivedBytes := n\<rparr>) = received sp s"
  "received sp (s\<lparr>itsBuffer := b\<rparr>) = received sp s"
  "received sp (s\<lparr>itsIdle := i\<rparr>) = received sp s"
  by (simp_all add: received_def base_inv_def awaiting_def may_serve_def fresh_def)

lemma received_armTimer: "received sp s \<Longrightarrow> received sp (armTimer t s)"
  by (simp add: armTimer_def add_pending_def received_def base_inv_def awaiting_def may_serve_def
      fresh_def Let_def)

lemma armTimer_idle [simp]: "itsIdle (armTimer t s) = itsIdle s"
  by (simp add: armTimer_def add_pending_def Let_def)

lemma sendStockReply_received_inv:
  assumes "received sp s" shows "conn_inv sp (sendStockReply sp e st s)"
proof -
  have "\<not> itsKeepAlive s" using assms by (simp add: received_def awaiting_def)
  with sendStockReply_closes[of s sp e st] assms show ?thesis
    by (auto simp: received_def conn_inv_def base_inv_def)
qed

lemma receive_inv:
  assumes "reading sp s" shows "conn_inv sp (receive sp e srv bytes s)"
  unfolding receive_def Let_def
  by (cases "pr_status (parseOneRequest sp (itsBuffer s @ bytes))")
    (use assms reading_quiet[OF assms] in
      \<open>simp_all add: sendStockReply_inv handleParsedRequest_inv handleIncompleteRequest_inv
         reportError_def add_report_def\<close>)

lemma handleRead_inv:
  assumes "received sp s" shows "conn_inv sp (handleRead sp e srv err bytes s)"
proof (cases "env_shutdown e \<or> err \<noteq> Success")
  case True
  have "conn_inv sp (handleReadError sp err (s\<lparr>itsFinalStatus := err\<rparr>))"
    using received_inv[of sp "s\<lparr>itsFinalStatus := err\<rparr>"] assms by (auto simp: handleReadError_def)
  with True sendStockReply_received_inv[OF assms] show ?thesis
    by (auto simp: handleRead_def Let_def)
next
  case False
  let ?t = "if itsIdle s \<and> \<not> hasTimedOut s
    then armTimer (itsTimeout s) (s\<lparr>itsFinalStatus := err, itsIdle := False\<rparr>)
    else s\<lparr>itsFinalStatus := err, itsIdle := False\<rparr>"
  have "reading sp ?t"
    using assms by (auto intro!: received_reading received_armTimer)
  then show ?thesis using receive_inv[of sp ?t e srv bytes] False
    by (auto simp: handleRead_def Let_def split: if_splits)
qed

subsection \<open>The invariant holds in every reachable state\<close>

lemma conn_inv_single:
  assumes "conn_inv sp s" "p \<in> set (pending s)" "\<not> is_timer p"
  shows "ops s = [p]" "op_inv sp p s" "others (remove1 p (pending s)) = []"
proof -
  have "p \<in> set (ops s)" using assms by simp
  moreover have "length (ops s) \<le> 1" using assms by (simp add: conn_inv_def)
  ultimately show o: "ops s = [p]" by (cases "ops s") (auto simp del: set_others)
  show "op_inv sp p s" using assms(1) o by (simp add: conn_inv_def)
  show "others (remove1 p (pending s)) = []" using o assms(3) by (simp add: others_remove1)
qed

lemma received_complete:
  assumes "conn_inv sp s" "p \<in> set (pending s)" "p = Pending_read \<or> p = Pending_posted"
  shows "received sp (complete p s)"
  using conn_inv_single[OF assms(1,2)] assms(1,3)
  by (auto simp: received_def complete_def conn_inv_def base_inv_def awaiting_def may_serve_def fresh_def)

lemma quiet_complete:
  assumes "conn_inv sp s" "Pending_job pool j \<in> set (pending s)"
  shows "quiet (complete (Pending_job pool j) s)"
    "\<And>h. j = Handle_request h \<Longrightarrow> itsSentBytes (complete (Pending_job pool j) s) = 0"
  using conn_inv_single[OF assms] assms(1)
  by (auto simp: quiet_def complete_def conn_inv_def base_inv_def may_serve_def fresh_def)

lemma quiet_written:
  assumes "conn_inv sp s" "Pending_write w off \<in> set (pending s)"
  shows "quiet (written w off n s)"
  using conn_inv_single[OF assms] assms(1)
  by (auto simp: quiet_def written_def conn_inv_def base_inv_def may_serve_def)

lemma handleHandshake_inv:
  assumes "conn_inv sp s" "Pending_handshake \<in> set (pending s)"
  shows "conn_inv sp (handleHandshake err (complete Pending_handshake s))"
proof -
  have "reading sp (complete Pending_handshake s)"
    using conn_inv_single[OF assms] assms(1)
    by (auto simp: reading_def quiet_def complete_def conn_inv_def base_inv_def awaiting_def
        may_serve_def fresh_def)
  then show ?thesis
    by (auto simp: handleHandshake_def intro: startRead_inv closeSocket_inv dest: reading_quiet)
qed

text \<open>A timer that expires clears the keep-alive flag, answers, and closes the socket.\<close>

lemma timed_out_inv:
  assumes "conn_inv sp s" "others ps = ops s" "k \<longrightarrow> itsKeepAlive s"
  shows "conn_inv sp (s\<lparr>pending := ps, hasTimedOut := True, itsResponse := p,
    wire := w, itsFinalStatus := f, socketOpen := d, itsKeepAlive := k, lockHeld := False\<rparr>)" (is "conn_inv sp ?t")
proof -
  have "op_inv sp x ?t" if "op_inv sp x s" for x
    using that assms(3)
    by (cases x) (auto simp: awaiting_def may_serve_def fresh_def split: job.split)
  then show ?thesis
    using assms by (auto simp: conn_inv_def list_all_iff base_inv_def may_serve_def)
qed

lemma handleTimer_inv:
  assumes "conn_inv sp s"
  shows "conn_inv sp (handleTimer sp e err generation (complete (Pending_timer g) s))"
proof -
  let ?ps = "remove1 (Pending_timer g) (pending s)"
  have ops: "others ?ps = ops s" by (simp add: others_remove1)
  have nolock: "\<not> lockHeld s" using assms by (simp add: conn_inv_def base_inv_def)
  note inv = timed_out_inv[OF assms ops]
  show ?thesis
  proof (cases "err = Operation_aborted \<or> generation \<noteq> itsTimerGeneration s")
    case True
    have "conn_inv sp (s\<lparr>pending := ?ps, lockHeld := False\<rparr>)"
    proof -
      have "op_inv sp x (s\<lparr>pending := ?ps, lockHeld := False\<rparr>)" if "op_inv sp x s" for x
        using that by (cases x) (auto simp: awaiting_def may_serve_def fresh_def split: job.split)
      then show ?thesis
        using assms ops by (auto simp: conn_inv_def list_all_iff base_inv_def may_serve_def)
    qed
    with True nolock show ?thesis by (auto simp: handleTimer_def complete_def Let_def)
  next
    case False
    let ?s = "s\<lparr>pending := ?ps, lockHeld := True, hasTimedOut := True\<rparr>"
    show ?thesis
    proof (cases "itsIdle s")
      case True
      have "?s\<lparr>socketOpen := False, lockHeld := False\<rparr> =
          s\<lparr>pending := ?ps, hasTimedOut := True, itsResponse := itsResponse s, wire := wire s,
            itsFinalStatus := itsFinalStatus s, socketOpen := False, itsKeepAlive := itsKeepAlive s,
            lockHeld := False\<rparr>" by simp
      with inv[where k = "itsKeepAlive s" and p = "itsResponse s" and w = "wire s"
          and f = "itsFinalStatus s" and d = False]
      have "conn_inv sp (?s\<lparr>socketOpen := False, lockHeld := False\<rparr>)" by (simp only: simp_thms)
      with False True nolock show ?thesis
        by (simp add: handleTimer_def complete_def closeSocket_def Let_def)
    next
      case notidle: False
      obtain p w f d where r: "sendStockReply sp e request_timeout (?s\<lparr>itsKeepAlive := False\<rparr>) =
          ?s\<lparr>itsResponse := p, wire := w, itsFinalStatus := f, socketOpen := d, itsKeepAlive := False\<rparr>"
        using sendStockReply_closes[of "?s\<lparr>itsKeepAlive := False\<rparr>" sp e request_timeout] by auto
      show ?thesis
        using False notidle nolock r inv[where k = False and p = p and w = w and f = f and d = d]
        by (simp add: handleTimer_def complete_def Let_def)
    qed
  qed
qed

lemma conn_inv_step:
  assumes "conn_inv sp s" "conn_step sp srv s x s'" shows "conn_inv sp s'"
proof -
  obtain e ev where x: "x = (e, ev)" by force
  have mem: "operation_of ev \<in> set (pending s)" and s': "s' = run_handler sp e srv ev s"
    using assms(2) by (auto simp: x conn_step_iff dispatch_def split: if_splits)
  show ?thesis
  proof (cases ev)
    case (Handshake_done err)
    with mem assms(1) show ?thesis by (simp add: s' handleHandshake_inv)
  next
    case (Read_done err bytes)
    with mem received_complete[OF assms(1)] show ?thesis by (simp add: s' handleRead_inv)
  next
    case Posted_run
    with mem received_complete[OF assms(1)] show ?thesis by (simp add: s' handleRead_inv)
  next
    case (Disconnect_read_done err)
    with mem conn_inv_single(2)[OF assms(1), of Pending_disconnect_read] show ?thesis by simp
  next
    case (Write_done w off err n)
    with mem quiet_written[OF assms(1)] show ?thesis by (simp add: s' write_handler_inv)
  next
    case (Timer_fired generation err)
    with assms(1) show ?thesis by (simp add: s' handleTimer_inv)
  next
    case (Job_run pool j)
    with mem quiet_complete[OF assms(1), of pool j] show ?thesis
      by (cases j) (auto simp: s' Let_def intro: handleCompletedRead_inv getNextChunk_inv
          getNextChunkedChunk_inv)
  qed
qed

lemma conn_inv_new: "quiet (new_connection sp srv)" "fresh sp (new_connection sp srv)"
  "\<not> itsKeepAlive (new_connection sp srv)" "itsRequestCount (new_connection sp srv) = 0"
  by (simp_all add: new_connection_eq quiet_def base_inv_def may_serve_def fresh_def)

lemma conn_inv_start:
  assumes "conn_start sp srv s" shows "conn_inv sp s"
  using assms
proof cases
  case (started e count)
  have "may_serve (new_connection sp srv)"
    using conn_inv_new(4)[of sp srv] by (simp add: may_serve_def word_greater_zero_iff)
  with started conn_inv_new[of sp srv] show ?thesis
    by (auto simp: start_def registerConnection_def armTimer_def add_pending_def startRead_def
        Let_def conn_inv_def quiet_def base_inv_def awaiting_def may_serve_def fresh_def)
next
  case (rejected e)
  have "quiet (new_connection sp srv\<lparr>itsKeepAlive := False, itsResponseVersion := ''1.0''\<rparr>)"
    using quiet_close[OF conn_inv_new(1)] by simp
  with rejected show ?thesis by (auto simp: rejectConnection_def intro: sendStockReply_inv)
qed

interpretation connection: inductive_invariant
  "conn_start sp srv" "conn_step sp srv" "conn_inv sp"
  for sp :: "('q, 'p, 'h) spine" and srv
  by unfold_locales (auto intro: conn_inv_start conn_inv_step)

end
