(* ===== verification/Conn_Evolution.thy ===== *)
theory Conn_Evolution
  imports Conn_Invariant
begin

text \<open>
  What every handler leaves alone or only extends: the settings of the connection stay, the
  bytes on the wire, the hook calls and the log only grow, a closed socket stays closed and
  nothing is sent on it. The relation \<open>evolves k n\<close> also counts: \<open>k\<close> requests were taken, and
  at most \<open>n\<close> more plugin calls made or queued.
\<close>

fun is_plugin_call :: "hook \<Rightarrow> bool" where
  "is_plugin_call (Plugin_called name) = True"
| "is_plugin_call x = False"

fun is_handle_job :: "'h pending \<Rightarrow> bool" where
  "is_handle_job (Pending_job pool (Handle_request h)) = True"
| "is_handle_job x = False"

definition plugin_calls :: "hook list \<Rightarrow> nat" where
  "plugin_calls hs = length (filter is_plugin_call hs)"

definition handle_jobs :: "'h pending list \<Rightarrow> nat" where
  "handle_jobs ps = length (filter is_handle_job ps)"

abbreviation served :: "('q, 'p, 'h) conn \<Rightarrow> nat" where
  "served s \<equiv> plugin_calls (hooks s) + handle_jobs (pending s)"

lemma plugin_calls_simps [simp]:
  "plugin_calls [] = 0" "plugin_calls (hs @ hs') = plugin_calls hs + plugin_calls hs'"
  "plugin_calls (x # hs) = (if is_plugin_call x then 1 else 0) + plugin_calls hs"
  by (simp_all add: plugin_calls_def)

lemma handle_jobs_simps [simp]:
  "handle_jobs [] = 0" "handle_jobs (p # ps) = (if is_handle_job p then 1 else 0) + handle_jobs ps"
  by (simp_all add: handle_jobs_def)

lemma handle_jobs_remove1:
  "p \<in> set ps \<Longrightarrow> handle_jobs ps = (if is_handle_job p then 1 else 0) + handle_jobs (remove1 p ps)"
  by (induction ps) auto

definition same_settings :: "('q, 'p, 'h) conn \<Rightarrow> ('q, 'p, 'h) conn \<Rightarrow> bool" where
  "same_settings s t \<longleftrightarrow>
     itsCounted t = itsCounted s \<and> itsEncryptionEnabled t = itsEncryptionEnabled s \<and>
     itsMaxKeepAliveRequests t = itsMaxKeepAliveRequests s \<and>
     itsMaxRequestSize t = itsMaxRequestSize s \<and> itsMaxHeaderSize t = itsMaxHeaderSize s \<and>
     itsTimeout t = itsTimeout s \<and> itsKeepAliveTimeout t = itsKeepAliveTimeout s \<and>
     itsKeepAliveEnabled t = itsKeepAliveEnabled s \<and> destroyed t = destroyed s"

definition extends :: "('q, 'p, 'h) conn \<Rightarrow> ('q, 'p, 'h) conn \<Rightarrow> bool" where
  "extends s t \<longleftrightarrow>
     (socketOpen t \<longrightarrow> socketOpen s) \<and> (hasTimedOut s \<longrightarrow> hasTimedOut t) \<and>
     (\<exists>w. wire t = wire s @ w \<and> (socketOpen s \<or> w = [])) \<and>
     (\<exists>h. hooks t = hooks s @ h) \<and> (\<exists>r. reports t = reports s @ r)"

text \<open>
  What the fields hold: the version to answer with is one of two, and what is kept of the
  client's data is counted and within the limit on the size of a request.
\<close>

definition well_formed :: "('q, 'p, 'h) conn \<Rightarrow> bool" where
  "well_formed s \<longleftrightarrow>
     (itsResponseVersion s = ''1.0'' \<or> itsResponseVersion s = ''1.1'') \<and>
     length (itsBuffer s) \<le> itsReceivedBytes s \<and>
     (itsMaxRequestSize s \<noteq> 0 \<longrightarrow> length (itsBuffer s) \<le> itsMaxRequestSize s)"

lemma well_formed_frame [simp, frame]:
  "well_formed (s\<lparr>itsTimerGeneration := x0\<rparr>) = well_formed s"
  "well_formed (s\<lparr>itsRequest := x1\<rparr>) = well_formed s"
  "well_formed (s\<lparr>itsResponse := x2\<rparr>) = well_formed s"
  "well_formed (s\<lparr>itsResponseString := x3\<rparr>) = well_formed s"
  "well_formed (s\<lparr>itsPendingHeaders := x4\<rparr>) = well_formed s"
  "well_formed (s\<lparr>itsRequestCount := x5\<rparr>) = well_formed s"
  "well_formed (s\<lparr>itsKeepAlive := x6\<rparr>) = well_formed s"
  "well_formed (s\<lparr>itsIdle := x7\<rparr>) = well_formed s"
  "well_formed (s\<lparr>itsCounted := x8\<rparr>) = well_formed s"
  "well_formed (s\<lparr>hasTimedOut := x9\<rparr>) = well_formed s"
  "well_formed (s\<lparr>itsQueryIsFast := x10\<rparr>) = well_formed s"
  "well_formed (s\<lparr>itsAdminQuery := x11\<rparr>) = well_formed s"
  "well_formed (s\<lparr>itsFinalStatus := x12\<rparr>) = well_formed s"
  "well_formed (s\<lparr>itsSentBytes := x13\<rparr>) = well_formed s"
  "well_formed (s\<lparr>itsTotalStreamedBytes := x14\<rparr>) = well_formed s"
  "well_formed (s\<lparr>itsBackendNotified := x15\<rparr>) = well_formed s"
  "well_formed (s\<lparr>itsHeadRequest := x16\<rparr>) = well_formed s"
  "well_formed (s\<lparr>itsExpectHandled := x17\<rparr>) = well_formed s"
  "well_formed (s\<lparr>itsDeclaredContentLength := x18\<rparr>) = well_formed s"
  "well_formed (s\<lparr>itsPrematurelyDisconnected := x19\<rparr>) = well_formed s"
  "well_formed (s\<lparr>socketOpen := x20\<rparr>) = well_formed s"
  "well_formed (s\<lparr>tcpNoDelay := x21\<rparr>) = well_formed s"
  "well_formed (s\<lparr>lockHeld := x22\<rparr>) = well_formed s"
  "well_formed (s\<lparr>deadlocked := x23\<rparr>) = well_formed s"
  "well_formed (s\<lparr>timerSeconds := x24\<rparr>) = well_formed s"
  "well_formed (s\<lparr>pending := x25\<rparr>) = well_formed s"
  "well_formed (s\<lparr>wire := x26\<rparr>) = well_formed s"
  "well_formed (s\<lparr>hooks := x27\<rparr>) = well_formed s"
  "well_formed (s\<lparr>reports := x28\<rparr>) = well_formed s"
  by (simp_all add: well_formed_def)

definition evolves :: "u64 \<Rightarrow> nat \<Rightarrow> ('q, 'p, 'h) conn \<Rightarrow> ('q, 'p, 'h) conn \<Rightarrow> bool" where
  "evolves k n s t \<longleftrightarrow>
     same_settings s t \<and> extends s t \<and> itsRequestCount t = itsRequestCount s + k \<and>
     served t \<le> served s + n \<and> (well_formed s \<longrightarrow> well_formed t)"

lemma evolves_refl [simp, intro]: "evolves 0 0 s s"
  by (simp add: evolves_def same_settings_def extends_def)

text \<open>The other fields may change.\<close>

lemma evolves_frame [simp, frame]:
  "evolves k n s (t\<lparr>itsTimerGeneration := x1\<rparr>) = evolves k n s t"
  "evolves k n s (t\<lparr>itsRequest := x3\<rparr>) = evolves k n s t"
  "evolves k n s (t\<lparr>itsResponse := x4\<rparr>) = evolves k n s t"
  "evolves k n s (t\<lparr>itsResponseString := x6\<rparr>) = evolves k n s t"
  "evolves k n s (t\<lparr>itsPendingHeaders := x7\<rparr>) = evolves k n s t"
  "evolves k n s (t\<lparr>itsKeepAlive := x8\<rparr>) = evolves k n s t"
  "evolves k n s (t\<lparr>itsIdle := x10\<rparr>) = evolves k n s t"
  "evolves k n s (t\<lparr>itsQueryIsFast := x11\<rparr>) = evolves k n s t"
  "evolves k n s (t\<lparr>itsAdminQuery := x12\<rparr>) = evolves k n s t"
  "evolves k n s (t\<lparr>itsFinalStatus := x13\<rparr>) = evolves k n s t"
  "evolves k n s (t\<lparr>itsSentBytes := x14\<rparr>) = evolves k n s t"
  "evolves k n s (t\<lparr>itsTotalStreamedBytes := x15\<rparr>) = evolves k n s t"
  "evolves k n s (t\<lparr>itsBackendNotified := x16\<rparr>) = evolves k n s t"
  "evolves k n s (t\<lparr>itsHeadRequest := x17\<rparr>) = evolves k n s t"
  "evolves k n s (t\<lparr>itsExpectHandled := x18\<rparr>) = evolves k n s t"
  "evolves k n s (t\<lparr>itsDeclaredContentLength := x19\<rparr>) = evolves k n s t"
  "evolves k n s (t\<lparr>itsPrematurelyDisconnected := x20\<rparr>) = evolves k n s t"
  "evolves k n s (t\<lparr>lockHeld := x21\<rparr>) = evolves k n s t"
  "evolves k n s (t\<lparr>deadlocked := x22\<rparr>) = evolves k n s t"
  "evolves k n s (t\<lparr>timerSeconds := x23\<rparr>) = evolves k n s t"
  by (simp_all add: evolves_def same_settings_def extends_def)

named_theorems evolves_intro "operations along which a connection evolves"

lemma evolves_basic [evolves_intro]:
  "evolves k n s t \<Longrightarrow> evolves k n s (t\<lparr>hasTimedOut := True\<rparr>)"
  "evolves k n s t \<Longrightarrow> evolves k n s (closeSocket t)"
  "evolves k n s t \<Longrightarrow> evolves k n s (add_report sev sp m t)"
  "evolves k n s t \<Longrightarrow> \<not> is_handle_job p \<Longrightarrow> evolves k n s (add_pending p t)"
  by (auto simp: evolves_def same_settings_def extends_def closeSocket_def
      add_report_def add_pending_def)

lemma evolves_version [evolves_intro]:
  assumes "evolves k n s t" "v = ''1.0'' \<or> v = ''1.1''"
  shows "evolves k n s (t\<lparr>itsResponseVersion := v\<rparr>)"
proof -
  have "well_formed t \<Longrightarrow> well_formed (t\<lparr>itsResponseVersion := v\<rparr>)"
    using assms(2) by (simp add: well_formed_def)
  with assms(1) show ?thesis by (simp add: evolves_def same_settings_def extends_def)
qed

lemma evolves_hook [evolves_intro]:
  "evolves k n s t \<Longrightarrow> \<not> is_plugin_call x \<Longrightarrow> hs = hooks t \<Longrightarrow> evolves k n s (t\<lparr>hooks := hs @ [x]\<rparr>)"
  by (auto simp: evolves_def same_settings_def extends_def)

lemma evolves_sync_write [evolves_intro]:
  "evolves k n s t \<Longrightarrow> evolves k n s (fst (sync_write a d t))"
  by (auto simp: evolves_def same_settings_def extends_def sync_write_def)

lemma evolves_reports [evolves_intro]:
  "evolves k n s t \<Longrightarrow> evolves k n s (reportInfo sp m t)"
  "evolves k n s t \<Longrightarrow> evolves k n s (reportError sp m t)"
  unfolding reportInfo_def reportError_def by (rule evolves_basic(3), assumption)+

lemma evolves_header [simp, frame]:
  "evolves k n s (set_header sp h v t) = evolves k n s t"
  "evolves k n s (remove_header sp h t) = evolves k n s t"
  by (simp_all add: set_header_def remove_header_def)

lemma evolves_reshapes: "reshapes t u \<Longrightarrow> evolves k n s t \<Longrightarrow> evolves k n s u"
  by (auto simp: reshapes_def)

lemma evolves_setServerHeaders [evolves_intro]:
  "evolves k n s t \<Longrightarrow> evolves k n s (setServerHeaders sp e t)"
  using evolves_reshapes reshapes_setServerHeaders[OF reshapesI(1)] by blast

lemma evolves_armTimer [evolves_intro]: "evolves k n s t \<Longrightarrow> evolves k n s (armTimer x t)"
  by (auto simp: armTimer_def Let_def intro!: evolves_intro)

lemma evolves_cancelTimer [evolves_intro]: "evolves k n s t \<Longrightarrow> evolves k n s (cancelTimer t)"
  by (auto simp: cancelTimer_def)

lemma evolves_startRead [evolves_intro]: "evolves k n s t \<Longrightarrow> evolves k n s (startRead t)"
  by (auto simp: startRead_def intro!: evolves_intro)

lemma evolves_finishResponse [evolves_intro]:
  "evolves k n s t \<Longrightarrow> evolves k n s (finishResponse sp e t)"
  by (auto simp: finishResponse_def Let_def intro!: evolves_intro)

lemma evolves_sendSimpleReply [evolves_intro]:
  "evolves k n s t \<Longrightarrow> evolves k n s (sendSimpleReply sp e t)"
  by (auto simp: sendSimpleReply_def Let_def split_beta split: option.splits intro!: evolves_intro)

lemma evolves_sendStockReply [evolves_intro]:
  "evolves k n s t \<Longrightarrow> evolves k n s (sendStockReply sp e st t)"
  by (auto simp: sendStockReply_def Let_def intro!: evolves_intro)

lemma evolves_flushPendingHeaders [evolves_intro]:
  "evolves k n s t \<Longrightarrow> evolves k n s (snd (flushPendingHeaders sp e t))"
  by (auto simp: flushPendingHeaders_def Let_def split_beta intro!: evolves_intro)

lemma evolves_logging [evolves_intro]:
  "evolves k n s t \<Longrightarrow> evolves k n s (finalizeStreamLogging sp t)"
  "evolves k n s t \<Longrightarrow> evolves k n s (notifyBackendFinished sp st t)"
  by (auto simp: finalizeStreamLogging_def notifyBackendFinished_def split_beta intro!: evolves_intro)

lemma evolves_scheduleChunk [evolves_intro]:
  "evolves k n s t \<Longrightarrow> evolves k n s (scheduleChunkGetter sp e t)"
  "evolves k n s t \<Longrightarrow> evolves k n s (scheduleChunkedChunkGetter sp e t)"
  by (auto simp: scheduleChunkGetter_def scheduleChunkedChunkGetter_def Let_def intro!: evolves_intro)

lemma evolves_async_write [evolves_intro]:
  "evolves k n s t \<Longrightarrow> evolves k n s (async_write_some w off t)"
  by (auto simp: async_write_some_def intro!: evolves_intro)

lemma evolves_write_handler [evolves_intro]:
  "evolves k n s t \<Longrightarrow> evolves k n s (write_handler sp e w err m t)"
  by (cases w)
    (auto simp: writeRegularReply_def writeStreamReply_def writeChunkedReply_def
      finalizeChunkedReply_def Let_def intro!: evolves_intro)

lemma evolves_getNextChunk [evolves_intro]:
  "evolves k n s t \<Longrightarrow> evolves k n s (getNextChunk sp e t)"
  by (auto simp: getNextChunk_def Let_def split_beta intro!: evolves_intro)

lemma evolves_getNextChunkedChunk [evolves_intro]:
  "evolves k n s t \<Longrightarrow> evolves k n s (getNextChunkedChunk sp e t)"
  by (auto simp: getNextChunkedChunk_def Let_def split_beta intro!: evolves_intro)

lemma evolves_preparePendingHeaders [evolves_intro]:
  "evolves k n s t \<Longrightarrow> evolves k n s (snd (preparePendingHeaders sp t))"
  by (auto simp: preparePendingHeaders_def Let_def split: option.splits intro!: evolves_intro)

lemma evolves_start_streams [evolves_intro]:
  "evolves k n s t \<Longrightarrow> evolves k n s (startGatewayReply sp e t)"
  "evolves k n s t \<Longrightarrow> evolves k n s (startChunkedReply sp e t)"
  "evolves k n s t \<Longrightarrow> evolves k n s (startStreamReply sp e t)"
  by (auto simp: startGatewayReply_def startChunkedReply_def startStreamReply_def Let_def split_beta
      intro!: evolves_intro)

lemma evolves_shape_response [evolves_intro]:
  "evolves k n s t \<Longrightarrow> evolves k n s (encode_response sp t)"
  "evolves k n s t \<Longrightarrow> evolves k n s (frame_response sp t)"
  by (auto simp: encode_response_def frame_response_def Let_def split: option.splits)

lemma evolves_startRegularReply [evolves_intro]:
  "evolves k n s t \<Longrightarrow> evolves k n s (startRegularReply sp e t)"
  by (auto simp: startRegularReply_def Let_def split_beta split: option.splits intro!: evolves_intro)

lemma evolves_start_reply [evolves_intro]:
  "evolves k n s t \<Longrightarrow> evolves k n s (start_reply sp e t)"
  by (auto simp: start_reply_def intro!: evolves_intro)

lemma evolves_end_handling [evolves_intro]:
  "evolves k n s t \<Longrightarrow> evolves k n s (end_handling sp e h r ok t)"
  by (auto simp: end_handling_def Let_def split: option.splits intro!: evolves_intro)

lemma evolves_plugin_call:
  "evolves k n s t \<Longrightarrow> evolves k (Suc n) s (t\<lparr>hooks := hooks t @ [Plugin_called name]\<rparr>)"
  by (auto simp: evolves_def same_settings_def extends_def)

lemma evolves_begin_handling:
  "evolves k n s t \<Longrightarrow> evolves k (Suc n) s (begin_handling sp h t)"
  unfolding begin_handling_def Let_def
  by (rule evolves_plugin_call) (auto intro!: evolves_intro)

lemma evolves_weaken: "evolves k n s t \<Longrightarrow> n \<le> m \<Longrightarrow> evolves k m s t"
  by (auto simp: evolves_def)

lemma evolves_handleCompletedRead:
  assumes "evolves k n s t" shows "evolves k (Suc n) s (handleCompletedRead sp e srv h t)"
proof -
  have c: "evolves k n s (cancelTimer t)" using assms by (rule evolves_cancelTimer)
  have b: "evolves k (Suc n) s (begin_handling sp h (cancelTimer t))"
    by (rule evolves_begin_handling[OF c])
  have "evolves k (Suc n) s (case x of None \<Rightarrow> begin_handling sp h (cancelTimer t)
      | Some (q, p, ok) \<Rightarrow> end_handling sp e h r ok
          (begin_handling sp h (cancelTimer t)\<lparr>itsRequest := q, itsResponse := p\<rparr>))" for x r
    using b by (auto split: option.split intro: evolves_intro)
  moreover have "evolves k (Suc n) s (reportInfo sp m (cancelTimer t))" "evolves k (Suc n) s (cancelTimer t)" for m
    using evolves_weaken[OF c] by (auto intro: evolves_intro)
  ultimately show ?thesis unfolding handleCompletedRead_def Let_def by (simp only: split: if_split) simp
qed

lemma evolves_resolveClientIP [evolves_intro]:
  "evolves k n s t \<Longrightarrow> evolves k n s (snd (resolveClientIP sp e srv t))"
  by (auto simp: resolveClientIP_def split: option.splits intro!: evolves_intro)

lemma evolves_rewrite [evolves_intro]:
  "evolves k n s t \<Longrightarrow> evolves k n s (stripHopByHopHeaders sp t)"
  "evolves k n s t \<Longrightarrow> evolves k n s (take_head_method sp t)"
  by (auto simp: stripHopByHopHeaders_def take_head_method_def Let_def)

lemma evolves_add_handle_job:
  "evolves k n s t \<Longrightarrow> evolves k (Suc n) s (add_pending p t)"
  by (auto simp: evolves_def same_settings_def extends_def add_pending_def)

lemma evolves_scheduleRequest:
  "evolves k n s t \<Longrightarrow> evolves k (Suc n) s (scheduleRequest sp e h t)"
  by (auto simp: scheduleRequest_def Let_def
      intro!: evolves_add_handle_job evolves_reports evolves_sendStockReply
      intro: evolves_weaken)

lemma evolves_route_request:
  "evolves k n s t \<Longrightarrow> evolves k (Suc n) s (route_request sp e t)"
  by (auto simp: route_request_def Let_def split: option.splits
      intro!: evolves_scheduleRequest evolves_sendStockReply evolves_sendSimpleReply
        evolves_setServerHeaders
      intro: evolves_weaken)

lemma negotiateVersion_range: "negotiateVersion sp v = ''1.0'' \<or> negotiateVersion sp v = ''1.1''"
  by (simp add: negotiateVersion_def split: option.split)

lemma evolves_negotiate:
  assumes "evolves k n s t" shows "evolves (k + 1) n s (negotiate sp e t)"
proof -
  have "evolves (k + 1) n s (t\<lparr>itsRequestCount := itsRequestCount t + 1\<rparr>)"
    using assms by (simp add: evolves_def same_settings_def extends_def)
  from evolves_version[OF this negotiateVersion_range] show ?thesis
    by (simp add: negotiate_def Let_def)
qed

text \<open>A read takes at most one request, and queues at most one plugin call for it.\<close>

definition reads :: "('q, 'p, 'h) conn \<Rightarrow> ('q, 'p, 'h) conn \<Rightarrow> bool" where
  "reads s t \<longleftrightarrow> evolves 0 0 s t \<or> evolves 1 (Suc 0) s t"

lemma reads_none: "evolves 0 0 s t \<Longrightarrow> reads s t"
  by (simp add: reads_def)

lemma reads_handleParsedRequest:
  assumes "evolves 0 0 s t" shows "reads s (handleParsedRequest sp e srv t)"
proof -
  obtain resolved u where u: "resolveClientIP sp e srv t = (resolved, u)" by force
  have r: "evolves 0 0 s u" using evolves_resolveClientIP[OF assms, of sp e srv] u by simp
  have n: "evolves 1 0 s (negotiate sp e u)" using evolves_negotiate[OF r] by simp
  have "evolves 1 0 s (take_head_method sp (stripHopByHopHeaders sp (negotiate sp e u)))"
    using n by (intro evolves_rewrite)
  then have "evolves 1 (Suc 0) s (route_request sp e
      (take_head_method sp (stripHopByHopHeaders sp (negotiate sp e u))))"
    by (rule evolves_route_request)
  moreover have "evolves 1 (Suc 0) s (negotiate sp e u)" using n by (rule evolves_weaken) simp
  ultimately show ?thesis
    using r by (auto simp: handleParsedRequest_def u Let_def reads_def intro!: evolves_intro)
qed

lemma evolves_handleExpectContinue [evolves_intro]:
  "evolves k n s t \<Longrightarrow> evolves k n s (snd (handleExpectContinue sp e t))"
  by (auto simp: handleExpectContinue_def Let_def split_beta intro!: evolves_intro)

lemma evolves_handleIncompleteRequest [evolves_intro]:
  "evolves k n s t \<Longrightarrow> evolves k n s (handleIncompleteRequest sp e t)"
  by (auto simp: handleIncompleteRequest_def Let_def split_beta intro!: evolves_intro)

text \<open>Receiving: what is kept of the buffer fits, and only then is it appended.\<close>

lemma evolves_received:
  assumes "evolves k n s t" shows "evolves k n s (t\<lparr>itsReceivedBytes := itsReceivedBytes t + m\<rparr>)"
proof -
  have "well_formed t \<Longrightarrow> well_formed (t\<lparr>itsReceivedBytes := itsReceivedBytes t + m\<rparr>)"
    by (simp add: well_formed_def)
  with assms show ?thesis by (simp add: evolves_def same_settings_def extends_def)
qed

lemma evolves_buffered:
  assumes "evolves k n s t"
    and "\<not> (0 < itsMaxRequestSize t \<and> itsReceivedBytes t + length bytes > itsMaxRequestSize t)"
  shows "evolves k n s (t\<lparr>itsReceivedBytes := itsReceivedBytes t + length bytes,
    itsBuffer := itsBuffer t @ bytes\<rparr>)"
proof -
  have "well_formed t \<Longrightarrow> well_formed (t\<lparr>itsReceivedBytes := itsReceivedBytes t + length bytes,
      itsBuffer := itsBuffer t @ bytes\<rparr>)"
    using assms(2) by (auto simp: well_formed_def)
  with assms(1) show ?thesis by (simp add: evolves_def same_settings_def extends_def)
qed

lemma evolves_consumed:
  assumes "evolves k n s t"
  shows "evolves k n s (t\<lparr>itsBuffer := drop m (itsBuffer t),
    itsReceivedBytes := length (drop m (itsBuffer t))\<rparr>)"
proof -
  have "well_formed t \<Longrightarrow> well_formed (t\<lparr>itsBuffer := drop m (itsBuffer t),
      itsReceivedBytes := length (drop m (itsBuffer t))\<rparr>)"
    by (simp add: well_formed_def) linarith
  with assms show ?thesis by (simp add: evolves_def same_settings_def extends_def)
qed

lemma reads_receive:
  assumes "evolves 0 0 s t" shows "reads s (receive sp e srv bytes t)"
proof -
  let ?t = "t\<lparr>itsReceivedBytes := itsReceivedBytes t + length bytes\<rparr>"
  let ?parsed = "parseOneRequest sp (itsBuffer t @ bytes)"
  show ?thesis
  proof (cases "0 < itsMaxRequestSize t \<and> itsReceivedBytes t + length bytes > itsMaxRequestSize t")
    case True
    have "evolves 0 0 s (sendStockReply sp e request_entity_too_large
        (reportError sp ''413 Entity too large'' ?t))"
      by (intro evolves_sendStockReply evolves_reports evolves_received assms)
    with True show ?thesis by (simp add: receive_def Let_def reads_none)
  next
    case False
    define b where "b = itsBuffer t @ bytes"
    define u where "u = ?t\<lparr>itsBuffer := b\<rparr>"
    have u: "evolves 0 0 s u" unfolding u_def b_def by (intro evolves_buffered assms False)
    define v where "v = u\<lparr>itsRequest := pr_request ?parsed\<rparr>"
    have "evolves 0 0 s v" using u by (simp add: v_def)
    note v = reads_handleParsedRequest[OF evolves_consumed[OF this, of "pr_consumed ?parsed"], of sp e srv]
    have "receive sp e srv bytes t = (case pr_status ?parsed of
        COMPLETE \<Rightarrow> handleParsedRequest sp e srv (v\<lparr>itsBuffer := drop (pr_consumed ?parsed) (itsBuffer v),
          itsReceivedBytes := length (drop (pr_consumed ?parsed) (itsBuffer v))\<rparr>)
      | FAILED \<Rightarrow> sendStockReply sp e bad_request u
      | INCOMPLETE \<Rightarrow> handleIncompleteRequest sp e u)"
      using False
      by (simp add: receive_def Let_def u_def v_def flip: b_def split: parsing_status.split) auto
    with v u show ?thesis
      by (cases "pr_status ?parsed")
        (auto intro!: evolves_sendStockReply evolves_handleIncompleteRequest intro: reads_none)
  qed
qed

lemma reads_handleRead:
  assumes "evolves 0 0 s t" shows "reads s (handleRead sp e srv err bytes t)"
  using assms
  by (auto simp: handleRead_def handleReadError_def Let_def
      intro!: reads_receive evolves_sendStockReply evolves_armTimer evolves_reports
      intro: reads_none)

lemma evolves_handleTimer: "evolves k n s t \<Longrightarrow> evolves k n s (handleTimer sp e err g t)"
  by (auto simp: handleTimer_def Let_def intro!: evolves_intro)

lemma evolves_handleHandshake: "evolves k n s t \<Longrightarrow> evolves k n s (handleHandshake err t)"
  by (auto simp: handleHandshake_def intro!: evolves_intro)

lemma evolves_notifyClientDisconnect:
  "evolves k n s t \<Longrightarrow> evolves k n s (notifyClientDisconnect err t)"
  by (auto simp: notifyClientDisconnect_def intro!: evolves_intro)

subsection \<open>Steps\<close>

lemma complete_evolves:
  assumes "p \<in> set (pending s)" "\<not> is_handle_job p" shows "evolves 0 0 s (complete p s)"
  using handle_jobs_remove1[OF assms(1)] assms(2)
  by (simp add: evolves_def same_settings_def extends_def complete_def)

lemma complete_handle_job:
  assumes "p \<in> set (pending s)" "is_handle_job p" "evolves 0 (Suc 0) (complete p s) t"
  shows "evolves 0 0 s t"
  using handle_jobs_remove1[OF assms(1)] assms(2,3)
  by (simp add: evolves_def same_settings_def extends_def complete_def)

lemma written_evolves:
  assumes "Pending_write w off \<in> set (pending s)" "event_ok (Write_done w off err n) s"
  shows "evolves 0 0 s (written w off n s)"
  using handle_jobs_remove1[OF assms(1)] assms(2)
  by (auto simp: evolves_def same_settings_def extends_def written_def split: if_splits)

text \<open>Only a completed read, or the buffered request after it, takes a request.\<close>

lemma conn_step_evolves:
  assumes "conn_step sp srv s (e, ev) t"
  shows "evolves 0 0 s t \<or>
    evolves 1 (Suc 0) s t \<and> (Pending_read \<in> set (pending s) \<or> Pending_posted \<in> set (pending s))"
proof -
  have mem: "operation_of ev \<in> set (pending s)" and ok: "event_ok ev s"
    and t: "t = run_handler sp e srv ev s"
    using assms by (auto simp: conn_step_iff dispatch_def split: if_splits)
  show ?thesis
  proof (cases ev)
    case (Handshake_done err)
    with mem show ?thesis by (simp add: t evolves_handleHandshake complete_evolves)
  next
    case (Read_done err bytes)
    with mem reads_handleRead[OF complete_evolves[of Pending_read s]] show ?thesis
      by (auto simp: t reads_def)
  next
    case Posted_run
    with mem reads_handleRead[OF complete_evolves[of Pending_posted s]] show ?thesis
      by (auto simp: t reads_def)
  next
    case (Disconnect_read_done err)
    with mem show ?thesis by (simp add: t evolves_notifyClientDisconnect complete_evolves)
  next
    case (Write_done w off err n)
    with mem ok show ?thesis by (simp add: t evolves_write_handler written_evolves del: event_ok.simps)
  next
    case (Timer_fired generation err)
    with mem show ?thesis by (simp add: t evolves_handleTimer complete_evolves)
  next
    case (Job_run pool j)
    show ?thesis
    proof (cases j)
      case (Handle_request h)
      with Job_run mem have "evolves 0 0 s t"
        using complete_handle_job[of "Pending_job pool j" s]
          evolves_handleCompletedRead[OF evolves_refl, of "complete (Pending_job pool j) s" sp e srv h]
        by (simp add: t Let_def)
      then show ?thesis ..
    next
      case Next_chunk
      with Job_run mem show ?thesis
        by (simp add: t Let_def evolves_getNextChunk complete_evolves)
    next
      case Next_chunked_chunk
      with Job_run mem show ?thesis
        by (simp add: t Let_def evolves_getNextChunkedChunk complete_evolves)
    qed
  qed
qed

lemma step_evolves:
  assumes "conn_step sp srv s x t"
  obtains k n where "evolves k n s t"
  using conn_step_evolves[of sp srv s "fst x" "snd x" t] assms by auto

text \<open>Calls of plugins, made and queued, against requests.\<close>

definition serve_inv :: "('q, 'p, 'h) spine \<Rightarrow> ('q, 'p, 'h) conn \<Rightarrow> bool" where
  "serve_inv sp s \<longleftrightarrow> conn_inv sp s \<and>
     (itsMaxKeepAliveRequests s \<noteq> 0 \<longrightarrow> served s \<le> unat (itsRequestCount s))"

lemma serve_inv_step:
  assumes "serve_inv sp s" "conn_step sp srv s x t" shows "serve_inv sp t"
proof -
  obtain e ev where x: "x = (e, ev)" by force
  have "conn_inv sp s" using assms(1) by (simp add: serve_inv_def)
  then have inv: "conn_inv sp s" "conn_inv sp t" using conn_inv_step[OF _ assms(2)] by auto
  from conn_step_evolves[OF assms(2)[unfolded x]] show ?thesis
  proof
    assume "evolves 0 0 s t"
    then show ?thesis using assms(1) inv by (auto simp: serve_inv_def evolves_def same_settings_def)
  next
    assume a: "evolves 1 (Suc 0) s t \<and> (Pending_read \<in> set (pending s) \<or> Pending_posted \<in> set (pending s))"
    then have "may_serve s"
      using conn_inv_single(2)[OF inv(1), of Pending_read] conn_inv_single(2)[OF inv(1), of Pending_posted]
      by (auto simp: awaiting_def)
    then have "unat (itsRequestCount s + 1) = Suc (unat (itsRequestCount s))"
      if "itsMaxKeepAliveRequests s \<noteq> 0"
      using that by (simp add: may_serve_def unat_Suc_of_less)
    then show ?thesis
      using a assms(1) inv by (auto simp: serve_inv_def evolves_def same_settings_def)
  qed
qed

lemma serve_inv_start:
  assumes "conn_start sp srv s" shows "serve_inv sp s"
proof -
  have n: "served (new_connection sp srv) = 0" by (simp add: new_connection_eq)
  have "served s = 0" using assms
  proof cases
    case (started e count)
    then show ?thesis
      by (auto simp: start_def registerConnection_def armTimer_def add_pending_def startRead_def
          Let_def new_connection_eq)
  next
    case (rejected e)
    have "evolves 0 0 (new_connection sp srv) s"
      unfolding rejected rejectConnection_def
      by (intro evolves_sendStockReply evolves_version) simp_all
    then show ?thesis using n by (simp add: evolves_def)
  qed
  then show ?thesis using conn_inv_start[OF assms] by (simp add: serve_inv_def)
qed

interpretation requests: inductive_invariant
  "conn_start sp srv" "conn_step sp srv" "serve_inv sp"
  for sp :: "('q, 'p, 'h) spine" and srv
  by unfold_locales (auto intro: serve_inv_start serve_inv_step)

text \<open>The values of the fields, in the reachable states.\<close>

lemma well_formed_new: "well_formed (new_connection sp srv)"
  by (simp add: well_formed_def new_connection_eq)

lemma well_formed_start: "conn_start sp srv s \<Longrightarrow> well_formed s"
proof (induction rule: conn_start.induct)
  case (started e count)
  then show ?case
    using well_formed_new[of sp srv]
    by (auto simp: start_def registerConnection_def armTimer_def add_pending_def startRead_def
        Let_def well_formed_def)
next
  case (rejected e)
  have "evolves 0 0 (new_connection sp srv) (rejectConnection sp e (new_connection sp srv))"
    unfolding rejectConnection_def by (intro evolves_sendStockReply evolves_version) simp_all
  then show ?case using well_formed_new[of sp srv] by (simp add: evolves_def)
qed

interpretation fields_ok: inductive_invariant "conn_start sp srv" "conn_step sp srv" well_formed
  for sp :: "('q, 'p, 'h) spine" and srv
proof (unfold_locales, goal_cases)
  case (1 s)
  then show ?case by (rule well_formed_start)
next
  case (2 s x t)
  from 2(2) obtain k n where "evolves k n s t" by (rule step_evolves)
  with 2(1) show ?case by (simp add: evolves_def)
qed

end
