(* ===== verification/Conn_Writes.thy ===== *)
theory Conn_Writes
  imports Conn_Evolution
begin

text \<open>
  What the client receives. The write handlers share a contract, stated by the locale
  \<open>partial_writer\<close>: however the socket splits the writes, the whole of \<open>itsResponseString\<close>
  goes out once and in order, and then the handler goes on. The two loops over a stream
  share another, \<open>chunk_source\<close>, which extends it: the framed chunks of the stream go out in
  order behind the header section.
\<close>

subsection \<open>Runs\<close>

fun run_events ::
  "('q, 'p, 'h) spine \<Rightarrow> server \<Rightarrow> (('q, 'p, 'h) env \<times> 'h event) list \<Rightarrow> ('q, 'p, 'h) conn \<Rightarrow>
   ('q, 'p, 'h) conn option" where
  "run_events sp srv [] s = Some s"
| "run_events sp srv ((e, ev) # evs) s =
     (case dispatch sp srv e ev s of None \<Rightarrow> None | Some s' \<Rightarrow> run_events sp srv evs s')"

lemma run_events_append:
  "run_events sp srv (xs @ ys) s =
     (case run_events sp srv xs s of None \<Rightarrow> None | Some t \<Rightarrow> run_events sp srv ys t)"
  by (induction xs arbitrary: s) (auto split: option.splits)

text \<open>A run of events is a sequence of steps.\<close>

lemma run_events_reach:
  "reachable sp srv s \<Longrightarrow> run_events sp srv evs s = Some t \<Longrightarrow> reachable sp srv t"
proof (induction evs arbitrary: s)
  case (Cons x evs)
  obtain e ev where x: "x = (e, ev)" by force
  with Cons.prems obtain s' where "dispatch sp srv e ev s = Some s'" "run_events sp srv evs s' = Some t"
    by (auto split: option.splits)
  then show ?case using Cons.IH Cons.prems(1) by (meson handler_step reach_step)
qed simp

text \<open>The completions of the writes that send a buffer in pieces of the given sizes.\<close>

fun write_events ::
  "('q, 'p, 'h) env \<Rightarrow> writer \<Rightarrow> nat \<Rightarrow> nat list \<Rightarrow> (('q, 'p, 'h) env \<times> 'h event) list" where
  "write_events e w off [] = []"
| "write_events e w off (n # ns) = (e, Write_done w off Success n) # write_events e w (off + n) ns"

subsection \<open>Writing a buffer in pieces\<close>

locale partial_writer =
  fixes sp :: "('q, 'p, 'h) spine"
    and w :: writer
    and go_on :: "('q, 'p, 'h) env \<Rightarrow> ('q, 'p, 'h) conn \<Rightarrow> ('q, 'p, 'h) conn"
  assumes writes_rest: "itsSentBytes s + n < length (itsResponseString s) \<Longrightarrow>
      write_handler sp e w Success n s =
        async_write_some w (itsSentBytes s + n)
          (s\<lparr>itsFinalStatus := Success, itsSentBytes := itsSentBytes s + n\<rparr>)"
    and writes_done: "\<not> itsSentBytes s + n < length (itsResponseString s) \<Longrightarrow>
      write_handler sp e w Success n s =
        go_on e (s\<lparr>itsFinalStatus := Success, itsSentBytes := itsSentBytes s + n\<rparr>)"
begin

lemma writes_all:
  assumes "Pending_write w (itsSentBytes s) \<in> set (pending s)" "socketOpen s"
    and "ns \<noteq> []" "\<forall>n \<in> set ns. 0 < n" "itsSentBytes s + sum_list ns = length (itsResponseString s)"
  shows "run_events sp srv (write_events e w (itsSentBytes s) ns) s =
    Some (go_on e (s\<lparr>pending := remove1 (Pending_write w (itsSentBytes s)) (pending s),
      wire := wire s @ drop (itsSentBytes s) (itsResponseString s),
      itsFinalStatus := Success, itsSentBytes := length (itsResponseString s)\<rparr>))"
  using assms
proof (induction ns arbitrary: s)
  case Nil
  then show ?case by simp
next
  case (Cons n ns)
  let ?off = "itsSentBytes s" and ?r = "itsResponseString s"
  let ?ps = "remove1 (Pending_write w ?off) (pending s)"
  have n: "0 < n" "?off + n \<le> length ?r" using Cons.prems by auto
  then have d: "dispatch sp srv e (Write_done w ?off Success n) s =
      Some (write_handler sp e w Success n (written w ?off n s))"
    using Cons.prems(1,2) by (simp add: dispatch_def)
  show ?case
  proof (cases "ns = []")
    case True
    with Cons.prems(5) have "take n (drop ?off ?r) = drop ?off ?r" "?off + n = length ?r" by auto
    with d True show ?thesis
      by (simp add: writes_done written_def)
  next
    case False
    have "0 < sum_list ns" using False Cons.prems(4) by (cases ns) auto
    then have lt: "?off + n < length ?r" using Cons.prems(5) by simp
    let ?s' = "async_write_some w (?off + n)
      ((written w ?off n s)\<lparr>itsFinalStatus := Success, itsSentBytes := ?off + n\<rparr>)"
    have "write_handler sp e w Success n (written w ?off n s) = ?s'"
      using lt by (subst writes_rest) (simp_all add: written_def)
    moreover have "run_events sp srv (write_events e w (itsSentBytes ?s') ns) ?s' =
        Some (go_on e (?s'\<lparr>pending := remove1 (Pending_write w (itsSentBytes ?s')) (pending ?s'),
          wire := wire ?s' @ drop (itsSentBytes ?s') (itsResponseString ?s'),
          itsFinalStatus := Success, itsSentBytes := length (itsResponseString ?s')\<rparr>))"
      by (rule Cons.IH)
        (use Cons.prems False in \<open>simp_all add: async_write_some_def add_pending_def written_def\<close>)
    moreover have "take n (drop ?off ?r) @ drop (?off + n) ?r = drop ?off ?r"
      by (metis append_take_drop_id drop_drop add.commute)
    ultimately show ?thesis
      using d by (simp add: async_write_some_def add_pending_def written_def)
  qed
qed

end

interpretation regular_writes: partial_writer
  sp Regular_writer "\<lambda>e s. finishResponse sp e (notifyBackendFinished sp Stream_EXIT_OK s)"
  for sp :: "('q, 'p, 'h) spine"
  by unfold_locales (simp_all add: writeRegularReply_def Let_def)

interpretation final_writes: partial_writer
  sp Final_writer "\<lambda>e s. finishResponse sp e (finalizeStreamLogging sp s)"
  for sp :: "('q, 'p, 'h) spine"
  by unfold_locales (simp_all add: finalizeChunkedReply_def Let_def)

subsection \<open>Sending a stream\<close>

text \<open>A response's stream: the pieces it gives one after the other, and how it ends.\<close>

inductive streams ::
  "('q, 'p, 'h) spine \<Rightarrow> 'p \<Rightarrow> string list \<Rightarrow> streamer_status \<Rightarrow> bool" for sp where
  stream_end: "rs_getStreamingStatus sp p = st \<Longrightarrow> st \<noteq> Stream_OK \<Longrightarrow> streams sp p [] st"
| stream_piece: "rs_getStreamingStatus sp p = Stream_OK \<Longrightarrow> rs_getContent sp p = (c, p') \<Longrightarrow>
    streams sp p' cs st \<Longrightarrow> streams sp p (c # cs) st"

inductive_cases streams_ConsE: "streams sp p (c # cs) st"
inductive_cases streams_NilE: "streams sp p [] st"

text \<open>
  The events of one piece: the job that takes it and the writes that send it, in pieces of
  the given sizes (none for an empty piece). The socket and the pool accept everything.
\<close>

fun stream_events ::
  "pool \<Rightarrow> 'h job \<Rightarrow> writer \<Rightarrow> (('q, 'p, 'h) env \<times> nat list) list \<Rightarrow>
   (('q, 'p, 'h) env \<times> 'h event) list" where
  "stream_events pool j w [] = []"
| "stream_events pool j w ((e, ns) # xs) =
     (e, Job_run pool j) # write_events e w 0 ns @ stream_events pool j w xs"

definition accepts :: "pool \<Rightarrow> ('q, 'p, 'h) env \<Rightarrow> bool" where
  "accepts pool e \<longleftrightarrow> env_schedule e pool \<and> fst (env_flushWrite e) = Success"

text \<open>The sizes fit: they are positive and add up to what there is to send.\<close>

definition splits :: "nat list \<Rightarrow> string \<Rightarrow> bool" where
  "splits ns x \<longleftrightarrow> (\<forall>n \<in> set ns. 0 < n) \<and> sum_list ns = length x"

fun fits ::
  "(string \<Rightarrow> string) \<Rightarrow> pool \<Rightarrow> string \<Rightarrow> string list \<Rightarrow> (('q, 'p, 'h) env \<times> nat list) list \<Rightarrow> bool" where
  "fits frame pool headers [] xs = (xs = [])"
| "fits frame pool headers (c # cs) [] = False"
| "fits frame pool headers (c # cs) ((e, ns) # xs) =
     (accepts pool e \<and> splits ns (if c = [] then [] else headers @ frame c) \<and>
      fits frame pool [] cs xs)"

definition at_job :: "pool \<Rightarrow> 'h job \<Rightarrow> ('q, 'p, 'h) conn \<Rightarrow> bool" where
  "at_job pool j s \<longleftrightarrow> Pending_job pool j \<in> set (pending s) \<and> request_pool s = pool \<and> socketOpen s"

text \<open>What sending pieces does not touch.\<close>

definition same_request :: "('q, 'p, 'h) conn \<Rightarrow> ('q, 'p, 'h) conn \<Rightarrow> bool" where
  "same_request s t \<longleftrightarrow> itsKeepAlive t = itsKeepAlive s \<and> hasTimedOut t = hasTimedOut s \<and>
     itsDeclaredContentLength t = itsDeclaredContentLength s"

lemma request_pool_frame [simp, frame]:
  "request_pool (s\<lparr>pending := ps\<rparr>) = request_pool s"
  "request_pool (s\<lparr>itsResponse := p\<rparr>) = request_pool s"
  "request_pool (s\<lparr>wire := x\<rparr>) = request_pool s"
  "request_pool (s\<lparr>itsPendingHeaders := h\<rparr>) = request_pool s"
  "request_pool (s\<lparr>itsFinalStatus := f\<rparr>) = request_pool s"
  "request_pool (s\<lparr>itsSentBytes := n\<rparr>) = request_pool s"
  "request_pool (s\<lparr>itsTotalStreamedBytes := n\<rparr>) = request_pool s"
  "request_pool (s\<lparr>itsResponseString := x\<rparr>) = request_pool s"
  "request_pool (complete q s) = request_pool s"
  by (simp_all add: request_pool_def complete_def)

locale chunk_source = partial_writer sp w go_on
  for sp :: "('q, 'p, 'h) spine" and w go_on +
  fixes j :: "'h job"
    and frame :: "string \<Rightarrow> string"
    and getter :: "('q, 'p, 'h) env \<Rightarrow> ('q, 'p, 'h) conn \<Rightarrow> ('q, 'p, 'h) conn"
  assumes job_runs: "run_handler sp e srv (Job_run pool j) s = getter e (complete (Pending_job pool j) s)"
    and reschedules: "env_schedule e (request_pool s) \<Longrightarrow>
      go_on e s = add_pending (Pending_job (request_pool s) j) s"
    and takes_piece: "rs_getStreamingStatus sp (itsResponse s) = Stream_OK \<Longrightarrow>
      rs_getContent sp (itsResponse s) = (c, p') \<Longrightarrow> c \<noteq> [] \<Longrightarrow>
      getter e s = async_write_some w 0
        (s\<lparr>itsResponse := p', itsTotalStreamedBytes := itsTotalStreamedBytes s + length c,
           itsResponseString := itsPendingHeaders s @ frame c, itsPendingHeaders := [],
           itsSentBytes := 0\<rparr>)"
    and takes_nothing: "rs_getStreamingStatus sp (itsResponse s) = Stream_OK \<Longrightarrow>
      rs_getContent sp (itsResponse s) = ([], p') \<Longrightarrow>
      getter e s = (case flushPendingHeaders sp e (s\<lparr>itsResponse := p'\<rparr>) of
        (flushed, t) \<Rightarrow> if \<not> flushed then t else go_on e t)"
    and frame_nonempty: "c \<noteq> [] \<Longrightarrow> frame c \<noteq> []"
begin

lemma sends_piece:
  assumes "at_job pool j s" "rs_getStreamingStatus sp (itsResponse s) = Stream_OK"
    and "rs_getContent sp (itsResponse s) = (c, p')" "accepts pool e"
    and "splits ns (if c = [] then [] else itsPendingHeaders s @ frame c)"
  shows "\<exists>t. run_events sp srv ((e, Job_run pool j) # write_events e w 0 ns) s = Some t \<and>
    at_job pool j t \<and> itsResponse t = p' \<and> itsPendingHeaders t = [] \<and> same_request s t \<and>
    wire t = wire s @ itsPendingHeaders s @ (if c = [] then [] else frame c) \<and>
    itsTotalStreamedBytes t = itsTotalStreamedBytes s + length c \<and>
    remove1 (Pending_job pool j) (pending t) = remove1 (Pending_job pool j) (pending s)"
proof -
  let ?s = "complete (Pending_job pool j) s"
  have d: "dispatch sp srv e (Job_run pool j) s = Some (getter e ?s)"
    using assms(1) job_runs[of e srv pool s] by (simp add: dispatch_def at_job_def del: run_handler.simps)
  have s: "itsResponse ?s = itsResponse s" "request_pool ?s = pool" "socketOpen ?s"
    using assms(1) by (auto simp: complete_def at_job_def)
  have sched: "env_schedule e pool" and flush: "fst (env_flushWrite e) = Success"
    using assms(4) by (auto simp: accepts_def)
  show ?thesis
  proof (cases "c = []")
    case True
    with assms(5) have ns: "ns = []" by (cases ns) (auto simp: splits_def)
    let ?f = "?s\<lparr>itsResponse := p', wire := wire s @ itsPendingHeaders s, itsPendingHeaders := []\<rparr>"
    have fl: "flushPendingHeaders sp e (?s\<lparr>itsResponse := p'\<rparr>) = (True, ?f)"
      using s flush by (simp add: flushPendingHeaders_def sync_write_def complete_def)
    have "getter e ?s = add_pending (Pending_job pool j) ?f"
      using takes_nothing[of ?s p' e] assms(2,3) s True fl sched reschedules[of e ?f]
      by simp
    then show ?thesis
      using d ns True s
      by (auto simp: add_pending_def at_job_def same_request_def complete_def)
  next
    case False
    let ?g = "async_write_some w 0
        (?s\<lparr>itsResponse := p', itsTotalStreamedBytes := itsTotalStreamedBytes s + length c,
           itsResponseString := itsPendingHeaders s @ frame c, itsPendingHeaders := [],
           itsSentBytes := 0\<rparr>)"
    have g: "getter e ?s = ?g"
      using takes_piece[of ?s c p' e] assms(2,3) s False by (simp add: complete_def)
    have "run_events sp srv (write_events e w (itsSentBytes ?g) ns) ?g =
      Some (go_on e (?g\<lparr>pending := remove1 (Pending_write w (itsSentBytes ?g)) (pending ?g),
        wire := wire ?g @ drop (itsSentBytes ?g) (itsResponseString ?g),
        itsFinalStatus := Success, itsSentBytes := length (itsResponseString ?g)\<rparr>))"
      by (rule writes_all)
        (use assms(5) False s frame_nonempty[OF False] in
          \<open>auto simp: splits_def async_write_some_def add_pending_def\<close>)
    then show ?thesis
      using d g s sched False
      by (auto simp: reschedules async_write_some_def add_pending_def at_job_def
          same_request_def complete_def)
  qed
qed

text \<open>All the pieces of a stream, in order.\<close>

lemma sends_stream:
  assumes "at_job pool j s" "streams sp (itsResponse s) cs st"
    and "fits frame pool (itsPendingHeaders s) cs xs"
  shows "\<exists>t. run_events sp srv (stream_events pool j w xs) s = Some t \<and>
    at_job pool j t \<and> streams sp (itsResponse t) [] st \<and> same_request s t \<and>
    wire t @ itsPendingHeaders t =
      wire s @ itsPendingHeaders s @ concat (map frame (filter (\<lambda>c. c \<noteq> []) cs)) \<and>
    itsTotalStreamedBytes t = itsTotalStreamedBytes s + length (concat cs) \<and>
    itsPendingHeaders t = (if cs = [] then itsPendingHeaders s else []) \<and>
    remove1 (Pending_job pool j) (pending t) = remove1 (Pending_job pool j) (pending s)"
  using assms
proof (induction cs arbitrary: s xs)
  case Nil
  then show ?case by (auto simp: same_request_def)
next
  case (Cons c cs)
  from Cons.prems(3) obtain e ns ys where xs: "xs = (e, ns) # ys" by (cases xs) auto
  from Cons.prems(2) obtain p' where p: "rs_getStreamingStatus sp (itsResponse s) = Stream_OK"
    "rs_getContent sp (itsResponse s) = (c, p')" "streams sp p' cs st" by (rule streams_ConsE)
  from sends_piece[OF Cons.prems(1) p(1,2)] Cons.prems(3) xs obtain t where
    t: "run_events sp srv ((e, Job_run pool j) # write_events e w 0 ns) s = Some t"
      "at_job pool j t" "itsResponse t = p'" "itsPendingHeaders t = []" "same_request s t"
      "wire t = wire s @ itsPendingHeaders s @ (if c = [] then [] else frame c)"
      "itsTotalStreamedBytes t = itsTotalStreamedBytes s + length c"
      "remove1 (Pending_job pool j) (pending t) = remove1 (Pending_job pool j) (pending s)" by fastforce
  from Cons.IH[of t ys] t p(3) Cons.prems(3) xs obtain u where
    u: "run_events sp srv (stream_events pool j w ys) t = Some u"
      "at_job pool j u" "streams sp (itsResponse u) [] st" "same_request t u"
      "wire u @ itsPendingHeaders u =
        wire t @ itsPendingHeaders t @ concat (map frame (filter (\<lambda>c. c \<noteq> []) cs))"
      "itsTotalStreamedBytes u = itsTotalStreamedBytes t + length (concat cs)"
      "itsPendingHeaders u = []"
      "remove1 (Pending_job pool j) (pending u) = remove1 (Pending_job pool j) (pending t)"
    by (auto split: if_splits)
  have "run_events sp srv (stream_events pool j w xs) s = Some u"
    using run_events_append[of sp srv "(e, Job_run pool j) # write_events e w 0 ns"
        "stream_events pool j w ys" s] t(1) u(1) by (simp add: xs)
  then show ?case
    using u t by (auto simp: same_request_def)
qed

end

interpretation plain_stream: chunk_source
  sp Stream_writer "scheduleChunkGetter sp" Next_chunk "\<lambda>c. c" "getNextChunk sp"
  for sp :: "('q, 'p, 'h) spine"
  by unfold_locales
    (simp_all add: writeStreamReply_def scheduleChunkGetter_def getNextChunk_def Let_def split_beta)

interpretation chunked_stream: chunk_source
  sp Chunked_writer "scheduleChunkedChunkGetter sp" Next_chunked_chunk "chunk_frame sp"
  "getNextChunkedChunk sp"
  for sp :: "('q, 'p, 'h) spine"
  by unfold_locales
    (simp_all add: writeChunkedReply_def scheduleChunkedChunkGetter_def getNextChunkedChunk_def
      Let_def split_beta chunk_frame_def crlf_def)

subsection \<open>The chunked coding read back\<close>

text \<open>
  A reader of the chunked transfer coding (RFC 9112 7.1, without trailers): the size in
  hexadecimal up to the end of the line, that many bytes, the end of the line, and so on
  until a chunk of size zero. It returns the content and what follows the message.
\<close>

definition hex_digit_value :: "char \<Rightarrow> nat option" where
  "hex_digit_value c = first_index (\<lambda>x. x = to_lower c) ''0123456789abcdef''"

fun hex_value_from :: "nat \<Rightarrow> string \<Rightarrow> nat option" where
  "hex_value_from n [] = Some n"
| "hex_value_from n (c # cs) =
     (case hex_digit_value c of None \<Rightarrow> None | Some d \<Rightarrow> hex_value_from (16 * n + d) cs)"

definition hex_value :: "string \<Rightarrow> nat option" where
  "hex_value s = (if s = [] then None else hex_value_from 0 s)"

function dechunk :: "string \<Rightarrow> (string \<times> string) option" where
  "dechunk s =
     (let size = takeWhile (\<lambda>c. c \<noteq> CHR 0x0D) s; rest = drop (length size + 2) s in
      if take 2 (drop (length size) s) \<noteq> crlf then None
      else
        (case hex_value size of
           None \<Rightarrow> None
         | Some n \<Rightarrow>
             if take 2 (drop n rest) \<noteq> crlf then None
             else if n = 0 then Some ([], drop 2 rest)
             else map_option (\<lambda>(content, tail). (take n rest @ content, tail)) (dechunk (drop (n + 2) rest))))"
  by pat_completeness auto
termination
proof (relation "measure length", goal_cases)
  case (2 s size rest n)
  then have "s \<noteq> []" by (auto simp: crlf_def)
  with 2 show ?case by simp
qed simp

declare dechunk.simps [simp del]

text \<open>The documented format of \<^verbatim>\<open>%x\<close>.\<close>

definition writes_hex :: "('q, 'p, 'h) spine \<Rightarrow> bool" where
  "writes_hex sp \<longleftrightarrow>
     (\<forall>n. hex_value (to_hex sp n) = Some n \<and> CHR 0x0D \<notin> set (to_hex sp n))"

lemma dechunk_last: "dechunk (last_chunk @ rest) = Some ([], rest)"
proof -
  have "hex_value ''0'' = Some 0" by code_simp
  then show ?thesis by (subst dechunk.simps) (simp add: last_chunk_def crlf_def Let_def)
qed

lemma dechunk_frame:
  assumes "writes_hex sp" "c \<noteq> []"
  shows "dechunk (chunk_frame sp c @ rest) = map_option (\<lambda>(content, tail). (c @ content, tail)) (dechunk rest)"
proof -
  let ?h = "to_hex sp (length c)"
  have h: "hex_value ?h = Some (length c)" "CHR 0x0D \<notin> set ?h"
    using assms(1) by (auto simp: writes_hex_def)
  have s: "chunk_frame sp c @ rest = ?h @ CHR 0x0D # CHR 0x0A # c @ crlf @ rest"
    by (simp add: chunk_frame_def convertToHex_def crlf_def)
  have size: "takeWhile (\<lambda>c. c \<noteq> CHR 0x0D) (?h @ CHR 0x0D # x) = ?h" for x
    using h(2) by (subst takeWhile_append2) auto
  show ?thesis
    unfolding s
    by (subst dechunk.simps) (use assms(2) in \<open>simp add: size h(1) Let_def, simp add: crlf_def\<close>)
qed

lemma dechunk_stream:
  assumes "writes_hex sp"
  shows "dechunk (concat (map (chunk_frame sp) (filter (\<lambda>c. c \<noteq> []) cs)) @ last_chunk @ rest) =
    Some (concat cs, rest)"
  by (induction cs) (simp_all add: dechunk_last dechunk_frame[OF assms])

subsection \<open>Responses\<close>

lemma wire_end [simp, frame]:
  "wire (finishResponse sp e s) = wire s" "wire (finalizeStreamLogging sp s) = wire s"
  "wire (notifyBackendFinished sp st s) = wire s" "wire (reportInfo sp m s) = wire s"
  by (simp_all add: finishResponse_def finalizeStreamLogging_def notifyBackendFinished_def
      reportInfo_def add_report_def armTimer_def add_pending_def startRead_def Let_def split_beta)

text \<open>C10. A buffered response: however the socket splits the writes, the client receives the whole
  of the header section and body once and in order, and then the cycle ends.\<close>

theorem regular_reply_delivered:
  assumes "Pending_write Regular_writer 0 \<in> set (pending s)" "itsSentBytes s = 0" "socketOpen s"
    and "splits ns (itsResponseString s)" "itsResponseString s \<noteq> []"
  shows "\<exists>t. run_events sp srv (write_events e Regular_writer 0 ns) s = Some t \<and>
    wire t = wire s @ itsResponseString s"
proof -
  have "ns \<noteq> []" using assms(4,5) by (auto simp: splits_def)
  with regular_writes.writes_all[of s ns sp srv e] assms show ?thesis
    by (auto simp: splits_def)
qed

text \<open>C8. A chunked response: whatever pieces the stream gives, empty ones included, and however the
  socket splits the writes, a stream that ends well reaches the client as the header section
  and a body that a reader of the chunked coding reads back as exactly the pieces of the
  stream, with nothing after it.\<close>

theorem chunked_reply_delivered:
  assumes "writes_hex sp" "at_job pool Next_chunked_chunk s"
    and "streams sp (itsResponse s) cs Stream_EXIT_OK"
    and "fits (chunk_frame sp) pool (itsPendingHeaders s) cs xs"
    and "splits ns ((if cs = [] then itsPendingHeaders s else []) @ last_chunk)"
  shows "\<exists>t body. run_events sp srv
      (stream_events pool Next_chunked_chunk Chunked_writer xs @
       (e, Job_run pool Next_chunked_chunk) # write_events e Final_writer 0 ns) s = Some t \<and>
    wire t = wire s @ itsPendingHeaders s @ body \<and> dechunk body = Some (concat cs, [])"
proof -
  obtain t where t: "run_events sp srv (stream_events pool Next_chunked_chunk Chunked_writer xs) s = Some t"
    "at_job pool Next_chunked_chunk t" "streams sp (itsResponse t) [] Stream_EXIT_OK"
    "wire t @ itsPendingHeaders t = wire s @ itsPendingHeaders s @
      concat (map (chunk_frame sp) (filter (\<lambda>c. c \<noteq> []) cs))"
    "itsPendingHeaders t = (if cs = [] then itsPendingHeaders s else [])"
    using chunked_stream.sends_stream[OF assms(2-4), of srv] by blast
  let ?t = "complete (Pending_job pool Next_chunked_chunk) t"
  let ?u = "async_write_some Final_writer 0
    ((notifyBackendFinished sp Stream_EXIT_OK ?t)
       \<lparr>itsResponseString := itsPendingHeaders t @ last_chunk, itsPendingHeaders := [],
        itsSentBytes := 0\<rparr>)"
  have nb: "itsPendingHeaders (notifyBackendFinished sp Stream_EXIT_OK ?t) = itsPendingHeaders t"
    "socketOpen (notifyBackendFinished sp Stream_EXIT_OK ?t) = socketOpen t" "wire ?t = wire t"
    by (simp_all add: notifyBackendFinished_def complete_def)
  have "rs_getStreamingStatus sp (itsResponse ?t) = Stream_EXIT_OK"
    using t(3) by (auto simp: complete_def elim: streams_NilE)
  then have d: "dispatch sp srv e (Job_run pool Next_chunked_chunk) t = Some ?u"
    using t(2) nb(1) by (simp add: dispatch_def at_job_def getNextChunkedChunk_def Let_def)
  have ns: "ns \<noteq> []" using assms(5) by (auto simp: splits_def last_chunk_def)
  have "\<exists>v. run_events sp srv (write_events e Final_writer (itsSentBytes ?u) ns) ?u = Some v \<and>
      wire v = wire t @ itsPendingHeaders t @ last_chunk"
    using final_writes.writes_all[of ?u ns sp srv e] ns assms(5) t(2,5) nb
    by (auto simp: async_write_some_def add_pending_def splits_def at_job_def)
  then obtain v where v: "run_events sp srv (write_events e Final_writer 0 ns) ?u = Some v"
    "wire v = wire t @ itsPendingHeaders t @ last_chunk"
    by (auto simp: async_write_some_def add_pending_def)
  show ?thesis
  proof (intro exI conjI)
    show "run_events sp srv
      (stream_events pool Next_chunked_chunk Chunked_writer xs @
       (e, Job_run pool Next_chunked_chunk) # write_events e Final_writer 0 ns) s = Some v"
      using t(1) d v(1) by (simp add: run_events_append)
    show "wire v = wire s @ itsPendingHeaders s @
        (concat (map (chunk_frame sp) (filter (\<lambda>c. c \<noteq> []) cs)) @ last_chunk)"
      using v(2) t(4) by (metis append.assoc)
    show "dechunk (concat (map (chunk_frame sp) (filter (\<lambda>c. c \<noteq> []) cs)) @ last_chunk) =
        Some (concat cs, [])"
      using dechunk_stream[OF assms(1), of cs "[]"] by simp
  qed
qed

text \<open>What \<open>finishResponse\<close> does with the connection.\<close>

lemma finishResponse_stops:
  "\<not> itsKeepAlive s \<Longrightarrow> finishResponse sp e s = s"
  by (simp add: finishResponse_def)

lemma finishResponse_continues:
  assumes "itsKeepAlive s" "\<not> hasTimedOut s" "\<not> env_shutdown e"
  shows "Pending_read \<in> set (pending (finishResponse sp e s)) \<or>
    Pending_posted \<in> set (pending (finishResponse sp e s))"
  using assms
  by (auto simp: finishResponse_def Let_def armTimer_def add_pending_def startRead_def)

text \<open>C9. A response of announced length whose stream ends: the client receives the header section and
  the pieces of the stream, whatever the writes; and the connection is kept, if the
  negotiation, the timer and the shutdown flag allow it, exactly when the stream gave as
  many bytes as the Content-Length header promised.\<close>

theorem stream_reply_delivered:
  assumes "at_job pool Next_chunk s" "streams sp (itsResponse s) cs st"
    and "fits (\<lambda>c. c) pool (itsPendingHeaders s) cs xs" "accepts pool e"
    and "others (pending s) = [Pending_job pool Next_chunk]"
  shows "\<exists>t. run_events sp srv
      (stream_events pool Next_chunk Stream_writer xs @ [(e, Job_run pool Next_chunk)]) s = Some t \<and>
    wire t = wire s @ itsPendingHeaders s @ concat cs \<and>
    ((Pending_read \<in> set (pending t) \<or> Pending_posted \<in> set (pending t)) \<longleftrightarrow>
     itsKeepAlive s \<and> \<not> hasTimedOut s \<and> \<not> env_shutdown e \<and>
     itsTotalStreamedBytes s + length (concat cs) = itsDeclaredContentLength s)"
proof -
  let ?J = "Pending_job pool Next_chunk"
  obtain t where t: "run_events sp srv (stream_events pool Next_chunk Stream_writer xs) s = Some t"
    "at_job pool Next_chunk t" "streams sp (itsResponse t) [] st" "same_request s t"
    "wire t @ itsPendingHeaders t = wire s @ itsPendingHeaders s @ concat (filter (\<lambda>c. c \<noteq> []) cs)"
    "itsTotalStreamedBytes t = itsTotalStreamedBytes s + length (concat cs)" "remove1 ?J (pending t) = remove1 ?J (pending s)"
    using plain_stream.sends_stream[OF assms(1-3), of srv] by auto
  have cat: "concat (filter (\<lambda>c. c \<noteq> []) cs) = concat cs" by (induction cs) auto
  let ?t = "complete ?J t"
  have flush: "flushPendingHeaders sp e ?t =
      (True, ?t\<lparr>wire := wire t @ itsPendingHeaders t, itsPendingHeaders := []\<rparr>)"
    using t(2) assms(4)
    by (simp add: flushPendingHeaders_def sync_write_def complete_def at_job_def accepts_def)
  let ?u = "notifyBackendFinished sp st (finalizeStreamLogging sp
    (?t\<lparr>wire := wire t @ itsPendingHeaders t, itsPendingHeaders := []\<rparr>))"
  have u: "itsKeepAlive ?u = itsKeepAlive s" "hasTimedOut ?u = hasTimedOut s"
    "itsTotalStreamedBytes ?u = itsTotalStreamedBytes s + length (concat cs)"
    "itsDeclaredContentLength ?u = itsDeclaredContentLength s"
    "pending ?u = remove1 ?J (pending s)" "wire ?u = wire s @ itsPendingHeaders s @ concat cs"
    using t(4-7) cat
    by (simp_all add: notifyBackendFinished_def finalizeStreamLogging_def split_beta complete_def
        same_request_def)
  define v where "v = (if itsKeepAlive ?u \<and> itsTotalStreamedBytes ?u \<noteq> itsDeclaredContentLength ?u
    then (reportInfo sp (''Streamed response delivered '' @
        fmi_to_string sp (int (itsTotalStreamedBytes ?u)) @
        '' bytes instead of the announced '' @
        fmi_to_string sp (int (itsDeclaredContentLength ?u)) @
        '', closing the connection'') ?u)\<lparr>itsKeepAlive := False\<rparr> else ?u)"
  have v: "itsKeepAlive v \<longleftrightarrow> itsKeepAlive s \<and>
      itsTotalStreamedBytes s + length (concat cs) = itsDeclaredContentLength s"
    "hasTimedOut v = hasTimedOut s" "pending v = remove1 ?J (pending s)" "wire v = wire ?u"
    using u by (auto simp: v_def reportInfo_def add_report_def)
  have "others (pending v) = []" using v(3) assms(5) by (simp add: others_remove1)
  then have none: "Pending_read \<notin> set (pending v)" "Pending_posted \<notin> set (pending v)"
    using set_others[of "pending v"] by auto
  have "dispatch sp srv e (Job_run pool Next_chunk) t = Some (finishResponse sp e v)"
    using t(2,3) flush
    by (auto simp: dispatch_def at_job_def getNextChunk_def Let_def v_def complete_def elim!: streams_NilE)
  then have run: "run_events sp srv
      (stream_events pool Next_chunk Stream_writer xs @ [(e, Job_run pool Next_chunk)]) s =
      Some (finishResponse sp e v)"
    using t(1) by (simp add: run_events_append)
  have "(Pending_read \<in> set (pending (finishResponse sp e v)) \<or>
      Pending_posted \<in> set (pending (finishResponse sp e v))) \<longleftrightarrow>
      itsKeepAlive v \<and> \<not> hasTimedOut v \<and> \<not> env_shutdown e"
    using none finishResponse_continues[of v e sp] by (auto simp: finishResponse_def)
  with run v u(6) show ?thesis by auto
qed


text \<open>C20. A chunked stream that fails: whatever was pending of the header section may still go out, but
  nothing after it, in particular no last chunk; the socket is closed and the connection is
  not kept.\<close>

theorem failed_chunks_unterminated:
  assumes "rs_getStreamingStatus sp (itsResponse s) \<noteq> Stream_OK"
    and "rs_getStreamingStatus sp (itsResponse s) \<noteq> Stream_EXIT_OK"
  shows "\<exists>n. wire (getNextChunkedChunk sp e s) = wire s @ take n (itsPendingHeaders s) \<and>
    \<not> socketOpen (getNextChunkedChunk sp e s) \<and> \<not> itsKeepAlive (getNextChunkedChunk sp e s) \<and>
    pending (getNextChunkedChunk sp e s) = pending s \<and>
    itsPendingHeaders (getNextChunkedChunk sp e s) = []"
proof -
  have sw: "\<exists>n. wire (fst (sync_write a d u)) = wire u @ take n d" for a d and u :: "('q, 'p, 'h) conn"
    by (auto simp: sync_write_def intro: exI[of _ 0] exI[of _ "length d"])
  let ?st = "rs_getStreamingStatus sp (itsResponse s)"
  let ?s = "notifyBackendFinished sp ?st s"
  have s: "wire ?s = wire s" "itsPendingHeaders ?s = itsPendingHeaders s" "pending ?s = pending s"
    by (simp_all add: notifyBackendFinished_def)
  let ?f = "snd (flushPendingHeaders sp e ?s)"
  have f: "\<exists>n. wire ?f = wire s @ take n (itsPendingHeaders s)" "pending ?f = pending s"
    "itsPendingHeaders ?f = []"
    using sw[of "env_flushWrite e" "itsPendingHeaders s" ?s] sync_write_wire[of "env_flushWrite e" "itsPendingHeaders s" ?s] s
    by (auto simp: flushPendingHeaders_def Let_def split_beta reportInfo_def add_report_def
        intro: exI[of _ 0])
  show ?thesis
    using assms f
    by (auto simp: getNextChunkedChunk_def Let_def closeSocket_def finalizeStreamLogging_def
        split_beta reportInfo_def add_report_def)
qed

end
