(* ===== verification/Conn_Properties.thy ===== *)
theory Conn_Properties
  imports Conn_Writes
begin

text \<open>
  What the handlers of a connection guarantee: in the reachable states, from the invariants
  of \<open>Conn_Invariant\<close> and \<open>Conn_Evolution\<close>, and operation by operation for the negotiation,
  the headers, the framing and the timer.
\<close>

subsection \<open>The reachable states\<close>

text \<open>C2. A connection never has two operations besides its timer in flight: one request is read,
  handled or answered at a time, so responses are sent in the order of the requests.\<close>

theorem one_operation_at_a_time:
  assumes "reachable sp srv s"
  shows "length (filter (\<lambda>p. \<not> is_timer p) (pending s)) \<le> 1"
  using connection.inv_reach[OF assms] by (simp add: conn_inv_def others_def)

text \<open>C6. With a limit on the requests of a connection, no more requests than the limit are taken and
  no more plugin calls are made than requests taken; and while the connection is kept alive
  the count is below the limit, so the \<open>max\<close> of the Keep-Alive header does not wrap.\<close>

theorem requests_capped:
  assumes "reachable sp srv s" "itsMaxKeepAliveRequests s \<noteq> 0"
  shows "itsRequestCount s \<le> itsMaxKeepAliveRequests s \<and>
    plugin_calls (hooks s) \<le> unat (itsRequestCount s) \<and>
    (itsKeepAlive s \<longrightarrow> itsRequestCount s < itsMaxKeepAliveRequests s)"
  using requests.inv_reach[OF assms(1)] assms(2)
  by (auto simp: serve_inv_def conn_inv_def base_inv_def may_serve_def)

text \<open>C19. \<open>itsMutex\<close> is never taken while it is held, although the timer handler sends its reply under
  it, and it is free between the handlers.\<close>

theorem timer_lock_safe:
  assumes "reachable sp srv s"
  shows "\<not> deadlocked s \<and> \<not> lockHeld s"
  using connection.inv_reach[OF assms] by (simp add: conn_inv_def base_inv_def)

text \<open>C38. The watch for a client that goes away while its request is queued is never armed: no
  disconnect read is ever pending, and \<open>itsPrematurelyDisconnected\<close> stays false, so
  \<open>handleCompletedRead\<close> never leaves out a plugin because its client has gone.\<close>

theorem disconnect_watch_never_armed:
  assumes "reachable sp srv s"
  shows "Pending_disconnect_read \<notin> set (pending s) \<and> \<not> itsPrematurelyDisconnected s"
  using connection.inv_reach[OF assms] conn_inv_single(2)[OF connection.inv_reach[OF assms], of Pending_disconnect_read]
  by (auto simp: conn_inv_def base_inv_def)

text \<open>The version a connection answers with is always one of the two that \<open>negotiateVersion\<close> knows,
  so a test against \<^verbatim>\<open>"1.1"\<close> decides between them.\<close>

theorem response_version_two_valued:
  assumes "reachable sp srv s"
  shows "itsResponseVersion s = ''1.0'' \<or> itsResponseVersion s = ''1.1''"
  using fields_ok.inv_reach[OF assms] by (simp add: well_formed_def)

text \<open>C23. With a limit on the size of a request, a connection never holds more bytes of its client's
  data than the limit, pipelined requests included, and never more than it has counted.\<close>

theorem receive_buffer_bounded:
  assumes "reachable sp srv s" "itsMaxRequestSize s \<noteq> 0"
  shows "length (itsBuffer s) \<le> itsMaxRequestSize s \<and> length (itsBuffer s) \<le> itsReceivedBytes s"
  using fields_ok.inv_reach[OF assms(1)] assms(2) by (simp add: well_formed_def)

text \<open>A connection marked idle has at most a read pending and buffers no response, so an expiry of
  the keep-alive timer only closes the socket: nothing is sent, logged or started.\<close>

theorem idle_expiry_is_silent:
  assumes "reachable sp srv s" "itsIdle s" "generation = itsTimerGeneration s"
    and "err \<noteq> Operation_aborted"
  shows "set (pending s) \<subseteq> {Pending_read} \<union> range Pending_timer \<and>
    handleTimer sp e err generation s = s\<lparr>hasTimedOut := True, socketOpen := False\<rparr>"
proof -
  note inv = connection.inv_reach[OF assms(1)]
  have "p = Pending_read \<or> is_timer p" if "p \<in> set (pending s)" for p
    using conn_inv_single(2)[OF inv that] assms(2) by (cases p) auto
  then have "set (pending s) \<subseteq> {Pending_read} \<union> range Pending_timer"
    by (auto elim!: is_timer.elims)
  moreover have "\<not> lockHeld s" using inv by (simp add: conn_inv_def base_inv_def)
  ultimately show ?thesis
    using assms(2-4) by (simp add: handleTimer_def closeSocket_def Let_def)
qed

subsection \<open>The timer\<close>

text \<open>A timer that was cancelled, or armed anew since, does nothing when it fires: its generation is
  not the current one. In particular the timer that bounds the reading of a request is
  without effect once \<open>handleCompletedRead\<close> has begun.\<close>

theorem stale_timer_does_nothing:
  assumes "\<not> lockHeld s"
  shows "(err = Operation_aborted \<or> generation \<noteq> itsTimerGeneration s \<longrightarrow>
      handleTimer sp e err generation s = s) \<and>
    handleTimer sp e err (itsTimerGeneration s) (cancelTimer s) = cancelTimer s \<and>
    handleTimer sp e err (itsTimerGeneration s) (armTimer seconds s) = armTimer seconds s"
  using assms by (auto simp: handleTimer_def cancelTimer_def armTimer_def add_pending_def Let_def)

text \<open>The status line of a response can be printed once its status is set.\<close>

definition prints_status :: "('q, 'p, 'h) spine \<Rightarrow> bool" where
  "prints_status sp \<longleftrightarrow> (\<exists>ok. (\<forall>p st b. ok (rs_setStatus sp p st b)) \<and>
     (\<forall>p k v. ok p \<longrightarrow> ok (rs_setHeader sp p k v)) \<and> (\<forall>p k. ok p \<longrightarrow> ok (rs_removeHeader sp p k)) \<and>
     (\<forall>p v. ok p \<longrightarrow> ok (rs_setVersion sp p v)) \<and>
     (\<forall>p. ok p \<longrightarrow> rs_headersToBuffer sp p \<noteq> None \<and> rs_headersToString sp p \<noteq> None))"

definition has_status :: "('p \<Rightarrow> bool) \<Rightarrow> ('q, 'p, 'h) conn \<Rightarrow> bool" where
  "has_status ok s \<longleftrightarrow> ok (itsResponse s)"

lemma status_setServerHeaders:
  fixes s :: "('q, 'p, 'h) conn" and sp :: "('q, 'p, 'h) spine"
  assumes "\<forall>p k v. ok p \<longrightarrow> ok (rs_setHeader sp p k v)" "\<forall>p k. ok p \<longrightarrow> ok (rs_removeHeader sp p k)"
    and "\<forall>p v. ok p \<longrightarrow> ok (rs_setVersion sp p v)" "has_status ok s"
  shows "has_status ok (setServerHeaders sp e s)"
proof -
  have h: "has_status ok (set_header sp k v t)" "has_status ok (remove_header sp k t)"
    if "has_status ok t" for k v and t :: "('q, 'p, 'h) conn"
    using assms(1,2) that by (auto simp: has_status_def set_header_def remove_header_def)
  have c: "has_status ok (setConnectionHeaders sp t)" if "has_status ok t" for t :: "('q, 'p, 'h) conn"
  proof -
    have k: "has_status ok (u\<lparr>itsKeepAlive := b\<rparr>) = has_status ok u" for b and u :: "('q, 'p, 'h) conn"
      by (simp add: has_status_def)
    have v: "has_status ok (u\<lparr>itsResponse := rs_setVersion sp (itsResponse t) x\<rparr>)"
      for x and u :: "('q, 'p, 'h) conn"
      using that assms(3) by (simp add: has_status_def)
    have c1: "has_status ok (if rs_getChunked sp (itsResponse t) then
        (if itsResponseVersion t \<noteq> ''1.1'' then t\<lparr>itsKeepAlive := False\<rparr> else t)
      else t\<lparr>itsResponse := rs_setVersion sp (itsResponse t) (itsResponseVersion t)\<rparr>)"
      using that by (simp add: k v)
    have c2: "has_status ok (case x of None \<Rightarrow> u
      | Some x \<Rightarrow> if hasHeaderToken sp x ''close'' then u\<lparr>itsKeepAlive := False\<rparr> else u)"
      if "has_status ok u" for x and u :: "('q, 'p, 'h) conn"
      using that by (auto simp: k split: option.split)
    have c3: "has_status ok (if \<not> itsKeepAlive u then
        remove_header sp ''Keep-Alive'' (set_header sp ''Connection'' ''close'' u)
      else if itsResponseVersion u = ''1.1'' then
        remove_header sp ''Keep-Alive'' (remove_header sp ''Connection'' u)
      else
        (let s = set_header sp ''Connection'' ''keep-alive'' u
         in set_header sp ''Keep-Alive'' (keep_alive_value sp s) s))"
      if "has_status ok u" for u :: "('q, 'p, 'h) conn"
      using that by (auto simp: Let_def intro!: h)
    show ?thesis unfolding setConnectionHeaders_def using c3[OF c2[OF c1]] by (simp only: Let_def)
  qed
  show ?thesis
    using assms(4) unfolding setServerHeaders_def appendStaleDirectives_def Let_def
    by (auto split: option.splits intro!: h c)
qed

text \<open>The status of a response is the one that was set last, whatever its headers and version.\<close>

definition response_status :: "('q, 'p, 'h) spine \<Rightarrow> bool" where
  "response_status sp \<longleftrightarrow>
     (\<forall>p st b. rs_getStatus sp (rs_setStatus sp p st b) = st) \<and>
     (\<forall>p k v. rs_getStatus sp (rs_setHeader sp p k v) = rs_getStatus sp p) \<and>
     (\<forall>p k. rs_getStatus sp (rs_removeHeader sp p k) = rs_getStatus sp p) \<and>
     (\<forall>p v. rs_getStatus sp (rs_setVersion sp p v) = rs_getStatus sp p)"

text \<open>The stock reply before it is written.\<close>

definition stock_response ::
  "('q, 'p, 'h) spine \<Rightarrow> ('q, 'p, 'h) env \<Rightarrow> status \<Rightarrow> ('q, 'p, 'h) conn \<Rightarrow> ('q, 'p, 'h) conn" where
  "stock_response sp e st s =
     setServerHeaders sp e (set_header sp ''Content-Length''
       (decimal (rs_getContentLength sp (rs_setStatus sp (itsResponse s) st True)))
       (s\<lparr>itsResponse := rs_setStatus sp (itsResponse s) st True\<rparr>))"

lemma sendStockReply_response: "sendStockReply sp e st s = sendSimpleReply sp e (stock_response sp e st s)"
  by (simp add: sendStockReply_def stock_response_def Let_def)

lemma stock_response_reshapes: "reshapes s (stock_response sp e st s)"
  unfolding stock_response_def by (intro reshapes_setServerHeaders reshapes_header) (rule reshapesI)

lemma stock_response_headers:
  assumes "prints_status sp"
  obtains h where "rs_headersToBuffer sp (itsResponse (stock_response sp e st s)) = Some h"
proof -
  from assms obtain ok where ok: "\<forall>p st b. ok (rs_setStatus sp p st b)"
    "\<forall>p k v. ok p \<longrightarrow> ok (rs_setHeader sp p k v)" "\<forall>p k. ok p \<longrightarrow> ok (rs_removeHeader sp p k)"
    "\<forall>p v. ok p \<longrightarrow> ok (rs_setVersion sp p v)"
    "\<forall>p. ok p \<longrightarrow> rs_headersToBuffer sp p \<noteq> None \<and> rs_headersToString sp p \<noteq> None"
    unfolding prints_status_def by blast
  have "has_status ok (stock_response sp e st s)"
    unfolding stock_response_def
    by (rule status_setServerHeaders[OF ok(2-4)]) (simp add: has_status_def set_header_def ok)
  with ok(5) that show thesis by (auto simp: has_status_def)
qed

lemma stock_response_status:
  assumes "response_status sp"
  shows "rs_getStatus sp (itsResponse (stock_response sp e st s)) = st"
proof -
  have "has_status (\<lambda>p. rs_getStatus sp p = st) (stock_response sp e st s)"
    unfolding stock_response_def
    by (rule status_setServerHeaders)
      (use assms in \<open>simp_all add: has_status_def set_header_def response_status_def\<close>)
  then show ?thesis by (simp add: has_status_def)
qed

text \<open>On a connection that is not kept a stock reply is written, and the socket closed.\<close>

lemma sendStockReply_sent:
  fixes s :: "('q, 'p, 'h) conn"
  assumes "prints_status sp" "\<not> itsKeepAlive s"
  shows "\<exists>h. let t = sendStockReply sp e st s in
    itsResponse t = itsResponse (stock_response sp e st s) \<and>
    rs_headersToBuffer sp (itsResponse t) = Some h \<and> \<not> socketOpen t \<and>
    (socketOpen s \<and> fst (env_headerWrite e) = Success \<and> fst (env_contentWrite e) = Success \<longrightarrow>
       wire t = wire s @ h @ rs_contentToBuffer sp (itsResponse t))"
proof -
  let ?u = "stock_response sp e st s"
  obtain h where h: "rs_headersToBuffer sp (itsResponse ?u) = Some h"
    by (rule stock_response_headers[OF assms(1)])
  obtain p k where u: "?u = s\<lparr>itsResponse := p, itsKeepAlive := k\<rparr>" "\<not> k"
    using stock_response_reshapes[of s sp e st] assms(2) by (auto simp: reshapes_def)
  have "\<not> itsKeepAlive ?u" "wire ?u = wire s" "socketOpen ?u = socketOpen s" by (simp_all add: u)
  with h show ?thesis
    by (auto simp: sendStockReply_response sendSimpleReply_def sync_write_def closeSocket_def Let_def
        split_beta)
qed

lemma sendStockReply_closes_socket:
  fixes s :: "('q, 'p, 'h) conn"
  assumes "prints_status sp" "\<not> itsKeepAlive s"
  shows "\<not> socketOpen (sendStockReply sp e st s)"
  using sendStockReply_sent[OF assms] by (auto simp: Let_def)

text \<open>When the current timer expires on a connection that is not idle, the request is answered and
  the socket closed, the connection is not kept, no operation is started and no lock is left
  behind.\<close>

theorem expired_timer_closes:
  assumes "prints_status sp" "\<not> lockHeld s" "\<not> deadlocked s" "\<not> itsIdle s"
    and "err \<noteq> Operation_aborted"
  shows "let t = handleTimer sp e err (itsTimerGeneration s) s in
    hasTimedOut t \<and> \<not> socketOpen t \<and> \<not> itsKeepAlive t \<and> pending t = pending s \<and>
    \<not> lockHeld t \<and> \<not> deadlocked t \<and> itsTimerGeneration t = itsTimerGeneration s"
proof -
  let ?s = "s\<lparr>lockHeld := True, hasTimedOut := True, itsKeepAlive := False\<rparr>"
  obtain p w f d where r: "sendStockReply sp e request_timeout ?s =
      ?s\<lparr>itsResponse := p, wire := w, itsFinalStatus := f, socketOpen := d, itsKeepAlive := False\<rparr>"
    using sendStockReply_closes[of ?s sp e request_timeout] by auto
  have "\<not> d" using sendStockReply_closes_socket[OF assms(1), of ?s e request_timeout] r by simp
  with r assms show ?thesis by (simp add: handleTimer_def Let_def)
qed

end
