(* ===== verification/Sample.thy ===== *)
theory Sample
  imports Connection
begin

text \<open>
  A concrete instance of the interface \<open>spine\<close>, with which the hypotheses of the theorems are
  shown to be satisfiable: messages whose headers are association lists, a parser that
  takes one header section at a time, and hexadecimal and decimal numbers.
\<close>

subsection \<open>Messages\<close>

record sample_request =
  sq_method :: string
  sq_resource :: string
  sq_version :: string
  sq_headers :: "(string \<times> string) list"
  sq_client :: string

record sample_response =
  sp_status :: "status option"
  sp_version :: string
  sp_headers :: "(string \<times> string) list"
  sp_content :: string
  sp_chunks :: "string list"
  sp_ending :: streamer_status
  sp_streamed :: bool
  sp_chunked :: bool
  sp_gateway :: bool
  sp_backend :: string
  sp_logged :: bool

record sample_handler =
  sh_name :: string
  sh_catch :: bool
  sh_admin :: bool
  sh_fast :: bool

definition get_field :: "string \<Rightarrow> (string \<times> string) list \<Rightarrow> string option" where
  "get_field k hs = map_option snd (List.find (\<lambda>h. ascii_lower (fst h) = ascii_lower k) hs)"

definition remove_field :: "string \<Rightarrow> (string \<times> string) list \<Rightarrow> (string \<times> string) list" where
  "remove_field k hs = filter (\<lambda>h. ascii_lower (fst h) \<noteq> ascii_lower k) hs"

definition set_field ::
  "string \<Rightarrow> string \<Rightarrow> (string \<times> string) list \<Rightarrow> (string \<times> string) list" where
  "set_field k v hs = remove_field k hs @ [(k, v)]"

lemma get_remove_field:
  "get_field k' (remove_field k hs) =
     (if ascii_lower k' = ascii_lower k then None else get_field k' hs)"
  by (induction hs) (auto simp: get_field_def remove_field_def)

lemma get_append:
  "get_field k (hs @ hs') = (case get_field k hs of Some v \<Rightarrow> Some v | None \<Rightarrow> get_field k hs')"
  by (induction hs) (auto simp: get_field_def)

lemma get_set_field:
  "get_field k' (set_field k v hs) =
     (if ascii_lower k' = ascii_lower k then Some v else get_field k' hs)"
proof -
  have "get_field k' [(k, v)] = (if ascii_lower k' = ascii_lower k then Some v else None)"
    by (auto simp: get_field_def)
  then show ?thesis by (simp add: set_field_def get_append get_remove_field split: option.split)
qed

subsection \<open>Numbers\<close>

definition hex_digit :: "nat \<Rightarrow> char" where
  "hex_digit d = ''0123456789abcdef'' ! d"

fun hex :: "nat \<Rightarrow> string" where
  "hex n = (if n < 16 then [hex_digit n] else hex (n div 16) @ [hex_digit (n mod 16)])"

declare hex.simps [simp del]

definition digit_value :: "char \<Rightarrow> nat option" where
  "digit_value c = first_index (\<lambda>x. x = c) ''0123456789''"

fun read_digits :: "nat \<Rightarrow> string \<Rightarrow> nat" where
  "read_digits n [] = n"
| "read_digits n (c # cs) =
     (case digit_value c of None \<Rightarrow> n | Some d \<Rightarrow> read_digits (10 * n + d) cs)"

definition sample_stoul :: "string \<Rightarrow> nat option" where
  "sample_stoul s =
     (case s of [] \<Rightarrow> None
      | c # cs \<Rightarrow> if digit_value c = None then None else Some (read_digits 0 s))"

subsection \<open>Parsing and printing\<close>

fun lines_of :: "string \<Rightarrow> string list" where
  "lines_of [] = [[]]"
| "lines_of (x # xs) =
     (if x = CHR 0x0D then lines_of xs
      else if x = CHR 0x0A then [] # lines_of xs
      else (case lines_of xs of [] \<Rightarrow> [[x]] | l # ls \<Rightarrow> (x # l) # ls))"

definition parse_field :: "string \<Rightarrow> string \<times> string" where
  "parse_field l = (takeWhile (\<lambda>c. c \<noteq> CHR '':'') l,
     trim ws (tl (dropWhile (\<lambda>c. c \<noteq> CHR '':'') l)))"

definition no_request :: sample_request where
  "no_request = \<lparr>sq_method = [], sq_resource = [], sq_version = [], sq_headers = [], sq_client = []\<rparr>"

text \<open>A version reads ``HTTP/1.1''; the request keeps the part after the slash.\<close>

definition sample_parse :: "string \<Rightarrow> sample_request parsed_request" where
  "sample_parse buffer =
     (case find_str buffer (crlf @ crlf) 0 of
        None \<Rightarrow> \<lparr>pr_status = INCOMPLETE, pr_request = no_request, pr_consumed = 0\<rparr>
      | Some e \<Rightarrow>
          (case lines_of (take e buffer) of
             line # fs \<Rightarrow>
               (case split_on CHR '' '' line of
                  [m, r, v] \<Rightarrow>
                    \<lparr>pr_status = COMPLETE,
                     pr_request = \<lparr>sq_method = m, sq_resource = r, sq_version = drop 5 v,
                       sq_headers = map parse_field fs, sq_client = []\<rparr>,
                     pr_consumed = e + 4\<rparr>
                | _ \<Rightarrow> \<lparr>pr_status = FAILED, pr_request = no_request, pr_consumed = 0\<rparr>)
           | [] \<Rightarrow> \<lparr>pr_status = FAILED, pr_request = no_request, pr_consumed = 0\<rparr>))"

definition sample_head :: "sample_response \<Rightarrow> string option" where
  "sample_head p =
     (case sp_status p of None \<Rightarrow> None
      | Some st \<Rightarrow> Some (''HTTP/'' @ sp_version p @ '' '' @ decimal_int st @ crlf @
             concat (map (\<lambda>h. fst h @ '': '' @ snd h @ crlf) (sp_headers p)) @ crlf))"

definition no_response :: sample_response where
  "no_response =
     \<lparr>sp_status = None, sp_version = ''1.0'', sp_headers = [], sp_content = [], sp_chunks = [],
      sp_ending = Stream_EXIT_OK, sp_streamed = False, sp_chunked = False, sp_gateway = False,
      sp_backend = [], sp_logged = False\<rparr>"

definition sample_content :: "sample_response \<Rightarrow> string \<times> sample_response" where
  "sample_content p =
     (if sp_streamed p then
        (case sp_chunks p of [] \<Rightarrow> ([], p) | c # cs \<Rightarrow> (c, p\<lparr>sp_chunks := cs\<rparr>))
      else (sp_content p, p))"

text \<open>Every request goes to one handler, except those for \<^verbatim>\<open>/none\<close>.\<close>

definition sample_view :: "sample_request \<Rightarrow> sample_handler option" where
  "sample_view q =
     (if sq_resource q = ''/none'' then None
      else Some \<lparr>sh_name = ''Timeseries'', sh_catch = False,
                 sh_admin = (sq_resource q = ''/admin''), sh_fast = (sq_resource q = ''/fast'')\<rparr>)"

subsection \<open>The instance\<close>

definition sample_spine :: "(sample_request, sample_response, sample_handler) spine" where
  "sample_spine =
     \<lparr>ascii_tolower_copy = ascii_lower,
      stoul = sample_stoul,
      to_hex = hex,
      fmi_to_string = decimal_int,
      icontains = (\<lambda>s t. contains (ascii_lower s) (ascii_lower t)),
      zstd_compress = (\<lambda>s. ''zstd:'' @ s),
      gzip_compress = (\<lambda>level s. ''gzip:'' @ s),
      ec_message = (\<lambda>err. ''error''),
      ec_value = (\<lambda>err. 5),
      reason_to_string = (\<lambda>reason. ''Time limit exceeded''),
      host_name = (\<lambda>ip. ip),
      parseOneRequest = sample_parse,
      new_Request = no_request,
      rq_getVersion = sq_version,
      rq_getHeader = (\<lambda>q k. get_field k (sq_headers q)),
      rq_setHeader = (\<lambda>q k v. q\<lparr>sq_headers := set_field k v (sq_headers q)\<rparr>),
      rq_removeHeader = (\<lambda>q k. q\<lparr>sq_headers := remove_field k (sq_headers q)\<rparr>),
      rq_getMethod = (\<lambda>q. if sq_method q = ''GET'' then GET
                          else if sq_method q = ''HEAD'' then HEAD else Other_Method (length (sq_method q))),
      rq_setMethod = (\<lambda>q m. q\<lparr>sq_method :=
        (case m of GET \<Rightarrow> ''GET'' | HEAD \<Rightarrow> ''HEAD'' | Other_Method n \<Rightarrow> replicate n CHR ''X'')\<rparr>),
      rq_getMethodString = sq_method,
      rq_getResource = sq_resource,
      rq_getURI = sq_resource,
      rq_getClientIP = sq_client,
      rq_setClientIP = (\<lambda>q ip. q\<lparr>sq_client := ip\<rparr>),
      rq_getParameter = (\<lambda>q k. None),
      rq_getContentLength = (\<lambda>q. 0),
      rq_getContent = (\<lambda>q. []),
      new_Response = no_response,
      stockOptionsResponse = no_response\<lparr>sp_status := Some 200\<rparr>,
      rs_getStatus = (\<lambda>p. case sp_status p of None \<Rightarrow> 0 | Some st \<Rightarrow> st),
      rs_setStatus = (\<lambda>p st stock. p\<lparr>sp_status := Some st,
        sp_content := (if stock then ''stock'' else sp_content p)\<rparr>),
      rs_setVersion = (\<lambda>p v. p\<lparr>sp_version := v\<rparr>),
      rs_getHeader = (\<lambda>p k. get_field k (sp_headers p)),
      rs_setHeader = (\<lambda>p k v. p\<lparr>sp_headers := set_field k v (sp_headers p)\<rparr>),
      rs_removeHeader = (\<lambda>p k. p\<lparr>sp_headers := remove_field k (sp_headers p)\<rparr>),
      rs_getContentLength = (\<lambda>p. if sp_streamed p then length (concat (sp_chunks p))
                                 else length (sp_content p)),
      rs_getContent = sample_content,
      rs_setContent = (\<lambda>p c. p\<lparr>sp_content := c\<rparr>),
      rs_hasStreamContent = sp_streamed,
      rs_isGatewayResponse = sp_gateway,
      rs_getChunked = sp_chunked,
      rs_getStreamingStatus = (\<lambda>p. if sp_chunks p = [] then sp_ending p else Stream_OK),
      rs_headersToString = sample_head,
      rs_headersToBuffer = sample_head,
      rs_contentToBuffer = sp_content,
      rs_originatingBackend = sp_backend,
      rs_backendPort = (\<lambda>p. 80),
      rs_runStreamCompletionHandler = (\<lambda>p n. (\<not> sp_logged p, p\<lparr>sp_logged := True\<rparr>)),
      selectContentEncoding = (\<lambda>q codings wildcard. case codings of [] \<Rightarrow> [] | c # cs \<Rightarrow> c),
      supportedContentEncodings = [''zstd'', ''gzip''],
      wildcardContentEncoding = ''gzip'',
      contentCodedETag = (\<lambda>etag coding. etag @ CHR ''-'' # coding),
      notModifiedETag = (\<lambda>q etag. etag),
      resolveClientIP_filter = (\<lambda>peer forwarded proxies. peer),
      st_high_load = 1234,
      st_shutdown = 3210,
      getHandlerView = sample_view,
      hv_isCatchNoMatch = sh_catch,
      hv_isAdminQuery = (\<lambda>h q. sh_admin h),
      hv_queryIsFast = (\<lambda>h q. sh_fast h),
      hv_getPluginName = sh_name,
      opt_staleWhileRevalidate = 60,
      opt_staleIfError = 0,
      opt_contentCodings = []\<rparr>"

text \<open>The fields the evaluations use.\<close>

lemma sample_fields:
  "stoul sample_spine = sample_stoul"
  "to_hex sample_spine = hex"
  "fmi_to_string sample_spine = decimal_int"
  "icontains sample_spine = (\<lambda>s t. contains (ascii_lower s) (ascii_lower t))"
  "parseOneRequest sample_spine = sample_parse"
  "new_Request sample_spine = no_request"
  "rq_getVersion sample_spine = sq_version"
  "rq_getHeader sample_spine = (\<lambda>q k. get_field k (sq_headers q))"
  "rq_removeHeader sample_spine = (\<lambda>q k. q\<lparr>sq_headers := remove_field k (sq_headers q)\<rparr>)"
  "rq_getMethod sample_spine = (\<lambda>q. if sq_method q = ''GET'' then GET
                          else if sq_method q = ''HEAD'' then HEAD else Other_Method (length (sq_method q)))"
  "rq_getMethodString sample_spine = sq_method"
  "rq_getResource sample_spine = sq_resource"
  "rq_getClientIP sample_spine = sq_client"
  "rq_setClientIP sample_spine = (\<lambda>q ip. q\<lparr>sq_client := ip\<rparr>)"
  "new_Response sample_spine = no_response"
  "rs_getStatus sample_spine = (\<lambda>p. case sp_status p of None \<Rightarrow> 0 | Some st \<Rightarrow> st)"
  "rs_setStatus sample_spine = (\<lambda>p st stock. p\<lparr>sp_status := Some st,
        sp_content := (if stock then ''stock'' else sp_content p)\<rparr>)"
  "rs_setVersion sample_spine = (\<lambda>p v. p\<lparr>sp_version := v\<rparr>)"
  "rs_getHeader sample_spine = (\<lambda>p k. get_field k (sp_headers p))"
  "rs_setHeader sample_spine = (\<lambda>p k v. p\<lparr>sp_headers := set_field k v (sp_headers p)\<rparr>)"
  "rs_removeHeader sample_spine = (\<lambda>p k. p\<lparr>sp_headers := remove_field k (sp_headers p)\<rparr>)"
  "rs_getContentLength sample_spine = (\<lambda>p. if sp_streamed p then length (concat (sp_chunks p))
                                 else length (sp_content p))"
  "rs_getContent sample_spine = sample_content"
  "rs_setContent sample_spine = (\<lambda>p c. p\<lparr>sp_content := c\<rparr>)"
  "rs_hasStreamContent sample_spine = sp_streamed"
  "rs_isGatewayResponse sample_spine = sp_gateway"
  "rs_getChunked sample_spine = sp_chunked"
  "rs_getStreamingStatus sample_spine = (\<lambda>p. if sp_chunks p = [] then sp_ending p else Stream_OK)"
  "rs_headersToString sample_spine = sample_head"
  "rs_headersToBuffer sample_spine = sample_head"
  "rs_contentToBuffer sample_spine = sp_content"
  "rs_originatingBackend sample_spine = sp_backend"
  "rs_runStreamCompletionHandler sample_spine = (\<lambda>p n. (\<not> sp_logged p, p\<lparr>sp_logged := True\<rparr>))"
  "resolveClientIP_filter sample_spine = (\<lambda>peer forwarded proxies. peer)"
  "st_high_load sample_spine = 1234"
  "st_shutdown sample_spine = 3210"
  "getHandlerView sample_spine = sample_view"
  "hv_isCatchNoMatch sample_spine = sh_catch"
  "hv_isAdminQuery sample_spine = (\<lambda>h q. sh_admin h)"
  "hv_queryIsFast sample_spine = (\<lambda>h q. sh_fast h)"
  "hv_getPluginName sample_spine = sh_name"
  "opt_staleWhileRevalidate sample_spine = 60"
  "opt_staleIfError sample_spine = 0"
  by (simp_all add: sample_spine_def)

lemma sample_lowers: "lowers_ascii sample_spine"
  by (simp add: lowers_ascii_def sample_spine_def)

lemma sample_response_headers: "response_headers sample_spine"
  by (simp add: response_headers_def sample_spine_def get_set_field get_remove_field)

lemma sample_request_headers: "request_headers sample_spine"
  by (simp add: request_headers_def sample_spine_def get_set_field get_remove_field)

subsection \<open>Numbers are read back\<close>

lemma digit_value_digit: "d < 10 \<Longrightarrow> digit_value (digit d) = Some d"
  unfolding digit_value_def digit_def
  by (auto simp: less_Suc_eq numeral_eq_Suc)

lemma read_digits_append:
  "set a \<subseteq> set ''0123456789'' \<Longrightarrow> read_digits n (a @ b) = read_digits (read_digits n a) b"
  by (induction a arbitrary: n) (auto simp: digit_value_def)

lemma read_digits_decimal: "read_digits 0 (decimal n) = n"
proof (induction n rule: decimal.induct)
  case (1 n)
  show ?case
  proof (cases "n < 10")
    case True
    then show ?thesis by (simp add: decimal.simps[of n] digit_value_digit)
  next
    case False
    with 1 show ?thesis
      by (simp add: decimal.simps[of n] read_digits_append[OF decimal_digits] digit_value_digit)
  qed
qed

lemma sample_reads_decimal: "reads_decimal sample_spine"
proof -
  have "sample_stoul (decimal n) = Some n" for n
  proof -
    obtain c cs where d: "decimal n = c # cs" by (cases "decimal n") (auto simp: decimal.simps[of n] split: if_splits)
    then have "c \<in> set ''0123456789''" using decimal_digits[of n] by auto
    then have "digit_value c \<noteq> None" by (auto simp: digit_value_def)
    with d read_digits_decimal[of n] show ?thesis by (simp add: sample_stoul_def)
  qed
  then show ?thesis by (simp add: reads_decimal_def sample_spine_def)
qed

end
