(* ===== verification/Sample_Runs.thy ===== *)
theory Sample_Runs
  imports Conn_Properties Sample
begin

text \<open>
  Runs of a connection on the instance \<open>sample_spine\<close>: a client connects, sends a request for
  a plain, a chunked or a streamed resource, and the handler answers. The states reached are
  those the theorems about connections are applied to.
\<close>

subsection \<open>Settings\<close>

definition sample_options :: options where
  "sample_options =
     \<lparr>op_encryptionEnabled = False, op_encryptionPassword = [], op_encryptionPasswordFile = [],
      op_compress = False, op_compresslimit = 1000, op_maxrequestsize = 4096, op_timeout = 60,
      op_logrequests = False, op_port = 8080\<rparr>"

definition sample_server :: server where
  "sample_server = initial_server sample_options (Some 1024)"

definition sample_clock :: clock where
  "sample_clock =
     \<lparr>cl_weekday = 1, cl_day = 2, cl_month = 3, cl_year = 2026, cl_hours = 4, cl_minutes = 5,
      cl_seconds = 6\<rparr>"

definition sample_handle ::
  "sample_handler \<Rightarrow> sample_request \<Rightarrow> sample_response \<Rightarrow>
   (sample_request \<times> sample_response \<times> bool) option" where
  "sample_handle h q p =
     (let p = p\<lparr>sp_status := Some 200\<rparr> in
      if sq_resource q = ''/throw'' then None
      else if sq_resource q = ''/chunked'' then
        Some (q, p\<lparr>sp_streamed := True, sp_chunked := True, sp_chunks := [[], ''abc'', ''defgh'']\<rparr>, True)
      else if sq_resource q = ''/stream'' then
        Some (q, p\<lparr>sp_streamed := True, sp_chunks := [[], ''abc'', ''defgh'']\<rparr>, True)
      else Some (q, p\<lparr>sp_content := ''hello''\<rparr>, True))"

definition sample_env :: "(sample_request, sample_response, sample_handler) env" where
  "sample_env =
     \<lparr>env_shutdown = False, env_clock = sample_clock, env_build = ''1'',
      env_remoteIP = Some ''10.0.0.1'', env_noDelay = Success, env_loadHigh = False,
      env_adminPoolSize = 1, env_slowPoolSize = 4, env_schedule = (\<lambda>pool. True),
      env_handle = sample_handle, env_interrupt = (\<lambda>token. None), env_elapsed = ''0'',
      env_headerWrite = (Success, 0), env_contentWrite = (Success, 0),
      env_expectWrite = (Success, 0), env_flushWrite = (Success, 0)\<rparr>"

definition sample_bytes :: "string \<Rightarrow> string" where
  "sample_bytes resource =
     ''GET '' @ resource @ '' HTTP/1.1'' @ crlf @ ''Host: h'' @ crlf @ crlf"

definition started_connection :: "(sample_request, sample_response, sample_handler) conn" where
  "started_connection = snd (start sample_env (0, new_connection sample_spine sample_server))"



definition plain_handler :: sample_handler where
  "plain_handler = \<lparr>sh_name = ''Timeseries'', sh_catch = False, sh_admin = False, sh_fast = False\<rparr>"

definition queued :: "string \<Rightarrow> (sample_request, sample_response, sample_handler) conn" where
  "queued r = run_handler sample_spine sample_env sample_server
     (Read_done Success (sample_bytes r)) started_connection"

definition answering :: "string \<Rightarrow> (sample_request, sample_response, sample_handler) conn" where
  "answering r = run_handler sample_spine sample_env sample_server
     (Job_run Slow_pool (Handle_request plain_handler)) (queued r)"

lemma sample_lower:
  "ascii_lower ''Host'' = ''host''" "ascii_lower ''Connection'' = ''connection''"
  "ascii_lower ''Keep-Alive'' = ''keep-alive''" "ascii_lower ''Proxy-Connection'' = ''proxy-connection''"
  "ascii_lower ''Proxy-Authenticate'' = ''proxy-authenticate''"
  "ascii_lower ''Proxy-Authorization'' = ''proxy-authorization''"
  "ascii_lower ''TE'' = ''te''" "ascii_lower ''Trailer'' = ''trailer''"
  "ascii_lower ''X-SmartMet-Original-Method'' = ''x-smartmet-original-method''"
  "ascii_lower ''X-Forwarded-For'' = ''x-forwarded-for''" "ascii_lower ''Server'' = ''server''"
  "ascii_lower ''Vary'' = ''vary''" "ascii_lower ''Date'' = ''date''"
  "ascii_lower ''Cache-Control'' = ''cache-control''" "ascii_lower ''ETag'' = ''etag''"
  "ascii_lower ''Content-Length'' = ''content-length''"
  "ascii_lower ''Transfer-Encoding'' = ''transfer-encoding''"
  by code_simp+

lemma field_steps:
  "get_field k [] = None"
  "get_field k ((k', v) # hs) = (if ascii_lower k' = ascii_lower k then Some v else get_field k hs)"
  "remove_field k [] = []"
  "remove_field k ((k', v) # hs) =
     (if ascii_lower k' = ascii_lower k then remove_field k hs else (k', v) # remove_field k hs)"
  by (simp_all add: get_field_def remove_field_def)

definition parsed :: "string \<Rightarrow> sample_request parsed_request" where
  "parsed r =
     \<lparr>pr_status = COMPLETE,
      pr_request = \<lparr>sq_method = ''GET'', sq_resource = r, sq_version = ''1.1'',
        sq_headers = [(''Host'', ''h'')], sq_client = []\<rparr>,
      pr_consumed = length (sample_bytes r)\<rparr>"

lemma sample_parsed:
  "sample_parse (sample_bytes ''/a'') = parsed ''/a''"
  "sample_parse (sample_bytes ''/chunked'') = parsed ''/chunked''"
  "sample_parse (sample_bytes ''/stream'') = parsed ''/stream''"
  by code_simp+

lemma sample_version: "negotiateVersion sample_spine ''1.1'' = ''1.1''"
  by (simp add: negotiateVersion_def sample_spine_def find_char_def sample_stoul_def digit_value_def
      substr_def)

lemma length_sample_bytes: "length (sample_bytes r) = length r + 26"
  by (simp add: sample_bytes_def crlf_def)

lemmas reading_steps = handleRead_def receive_def handleParsedRequest_def resolveClientIP_def
  negotiate_def evaluateKeepAlive_def stripHopByHopHeaders_def hopByHop_def take_head_method_def
  originalMethod_def route_request_def scheduleRequest_def sample_view_def isKeepAliveEnabled_def
  add_pending_def armTimer_def startRead_def complete_def

lemmas sample_settings = started_connection_def start_def registerConnection_def sample_env_def
  sample_server_def initial_server_def sample_options_def new_connection_eq
  getMaxKeepAliveRequests_def getMaxHeaderSize_def getKeepAliveTimeout_def isKeepAliveEnabled_def

lemmas sample_texts = sample_fields sample_parsed parsed_def field_steps sample_lower sample_version
  length_sample_bytes plain_handler_def no_request_def no_response_def


lemma count_below: "\<not> (1000::u64) \<le> 1" "(0::u64) < 1000"
  by (simp_all add: word_le_nat_alt word_less_nat_alt)

lemma started_eq:
  "started_connection =
     \<lparr>itsServer_set = True, itsEncryptionEnabled = False, itsTimerGeneration = 1, itsBuffer = [],
      itsRequest = no_request, itsResponse = no_response, itsReceivedBytes = 0,
      itsResponseString = [], itsPendingHeaders = [], itsCanGzipResponse = False,
      itsCompressLimit = 1000, itsMaxRequestSize = 4096, itsTimeout = 60,
      itsKeepAliveEnabled = True, itsKeepAliveTimeout = 30, itsMaxKeepAliveRequests = 1000,
      itsMaxHeaderSize = 16384, itsRequestCount = 0, itsKeepAlive = False,
      itsResponseVersion = ''1.0'', itsIdle = False, itsCounted = True, hasTimedOut = False,
      itsQueryIsFast = False, itsAdminQuery = False, itsDumpRequests = False,
      itsFinalStatus = Success, itsSentBytes = 0, itsTotalStreamedBytes = 0,
      itsBackendNotified = False, itsHeadRequest = False, itsExpectHandled = False,
      itsDeclaredContentLength = 0, itsPrematurelyDisconnected = False, socketOpen = True,
      tcpNoDelay = True, lockHeld = False, deadlocked = False, timerSeconds = 60,
      pending = [Pending_read, Pending_timer 1], wire = [], hooks = [], reports = [],
      destroyed = False\<rparr>"
  by (simp add: Let_def reading_steps sample_settings sample_fields)

definition queued_state ::
  "string \<Rightarrow> (sample_request, sample_response, sample_handler) conn" where
  "queued_state r = started_connection
     \<lparr>itsRequest := (pr_request (parsed r))\<lparr>sq_client := ''10.0.0.1''\<rparr>, itsRequestCount := 1,
      itsKeepAlive := True, itsResponseVersion := ''1.1'',
      pending := [Pending_job Slow_pool (Handle_request plain_handler), Pending_timer 1]\<rparr>"

lemma queued_eq:
  "queued ''/a'' = queued_state ''/a''" "queued ''/chunked'' = queued_state ''/chunked''"
  "queued ''/stream'' = queued_state ''/stream''"
  unfolding queued_def queued_state_def started_eq
  by (simp_all add: Let_def reading_steps sample_env_def sample_texts count_below)

lemmas handling_steps = handleCompletedRead_def cancelTimer_def begin_handling_def end_handling_def
  start_reply_def sample_handle_def complete_def sample_env_def
  
lemmas stream_steps = startChunkedReply_def startStreamReply_def preparePendingHeaders_def
  getNextChunkedChunk_def getNextChunk_def flushPendingHeaders_def sync_write_def
  scheduleChunkGetter_def scheduleChunkedChunkGetter_def request_pool_def

lemmas reply_steps = startRegularReply_def encode_response_def frame_response_def statusHasNoBody_def
  setServerHeaders_def setConnectionHeaders_def appendStaleDirectives_def set_header_def remove_header_def set_field_def
  async_write_some_def sample_content_def add_pending_def

definition head_text :: "sample_response \<Rightarrow> string" where
  "head_text p = the (sample_head p)"

lemma sample_head_text: "sp_status p = Some st \<Longrightarrow> sample_head p = Some (head_text p)"
  by (simp add: sample_head_def head_text_def)

lemma head_text_nonempty: "sp_status p = Some st \<Longrightarrow> head_text p \<noteq> []"
  by (simp add: sample_head_def head_text_def)

definition server_fields :: "(string \<times> string) list" where
  "server_fields =
     [(''Server'', ''SmartMet Server (1)''), (''Vary'', ''Accept-Encoding''),
      (''Date'', makeDateString sample_clock)]"

definition plain_response :: sample_response where
  "plain_response =
     no_response\<lparr>sp_status := Some 200, sp_version := ''1.1'', sp_content := ''hello'',
       sp_headers := server_fields @ [(''Content-Length'', decimal (length ''hello''))]\<rparr>"

definition chunked_response :: "string list \<Rightarrow> sample_response" where
  "chunked_response chunks =
     no_response\<lparr>sp_status := Some 200, sp_streamed := True, sp_chunked := True,
       sp_chunks := chunks,
       sp_headers := server_fields @ [(''Transfer-Encoding'', ''chunked'')]\<rparr>"

definition stream_response :: "string list \<Rightarrow> sample_response" where
  "stream_response chunks =
     no_response\<lparr>sp_status := Some 200, sp_version := ''1.1'', sp_streamed := True,
       sp_chunks := chunks,
       sp_headers := server_fields @ [(''Content-Length'', decimal (length ''abcdefgh''))]\<rparr>"

definition handled ::
  "string \<Rightarrow> (sample_request, sample_response, sample_handler) conn" where
  "handled r = (queued_state r)
     \<lparr>itsTimerGeneration := 2,
      hooks := [Client_started ''10.0.0.1'', Plugin_called ''Timeseries'']\<rparr>"

lemmas run_steps = Let_def sample_texts handling_steps reply_steps contains_def sample_head_text
  head_text_nonempty handled_def queued_eq queued_state_def started_eq server_fields_def

lemma answering_a:
  "answering ''/a'' = (handled ''/a'')
     \<lparr>itsResponse := plain_response, itsResponseString := head_text plain_response @ ''hello'',
      pending := [Pending_write Regular_writer 0, Pending_timer 1]\<rparr>"
  by (simp add: answering_def plain_response_def run_steps)

lemma answering_chunked:
  "answering ''/chunked'' = (handled ''/chunked'')
     \<lparr>itsResponse := chunked_response [''abc'', ''defgh''],
      wire := head_text (chunked_response [[], ''abc'', ''defgh'']),
      pending := [Pending_job Slow_pool Next_chunked_chunk, Pending_timer 1]\<rparr>"
  by (simp add: answering_def chunked_response_def run_steps stream_steps)

lemma answering_stream:
  "answering ''/stream'' = (handled ''/stream'')
     \<lparr>itsResponse := stream_response [''abc'', ''defgh''],
      wire := head_text (stream_response [[], ''abc'', ''defgh'']),
      itsDeclaredContentLength := length ''abcdefgh'',
      pending := [Pending_job Slow_pool Next_chunk, Pending_timer 1]\<rparr>"
  by (simp add: answering_def stream_response_def run_steps stream_steps)

lemmas handled_fields = handled_def queued_state_def started_eq

text \<open>Once the plain answer is written, the connection is idle.\<close>

definition answered :: "(sample_request, sample_response, sample_handler) conn" where
  "answered = run_handler sample_spine sample_env sample_server
     (Write_done Regular_writer 0 Success (length (itsResponseString (answering ''/a''))))
     (answering ''/a'')"

lemma answered_idle: "itsIdle answered" "itsTimerGeneration answered = 3"
  unfolding answered_def answering_a
  by (simp_all add: writeRegularReply_def written_def Let_def notifyBackendFinished_def
      sample_fields finishResponse_def handled_fields sample_env_def armTimer_def add_pending_def
      startRead_def plain_response_def no_response_def)

subsection \<open>Reachability\<close>

lemma reach_started: "reachable sample_spine sample_server started_connection"
  unfolding started_connection_def by (intro reach_start started)

lemma reach_event:
  assumes "reachable sample_spine sample_server s" "operation_of ev \<in> set (pending s)" "event_ok ev s"
  shows "reachable sample_spine sample_server (run_handler sample_spine sample_env sample_server ev s)"
  using assms handler_step[of sample_spine sample_server sample_env ev s]
  by (auto simp: dispatch_def intro: reach_step)

lemma reach_queued: "reachable sample_spine sample_server (queued r)"
  unfolding queued_def by (rule reach_event[OF reach_started]) (simp_all add: started_eq)

lemma reach_answering: "reachable sample_spine sample_server (answering ''/a'')"
  unfolding answering_def
  by (rule reach_event[OF reach_queued]) (simp_all add: queued_eq queued_state_def)

lemma reach_answered: "reachable sample_spine sample_server answered"
  unfolding answered_def
  by (rule reach_event[OF reach_answering]) (simp_all add: answering_a handled_fields)

subsection \<open>The laws\<close>

lemma hex_digit_value_digit: "d < 16 \<Longrightarrow> hex_digit_value (hex_digit d) = Some d"
proof -
  have "\<forall>d \<in> set [0..<16]. hex_digit_value (hex_digit d) = Some d" by code_simp
  then show "d < 16 \<Longrightarrow> ?thesis" by simp
qed

lemma hex_value_from_append:
  "hex_value_from n (a @ b) =
     (case hex_value_from n a of None \<Rightarrow> None | Some m \<Rightarrow> hex_value_from m b)"
  by (induction a arbitrary: n) (auto split: option.splits)

lemma hex_value_from_hex: "hex_value_from 0 (hex n) = Some n"
proof (induction n rule: hex.induct)
  case (1 n)
  then show ?case
    by (cases "n < 16") (simp_all add: hex.simps[of n] hex_value_from_append hex_digit_value_digit)
qed

lemma hex_digit_not_cr: "d < 16 \<Longrightarrow> hex_digit d \<noteq> CHR 0x0D"
proof -
  have "\<forall>d \<in> set [0..<16]. hex_digit d \<noteq> CHR 0x0D" by code_simp
  then show "d < 16 \<Longrightarrow> ?thesis" by simp
qed

lemma hex_not_cr: "CHR 0x0D \<notin> set (hex n)"
proof (induction n rule: hex.induct)
  case (1 n)
  then show ?case
    using hex_digit_not_cr[of n] hex_digit_not_cr[of "n mod 16"]
    by (cases "n < 16") (auto simp: hex.simps[of n])
qed

lemma sample_writes_hex: "writes_hex sample_spine"
proof -
  have "hex n \<noteq> []" for n by (simp add: hex.simps[of n])
  then show ?thesis
    by (simp add: writes_hex_def sample_fields hex_value_def hex_value_from_hex hex_not_cr)
qed

lemma sample_prints_status: "prints_status sample_spine"
  unfolding prints_status_def
  by (rule exI[of _ "\<lambda>p. sp_status p \<noteq> None"]) (auto simp: sample_fields sample_head_def)

end
