(* ===== verification/Header_Rules.thy ===== *)
theory Header_Rules
  imports Conn_Request
begin

text \<open>
  What the header code means: the token test, the version and keep-alive negotiation and the
  hop-by-hop headers are shown equal to definitions by lists of tokens, and the header fields
  of requests and responses are followed through the functions that rewrite them.
\<close>

subsection \<open>Tokens\<close>

text \<open>C27. The scanning loop of \<open>hasHeaderToken\<close> is membership among the elements of the list: split at
  the commas, trimmed of spaces and tabs, folded to lower case, empty elements left out.\<close>

theorem hasHeaderToken_is_membership:
  assumes "lowers_ascii sp"
  shows "hasHeaderToken sp headerValue token \<longleftrightarrow> token \<in> set (header_tokens headerValue)"
  using hasHeaderToken_from_elements[of 0 headerValue sp token] assms
  by (simp add: hasHeaderToken_def header_tokens_def lowers_ascii_def)

text \<open>The loop of \<open>stripHopByHopHeaders\<close> over the Connection header collects the same elements.\<close>

lemma listed_names_elements:
  "pos \<le> length connection \<Longrightarrow>
     listed_names connection pos = header_elements (drop pos connection)"
proof (induction connection pos rule: listed_names.induct)
  case (1 connection pos)
  let ?e = "element_end connection pos"
  have "?e < length connection \<Longrightarrow> listed_names connection (?e + 1) = header_elements (drop (?e + 1) connection)"
    using "1.IH"[OF "1.prems" refl] by simp
  moreover have "\<not> ?e < length connection \<Longrightarrow> listed_names connection (?e + 1) = []"
    by (simp add: listed_names.simps)
  ultimately show ?case
    unfolding listed_names.simps[of connection pos] header_elements_from[OF "1.prems"]
    using "1.prems" by (auto simp: Let_def)
qed

subsection \<open>Versions\<close>

lemma reads_decimalD: "reads_decimal sp \<Longrightarrow> n < 2 ^ 64 \<Longrightarrow> stoul sp (decimal n) = Some n"
  by (simp add: reads_decimal_def)

text \<open>A version \<open>major.minor\<close> is answered with 1.1 exactly when it is at least 1.1, comparing major
  and then minor as numbers, so that 1.10 and 2.0 are and 0.9 is not.\<close>

theorem negotiateVersion_compares:
  assumes "reads_decimal sp" "major < 2 ^ 64" "minor < 2 ^ 64"
  shows "negotiateVersion sp (decimal major @ ''.'' @ decimal minor) =
    (if 1 < major \<or> major = 1 \<and> 1 \<le> minor then ''1.1'' else ''1.0'')"
proof -
  have "find_char (decimal major @ CHR ''.'' # decimal minor) CHR ''.'' 0 = Some (length (decimal major))"
    by (rule find_char_skip[OF dot_not_in_decimal])
  then show ?thesis
    using assms by (simp add: negotiateVersion_def substr_def reads_decimalD)
qed

subsection \<open>Keep-alive\<close>

text \<open>The rule of RFC 9112 9.3, over the tokens of Connection and Proxy-Connection.\<close>

definition wants_persistence :: "string \<Rightarrow> string list option \<Rightarrow> string list option \<Rightarrow> bool" where
  "wants_persistence version connection proxy_connection =
     (if version = ''1.1'' then
        (case connection of None \<Rightarrow> True | Some ts \<Rightarrow> ''close'' \<notin> set ts)
      else
        (case connection of
           Some ts \<Rightarrow> ''keep-alive'' \<in> set ts
         | None \<Rightarrow>
             (case proxy_connection of None \<Rightarrow> False | Some ts \<Rightarrow> ''keep-alive'' \<in> set ts)))"

text \<open>C18. A connection is kept alive exactly when the server allows it (the setting, no shutdown, the
  count of requests below the limit) and the client asks for it by the rule of the protocol:
  on 1.1 unless \<open>close\<close> is among the tokens of Connection, on 1.0 only with \<open>keep-alive\<close>.\<close>

theorem evaluateKeepAlive_rule:
  assumes "lowers_ascii sp"
  shows "evaluateKeepAlive sp e s \<longleftrightarrow>
    itsKeepAliveEnabled s \<and> \<not> env_shutdown e \<and>
    (itsMaxKeepAliveRequests s = 0 \<or> itsRequestCount s < itsMaxKeepAliveRequests s) \<and>
    wants_persistence (itsResponseVersion s)
      (map_option header_tokens (rq_getHeader sp (itsRequest s) ''Connection''))
      (map_option header_tokens (rq_getHeader sp (itsRequest s) ''Proxy-Connection''))"
  by (auto simp: evaluateKeepAlive_def wants_persistence_def hasHeaderToken_is_membership[OF assms]
      word_gt_0 not_le not_less split: option.splits)

subsection \<open>Connection headers\<close>

lemma lower_names:
  "ascii_lower ''Connection'' = ''connection''" "ascii_lower ''Keep-Alive'' = ''keep-alive''"
  "ascii_lower ''Cache-Control'' = ''cache-control''"
  "ascii_lower ''Content-Length'' = ''content-length''"
  "ascii_lower ''Transfer-Encoding'' = ''transfer-encoding''"
  "ascii_lower ''X-SmartMet-Original-Method'' = ''x-smartmet-original-method''"
  "ascii_lower ''Server'' = ''server''" "ascii_lower ''Vary'' = ''vary''"
  "ascii_lower ''Date'' = ''date''"
  by code_simp+

abbreviation response_header ::
  "('q, 'p, 'h) spine \<Rightarrow> ('q, 'p, 'h) conn \<Rightarrow> string \<Rightarrow> string option" where
  "response_header sp s k \<equiv> rs_getHeader sp (itsResponse s) k"

lemma response_header_set:
  assumes "response_headers sp"
  shows "response_header sp (set_header sp k v s) k' =
      (if ascii_lower k' = ascii_lower k then Some v else response_header sp s k')"
    and "response_header sp (remove_header sp k s) k' =
      (if ascii_lower k' = ascii_lower k then None else response_header sp s k')"
  using response_headersD[OF assms] by (simp_all add: set_header_def remove_header_def)

lemma keeps_flags [simp]:
  "itsKeepAlive (set_header sp k v s) = itsKeepAlive s"
  "itsKeepAlive (remove_header sp k s) = itsKeepAlive s"
  "itsResponseVersion (set_header sp k v s) = itsResponseVersion s"
  "itsResponseVersion (remove_header sp k s) = itsResponseVersion s"
  by (simp_all add: set_header_def remove_header_def)

text \<open>What a client reads off the headers about the connection.\<close>

definition announces :: "('q, 'p, 'h) spine \<Rightarrow> ('q, 'p, 'h) conn \<Rightarrow> bool" where
  "announces sp s \<longleftrightarrow>
     response_header sp s ''Connection'' =
       (if \<not> itsKeepAlive s then Some ''close''
        else if itsResponseVersion s = ''1.1'' then None else Some ''keep-alive'') \<and>
     (\<not> itsKeepAlive s \<or> itsResponseVersion s = ''1.1'' \<longrightarrow> response_header sp s ''Keep-Alive'' = None)"

lemma setConnectionHeaders_announces:
  assumes "response_headers sp"
  shows "announces sp (setConnectionHeaders sp s)"
  unfolding setConnectionHeaders_def Let_def announces_def
  by (auto simp: response_header_set[OF assms] lower_names)

lemma setConnectionHeaders_may_close:
  "itsKeepAlive (setConnectionHeaders sp s) \<longrightarrow>
     itsKeepAlive s \<and> (rs_getChunked sp (itsResponse s) \<longrightarrow> itsResponseVersion s = ''1.1'')"
  "itsResponseVersion (setConnectionHeaders sp s) = itsResponseVersion s"
  unfolding setConnectionHeaders_def Let_def by (auto split: option.split)

lemma appendStaleDirectives_announces:
  assumes "response_headers sp"
  shows "announces sp (appendStaleDirectives sp s) = announces sp s"
  unfolding appendStaleDirectives_def announces_def
  by (auto simp: response_header_set[OF assms] lower_names split: option.split)

lemma appendStaleDirectives_flags [simp]:
  "itsKeepAlive (appendStaleDirectives sp s) = itsKeepAlive s"
  "itsResponseVersion (appendStaleDirectives sp s) = itsResponseVersion s"
  by (auto simp: appendStaleDirectives_def split: option.split)

text \<open>C24. Whatever headers a plugin set: after \<open>setServerHeaders\<close> the response says \<open>close\<close> exactly
  when the connection will be closed after it, in 1.1 says nothing when it is kept, in 1.0
  says \<open>keep-alive\<close>, and a connection the negotiation gave up is not taken up again.\<close>

theorem connection_announced:
  assumes "response_headers sp"
  shows "let t = setServerHeaders sp e s in
    response_header sp t ''Connection'' =
      (if \<not> itsKeepAlive t then Some ''close''
       else if itsResponseVersion s = ''1.1'' then None else Some ''keep-alive'') \<and>
    (\<not> itsKeepAlive t \<or> itsResponseVersion s = ''1.1'' \<longrightarrow> response_header sp t ''Keep-Alive'' = None) \<and>
    (itsKeepAlive t \<longrightarrow> itsKeepAlive s)"
proof -
  have "\<exists>u. setServerHeaders sp e s = appendStaleDirectives sp (setConnectionHeaders sp u) \<and>
      itsKeepAlive u = itsKeepAlive s \<and> itsResponseVersion u = itsResponseVersion s"
    unfolding setServerHeaders_def Let_def
    by (rule exI, rule conjI, rule refl) (auto split: option.split)
  then obtain u where u: "setServerHeaders sp e s = appendStaleDirectives sp (setConnectionHeaders sp u)"
    "itsKeepAlive u = itsKeepAlive s" "itsResponseVersion u = itsResponseVersion s" by blast
  have "announces sp (setServerHeaders sp e s)"
    unfolding u(1) appendStaleDirectives_announces[OF assms]
    by (rule setConnectionHeaders_announces[OF assms])
  then show ?thesis
    using setConnectionHeaders_may_close[of sp u] u by (auto simp: announces_def Let_def)
qed

subsection \<open>The request handed to the handlers\<close>

abbreviation request_header ::
  "('q, 'p, 'h) spine \<Rightarrow> ('q, 'p, 'h) conn \<Rightarrow> string \<Rightarrow> string option" where
  "request_header sp s k \<equiv> rq_getHeader sp (itsRequest s) k"

lemma fold_removeHeader:
  assumes "request_headers sp"
  shows "rq_getHeader sp (fold (\<lambda>name q. rq_removeHeader sp q name) names q) k =
    (if ascii_lower k \<in> ascii_lower ` set names then None else rq_getHeader sp q k)"
  by (induction names arbitrary: q) (auto simp: request_headersD[OF assms])

text \<open>The header fields that concern only the connection to the client (RFC 9110 7.6.1).\<close>

definition connection_fields :: "string option \<Rightarrow> string set" where
  "connection_fields connection =
     ascii_lower ` (set hopByHop \<union>
       (case connection of None \<Rightarrow> {} | Some value \<Rightarrow> set (header_elements value)))"

lemma stripHopByHopHeaders_header:
  assumes "request_headers sp"
  shows "request_header sp (stripHopByHopHeaders sp s) k =
    (if ascii_lower k \<in> connection_fields (request_header sp s ''Connection'') then None
     else request_header sp s k)"
  using listed_names_elements[of 0]
  by (auto simp: stripHopByHopHeaders_def Let_def fold_removeHeader[OF assms] connection_fields_def
      split: option.split)

text \<open>Method and headers of a request are independent of each other.\<close>

definition request_methods :: "('q, 'p, 'h) spine \<Rightarrow> bool" where
  "request_methods sp \<longleftrightarrow>
     (\<forall>q k. rq_getMethod sp (rq_removeHeader sp q k) = rq_getMethod sp q) \<and>
     (\<forall>q k v. rq_getMethod sp (rq_setHeader sp q k v) = rq_getMethod sp q) \<and>
     (\<forall>q m. rq_getMethod sp (rq_setMethod sp q m) = m) \<and>
     (\<forall>q m k. rq_getHeader sp (rq_setMethod sp q m) k = rq_getHeader sp q k)"

text \<open>What else there is to a request: none of it changes with the method or a header field, and neither
  does the method or a header field with the address of the client.\<close>

definition request_rest ::
  "('q, 'p, 'h) spine \<Rightarrow> 'q \<Rightarrow> string \<times> string \<times> string \<times> string \<times> (string \<Rightarrow> string option) \<times> string" where
  "request_rest sp q =
     (rq_getVersion sp q, rq_getResource sp q, rq_getURI sp q, rq_getClientIP sp q, rq_getParameter sp q,
      rq_getContent sp q)"

definition request_parts :: "('q, 'p, 'h) spine \<Rightarrow> bool" where
  "request_parts sp \<longleftrightarrow>
     (\<forall>q k. request_rest sp (rq_removeHeader sp q k) = request_rest sp q) \<and>
     (\<forall>q k v. request_rest sp (rq_setHeader sp q k v) = request_rest sp q) \<and>
     (\<forall>q m. request_rest sp (rq_setMethod sp q m) = request_rest sp q) \<and>
     (\<forall>q ip k. rq_getHeader sp (rq_setClientIP sp q ip) k = rq_getHeader sp q k) \<and>
     (\<forall>q ip. rq_getMethod sp (rq_setClientIP sp q ip) = rq_getMethod sp q)"

lemma take_head_method_header:
  assumes "request_headers sp" "request_methods sp"
  shows "request_header sp (take_head_method sp s) k =
    (if ascii_lower k = ascii_lower originalMethod
     then (if rq_getMethod sp (itsRequest s) = HEAD then Some ''HEAD'' else None)
     else request_header sp s k)"
  using assms(2)
  by (auto simp: take_head_method_def Let_def request_headersD[OF assms(1)] request_methods_def)

text \<open>C26. A client cannot forge the server's note of the original method: the handlers see GET for
  HEAD, with the note \<open>HEAD\<close>, and any other method without the note, whatever the client
  sent under that name; \<open>itsHeadRequest\<close>, which suppresses the body, says the same. Nothing else
  changes: every other header field, the version, resource, parameters, content and client
  address of the request, and all other state of the connection stay as they are.\<close>

theorem original_method_not_forged:
  assumes "request_headers sp" "request_methods sp" "request_parts sp"
  shows "let t = take_head_method sp s in
    itsHeadRequest t = (rq_getMethod sp (itsRequest s) = HEAD) \<and>
    request_header sp t originalMethod = (if itsHeadRequest t then Some ''HEAD'' else None) \<and>
    rq_getMethod sp (itsRequest t) =
      (if itsHeadRequest t then GET else rq_getMethod sp (itsRequest s)) \<and>
    (\<forall>k. ascii_lower k \<noteq> ascii_lower originalMethod \<longrightarrow>
      request_header sp t k = request_header sp s k) \<and>
    request_rest sp (itsRequest t) = request_rest sp (itsRequest s) \<and>
    t = s\<lparr>itsRequest := itsRequest t, itsHeadRequest := itsHeadRequest t\<rparr>"
  using assms(2,3) take_head_method_header[OF assms(1,2), of s]
  by (auto simp: take_head_method_def Let_def request_methods_def request_parts_def)

end
