(* ===== verification/Exchange_Rules.thy ===== *)
theory Exchange_Rules
  imports Conn_Properties Header_Rules
begin

text \<open>
  What one request/response exchange does: the framing of a buffered response, and the paths
  on which a request is refused, delayed or handed to its plugin.
\<close>

subsection \<open>Framing\<close>

text \<open>
  The content of a response that is not streamed: its length is that of the bytes it gives,
  header fields are apart from it, and it is what was last set.
\<close>

definition response_contents :: "('q, 'p, 'h) spine \<Rightarrow> bool" where
  "response_contents sp \<longleftrightarrow>
     (\<forall>p k v. fst (rs_getContent sp (rs_setHeader sp p k v)) = fst (rs_getContent sp p)) \<and>
     (\<forall>p k. fst (rs_getContent sp (rs_removeHeader sp p k)) = fst (rs_getContent sp p)) \<and>
     (\<forall>p c. \<not> rs_hasStreamContent sp p \<longrightarrow> fst (rs_getContent sp (rs_setContent sp p c)) = c) \<and>
     (\<forall>p. \<not> rs_hasStreamContent sp p \<longrightarrow>
        rs_getContentLength sp p = length (fst (rs_getContent sp p)))"

text \<open>C11. The framing of a buffered response. A status that has no body goes out as a header section
  without Content-Length and Transfer-Encoding and nothing after it. A HEAD request for what
  would be sent chunked gets neither of the two fields and no body. Any other response goes out
  with a Content-Length that is the length of its body, whatever the plugin set, and the body,
  which a HEAD request is spared; a Transfer-Encoding that a plugin has set stays beside it as
  it is.\<close>

theorem regular_reply_framed:
  assumes "response_headers sp" "response_contents sp"
    and "\<not> rs_hasStreamContent sp (itsResponse (encode_response sp s))"
    and "rs_headersToString sp (itsResponse (frame_response sp (encode_response sp s))) = Some h"
  shows "let f = frame_response sp (encode_response sp s);
      no_body = statusHasNoBody (rs_getStatus sp (itsResponse (encode_response sp s)));
      head_of_chunked = (itsHeadRequest s \<and> rs_getChunked sp (itsResponse (encode_response sp s)));
      body = fst (rs_getContent sp (itsResponse f));
      t = startRegularReply sp e s in
    itsResponseString t = h @ (if itsHeadRequest s then [] else body) \<and>
    pending t = Pending_write Regular_writer 0 # pending s \<and>
    (no_body \<longrightarrow> body = []) \<and>
    (no_body \<or> head_of_chunked \<longrightarrow> response_header sp f ''Content-Length'' = None \<and>
      response_header sp f ''Transfer-Encoding'' = None) \<and>
    (\<not> no_body \<and> \<not> head_of_chunked \<longrightarrow>
      response_header sp f ''Content-Length'' = Some (decimal (length body)) \<and>
      response_header sp f ''Transfer-Encoding'' =
        response_header sp (encode_response sp s) ''Transfer-Encoding'')"
proof -
  let ?u = "encode_response sp s"
  have u: "itsHeadRequest ?u = itsHeadRequest s" "pending ?u = pending s"
    by (auto simp: encode_response_def Let_def set_header_def split: option.split)
  let ?f = "frame_response sp ?u"
  have f: "itsHeadRequest ?f = itsHeadRequest s" "pending ?f = pending s"
    using u by (auto simp: frame_response_def set_header_def remove_header_def)
  have t: "itsResponseString (startRegularReply sp e s) =
      h @ (if itsHeadRequest s then [] else fst (rs_getContent sp (itsResponse ?f)))"
    "pending (startRegularReply sp e s) = Pending_write Regular_writer 0 # pending s"
    using assms(4) f
    by (auto simp: startRegularReply_def Let_def split_beta async_write_some_def add_pending_def)
  show ?thesis
    using t u(1) assms(2,3)
    by (auto simp: Let_def frame_response_def response_header_set[OF assms(1)] lower_names
        response_contents_def) (auto simp: set_header_def remove_header_def)
qed

subsection \<open>Refused requests\<close>

lemma stock_reply_ends:
  assumes "prints_status sp" "\<not> itsKeepAlive s"
  shows "\<not> socketOpen (sendStockReply sp e st s) \<and> pending (sendStockReply sp e st s) = pending s \<and>
    hooks (sendStockReply sp e st s) = hooks s \<and> itsBuffer (sendStockReply sp e st s) = itsBuffer s"
  using sendStockReply_closes_socket[OF assms] sendStockReply_closes[OF assms(2), of sp e st] by auto

lemma resolveClientIP_keeps:
  "pending (snd (resolveClientIP sp e srv s)) = pending s" "hooks (snd (resolveClientIP sp e srv s)) = hooks s"
  by (auto simp: resolveClientIP_def reportError_def add_report_def split: option.split)

text \<open>C30. A 1.1 request without a Host header is refused and the connection closed: no plugin
  is called or queued and nothing more is read.\<close>

theorem host_required:
  assumes "prints_status sp" "resolveClientIP sp e srv s = (True, u)"
    and "negotiateVersion sp (rq_getVersion sp (itsRequest u)) = ''1.1''"
    and "rq_getHeader sp (itsRequest u) ''Host'' = None"
  shows "let t = handleParsedRequest sp e srv s in
    \<not> socketOpen t \<and> pending t = pending s \<and> hooks t = hooks s"
proof -
  let ?n = "(reportError sp ''400 Missing Host header on an HTTP/1.1 request'' (negotiate sp e u))
    \<lparr>itsKeepAlive := False\<rparr>"
  have "handleParsedRequest sp e srv s = sendStockReply sp e bad_request ?n"
    using assms(2-4) by (simp add: handleParsedRequest_def Let_def negotiate_def)
  moreover have "pending ?n = pending s" "hooks ?n = hooks s"
    using resolveClientIP_keeps[of sp e srv s] assms(2)
    by (simp_all add: negotiate_def Let_def reportError_def add_report_def)
  ultimately show ?thesis using stock_reply_ends[OF assms(1), of ?n] by (simp add: Let_def)
qed

text \<open>C31. When a read takes a connection over the limit on the size of a request, the bytes are not
  kept, the socket is closed and nothing but timers stays pending: no plugin sees any of it.\<close>

theorem oversized_request_refused:
  assumes "prints_status sp" "reachable sp srv s" "Pending_read \<in> set (pending s)"
    and "itsMaxRequestSize s \<noteq> 0" "itsMaxRequestSize s < itsReceivedBytes s + length bytes"
    and "\<not> env_shutdown e"
  shows "let t = run_handler sp e srv (Read_done Success bytes) s in
    \<not> socketOpen t \<and> ops t = [] \<and> hooks t = hooks s \<and> itsBuffer t = itsBuffer s"
proof -
  note inv = connection.inv_reach[OF assms(2)]
  have "op_inv sp Pending_read s" using conn_inv_single(2)[OF inv assms(3)] by simp
  then have nk: "\<not> itsKeepAlive s" by (simp add: awaiting_def)
  have "ops (complete Pending_read s) = []"
    using conn_inv_single(1)[OF inv assms(3)] by (simp add: complete_def others_remove1)
  moreover define u where "u = (let s = complete Pending_read s; s = s\<lparr>itsFinalStatus := Success\<rparr>;
      was_idle = itsIdle s; s = s\<lparr>itsIdle := False\<rparr>
    in if was_idle \<and> \<not> hasTimedOut s then armTimer (itsTimeout s) s else s)"
  ultimately have u: "\<not> itsKeepAlive u" "ops u = []" "hooks u = hooks s" "itsBuffer u = itsBuffer s"
    "itsMaxRequestSize u = itsMaxRequestSize s" "itsReceivedBytes u = itsReceivedBytes s"
    using nk by (auto simp: complete_def armTimer_def add_pending_def Let_def)
  let ?v = "reportError sp ''413 Entity too large'' (u\<lparr>itsReceivedBytes := itsReceivedBytes u + length bytes\<rparr>)"
  have "run_handler sp e srv (Read_done Success bytes) s = sendStockReply sp e request_entity_too_large ?v"
    using assms(4-6) u(5,6) by (simp add: handleRead_def u_def receive_def Let_def)
  moreover have "\<not> itsKeepAlive ?v" "ops ?v = []" "hooks ?v = hooks s" "itsBuffer ?v = itsBuffer s"
    using u by (simp_all add: reportError_def add_report_def)
  ultimately show ?thesis using stock_reply_ends[OF assms(1), of ?v] by (simp add: Let_def)
qed

text \<open>C29. \<^verbatim>\<open>Expect\<close>: a client that asks for it, on 1.1 and with a complete header section, is sent
  \<^verbatim>\<open>100 Continue\<close> at once and only once per request; an expectation the server does not know
  is refused and the connection closed; in every other case, a 1.0 client's and an incomplete
  header section included, nothing is sent and reading goes on.\<close>

theorem expect_continue_rule:
  assumes "lowers_ascii sp" "prints_status sp" "socketOpen s" "fst (env_expectWrite e) = Success"
  shows "let head = peekRequestHead sp (itsBuffer s);
      asks = (\<not> itsExpectHandled s \<and> head_complete head \<and> head_expect head \<noteq> [] \<and>
        negotiateVersion sp (head_version head) = ''1.1'');
      known = (''100-continue'' \<in> set (header_tokens (head_expect head)));
      again = fst (handleExpectContinue sp e s); t = snd (handleExpectContinue sp e s) in
    (\<not> asks \<longrightarrow> again \<and> wire t = wire s) \<and>
    (asks \<and> known \<longrightarrow> again \<and> wire t = wire s @ continueReply) \<and>
    (asks \<and> \<not> known \<longrightarrow> \<not> again \<and> \<not> socketOpen t \<and> pending t = pending s) \<and>
    (head_complete head \<and> again \<longrightarrow> itsExpectHandled t \<and> handleExpectContinue sp e' t = (True, t))"
proof -
  let ?r = "\<lambda>m. (reportInfo sp m (s\<lparr>itsExpectHandled := True\<rparr>))\<lparr>itsKeepAlive := False\<rparr>"
  have r: "\<not> socketOpen (sendStockReply sp e expectation_failed (?r m)) \<and>
      pending (sendStockReply sp e expectation_failed (?r m)) = pending s" for m
    using stock_reply_ends[OF assms(2), of "?r m" e expectation_failed]
    by (simp add: reportInfo_def add_report_def)
  show ?thesis
    using assms(3,4) r
    by (auto simp: handleExpectContinue_def Let_def hasHeaderToken_is_membership[OF assms(1)]
        sync_write_def)
qed

subsection \<open>The request that waits for its handler\<close>

lemma jobs_replies [simp]:
  fixes sp :: "('q, 'p, 'h) spine" and s :: "('q, 'p, 'h) conn"
  shows "Pending_job pool j \<in> set (pending (sendSimpleReply sp e s)) \<longleftrightarrow> Pending_job pool j \<in> set (pending s)"
    "Pending_job pool j \<in> set (pending (sendStockReply sp e st s)) \<longleftrightarrow> Pending_job pool j \<in> set (pending s)"
    "pending (setServerHeaders sp e s) = pending s"
proof -
  have headers: "pending (setServerHeaders sp e u) = pending u" for u :: "('q, 'p, 'h) conn"
    using reshapes_setServerHeaders[OF reshapesI(1), of u sp e] by (auto simp: reshapes_def)
  have finish: "Pending_job pool j \<in> set (pending (finishResponse sp e u)) \<longleftrightarrow> Pending_job pool j \<in> set (pending u)"
    for u :: "('q, 'p, 'h) conn"
    by (simp add: finishResponse_def armTimer_def add_pending_def startRead_def Let_def)
  have simple: "Pending_job pool j \<in> set (pending (sendSimpleReply sp e u)) \<longleftrightarrow> Pending_job pool j \<in> set (pending u)"
    for u :: "('q, 'p, 'h) conn"
    by (simp add: sendSimpleReply_def finish closeSocket_def sync_write_def Let_def split: option.split)
  show "Pending_job pool j \<in> set (pending (sendSimpleReply sp e s)) \<longleftrightarrow> Pending_job pool j \<in> set (pending s)"
    by (rule simple)
  show "Pending_job pool j \<in> set (pending (sendStockReply sp e st s)) \<longleftrightarrow> Pending_job pool j \<in> set (pending s)"
    by (simp add: sendStockReply_def simple headers Let_def) (simp add: set_header_def)
  show "pending (setServerHeaders sp e s) = pending s" by (rule headers)
qed

text \<open>A request is queued as its headers have been stripped and its method taken.\<close>

lemma queued_request:
  assumes "Pending_job pool (Handle_request h) \<in> set (pending (handleParsedRequest sp e srv s))"
    and "Pending_job pool (Handle_request h) \<notin> set (pending s)"
  shows "\<exists>ip u. itsRequest u = rq_setClientIP sp (itsRequest s) ip \<and>
    itsRequest (handleParsedRequest sp e srv s) = itsRequest (take_head_method sp (stripHopByHopHeaders sp u))"
proof -
  have route: "itsRequest (route_request sp e u) = itsRequest u"
    if "Pending_job pool (Handle_request h) \<in> set (pending (route_request sp e u))"
      "Pending_job pool (Handle_request h) \<notin> set (pending u)" for u
    using that
    by (auto simp: route_request_def scheduleRequest_def add_pending_def reportInfo_def add_report_def Let_def
        split: option.splits if_splits)
  obtain resolved u where r: "resolveClientIP sp e srv s = (resolved, u)" by force
  have u: "pending u = pending s" using resolveClientIP_keeps(1)[of sp e srv s] r by simp
  let ?v = "take_head_method sp (stripHopByHopHeaders sp (negotiate sp e u))"
  have v: "pending ?v = pending s"
    using u by (simp add: take_head_method_def stripHopByHopHeaders_def negotiate_def Let_def)
  have t: "handleParsedRequest sp e srv s = route_request sp e ?v" "resolved"
    using assms u
    by (auto simp: handleParsedRequest_def r Let_def negotiate_def reportError_def add_report_def
        split: if_splits)
  obtain ip where "itsRequest u = rq_setClientIP sp (itsRequest s) ip"
    using t(2) r by (auto simp: resolveClientIP_def split: option.splits if_splits)
  then have "itsRequest (negotiate sp e u) = rq_setClientIP sp (itsRequest s) ip"
    by (simp add: negotiate_def Let_def)
  moreover have "itsRequest (handleParsedRequest sp e srv s) = itsRequest ?v"
    using route[of ?v] assms v by (simp add: t(1))
  ultimately show ?thesis by blast
qed

text \<open>C25. A request that waits for its handler has the client's header fields without those of the
  connection itself: the seven hop-by-hop names and the elements of the Connection header are
  gone, compared without case, and every other field is as the client sent it, but for the
  server's own note of the original method, which is there exactly for HEAD.\<close>

theorem hop_by_hop_stripped:
  assumes "request_headers sp" "request_methods sp" "request_parts sp"
    and "Pending_job pool (Handle_request h) \<in> set (pending (handleParsedRequest sp e srv s))"
    and "Pending_job pool (Handle_request h) \<notin> set (pending s)"
  shows "request_header sp (handleParsedRequest sp e srv s) k =
    (if ascii_lower k = ascii_lower originalMethod
     then (if rq_getMethod sp (itsRequest s) = HEAD then Some ''HEAD'' else None)
     else if ascii_lower k \<in> connection_fields (request_header sp s ''Connection'') then None
     else request_header sp s k)"
proof -
  obtain ip u where u: "itsRequest u = rq_setClientIP sp (itsRequest s) ip"
    "itsRequest (handleParsedRequest sp e srv s) = itsRequest (take_head_method sp (stripHopByHopHeaders sp u))"
    using queued_request[OF assms(4,5)] by blast
  have client: "request_header sp u k = request_header sp s k"
    "rq_getMethod sp (itsRequest u) = rq_getMethod sp (itsRequest s)" for k
    using assms(3) u(1) by (simp_all add: request_parts_def)
  have "rq_getMethod sp (itsRequest (stripHopByHopHeaders sp u)) = rq_getMethod sp (itsRequest u)"
  proof -
    have "rq_getMethod sp (fold (\<lambda>name q. rq_removeHeader sp q name) names q) = rq_getMethod sp q" for names q
      using assms(2) by (induction names arbitrary: q) (simp_all add: request_methods_def)
    then show ?thesis by (simp add: stripHopByHopHeaders_def Let_def)
  qed
  then show ?thesis
    by (simp add: u(2) take_head_method_header[OF assms(1,2)] stripHopByHopHeaders_header[OF assms(1)] client)
qed

text \<open>Under high load a request that is not an administrator's is answered at once: no plugin is
  called and none is queued for it.\<close>

theorem overload_refused:
  assumes "env_loadHigh e" "getHandlerView sp (itsRequest s) = Some h"
    and "rq_getMethodString sp (itsRequest s) \<noteq> ''OPTIONS''"
    and "hv_isCatchNoMatch sp h \<or> \<not> hv_isAdminQuery sp h (itsRequest s) \<or> env_adminPoolSize e = 0"
  shows "let t = route_request sp e s in
    plugin_calls (hooks t) + handle_jobs (pending t) \<le> plugin_calls (hooks s) + handle_jobs (pending s)"
proof -
  have "route_request sp e s = sendStockReply sp e (st_high_load sp) (s\<lparr>itsAdminQuery := False\<rparr>)"
    using assms by (auto simp: route_request_def Let_def)
  moreover have "evolves 0 0 s (sendStockReply sp e (st_high_load sp) (s\<lparr>itsAdminQuery := False\<rparr>))"
    by (intro evolves_sendStockReply) simp
  ultimately show ?thesis by (simp add: evolves_def Let_def)
qed

subsection \<open>The call of the plugin\<close>

text \<open>What the job of a queued request does on an open socket, and on one that the timer has closed.\<close>

lemma handle_job_calls:
  assumes "reachable sp srv s" "Pending_job pool (Handle_request h) \<in> set (pending s)" "socketOpen s"
  shows "\<exists>rest. hooks (run_handler sp e srv (Job_run pool (Handle_request h)) s) =
      hooks s @ Client_started (rq_getClientIP sp (itsRequest s)) #
        Plugin_called (hv_getPluginName sp h) # rest \<and>
    plugin_calls rest = 0"
proof -
  let ?p = "Pending_job pool (Handle_request h)"
  note inv = connection.inv_reach[OF assms(1)]
  have base: "\<not> itsPrematurelyDisconnected s" "\<not> lockHeld s"
    using inv by (auto simp: conn_inv_def base_inv_def)
  have jobs: "handle_jobs (remove1 ?p (pending s)) = 0"
    using conn_inv_single(3)[OF inv assms(2)]
    by (auto simp: handle_jobs_def others_def filter_empty_conv elim!: is_handle_job.elims)
  define b where "b = begin_handling sp h (cancelTimer (complete ?p s))"
  have b: "hooks b = hooks s @ [Client_started (rq_getClientIP sp (itsRequest s)),
      Plugin_called (hv_getPluginName sp h)]" "handle_jobs (pending b) = 0"
    using base jobs
    by (simp_all add: b_def begin_handling_def Let_def cancelTimer_def complete_def reportInfo_def add_report_def)
  have c: "\<not> itsPrematurelyDisconnected (cancelTimer (complete ?p s))" "socketOpen (cancelTimer (complete ?p s))"
    using base assms(3) by (simp_all add: cancelTimer_def complete_def)
  define t where "t = run_handler sp e srv (Job_run pool (Handle_request h)) s"
  have "evolves 0 0 b (end_handling sp e h r ok (b\<lparr>itsRequest := q, itsResponse := p\<rparr>))" for r ok q p
    by (intro evolves_end_handling) simp
  moreover have "t = (case env_handle e h (itsRequest b) (itsResponse b) of None \<Rightarrow> b
      | Some (q, p, ok) \<Rightarrow> end_handling sp e h (env_interrupt e (createCancellationToken sp srv h b)) ok
          (b\<lparr>itsRequest := q, itsResponse := p\<rparr>))"
    using c by (simp add: t_def handleCompletedRead_def Let_def flip: b_def)
  ultimately have "evolves 0 0 b t" by (auto split: option.split prod.split)
  then obtain rest where "hooks t = hooks b @ rest" "served t \<le> served b"
    by (auto simp: evolves_def extends_def)
  with b show ?thesis by (auto simp: t_def intro!: exI[of _ rest])
qed

lemma handle_job_on_closed_socket:
  assumes "reachable sp srv s" "Pending_job pool (Handle_request h) \<in> set (pending s)" "\<not> socketOpen s"
  shows "run_handler sp e srv (Job_run pool (Handle_request h)) s =
    cancelTimer (complete (Pending_job pool (Handle_request h)) s)"
proof -
  let ?s = "cancelTimer (complete (Pending_job pool (Handle_request h)) s)"
  have "\<not> itsPrematurelyDisconnected s"
    using connection.inv_reach[OF assms(1)] by (simp add: conn_inv_def base_inv_def)
  with assms(3) have "\<not> itsPrematurelyDisconnected ?s" "\<not> socketOpen ?s"
    by (simp_all add: cancelTimer_def complete_def)
  then show ?thesis by (simp add: handleCompletedRead_def Let_def)
qed

text \<open>C22. A request that has been queued reaches its plugin, and exactly once, if its client can still be
  answered; if the timer has expired meanwhile, a 408 was sent and the socket closed, then
  the plugin is not called, and the connection ends without a word.\<close>

theorem queued_request_reaches_plugin:
  assumes "reachable sp srv s" "Pending_job pool (Handle_request h) \<in> set (pending s)"
  shows "let t = run_handler sp e srv (Job_run pool (Handle_request h)) s in
    if socketOpen s then
      \<exists>rest. hooks t = hooks s @ Client_started (rq_getClientIP sp (itsRequest s)) #
        Plugin_called (hv_getPluginName sp h) # rest \<and> plugin_calls rest = 0
    else hooks t = hooks s \<and> wire t = wire s \<and> ops t = []"
proof (cases "socketOpen s")
  case True
  with handle_job_calls[OF assms, of e] show ?thesis by (simp add: Let_def)
next
  case False
  have "ops (complete (Pending_job pool (Handle_request h)) s) = []"
    using conn_inv_single(3)[OF connection.inv_reach[OF assms(1)] assms(2)] by (simp add: complete_def)
  with False handle_job_on_closed_socket[OF assms False, of e] show ?thesis
    by (simp add: Let_def del: run_handler.simps) (simp add: cancelTimer_def complete_def)
qed

end
