(* ===== verification/Conn_Phases.thy ===== *)
theory Conn_Phases
  imports Conn_Properties
begin

text \<open>
  The protocol a connection follows, as a small state machine, and the proof that the handlers
  refine it. The phase of a connection is the kind of operation it waits for; \<open>moves\<close> says
  which phases a handler may leave it in. What the machine cannot do, the connection cannot:
  it does not go from a chunked stream back to reading but through the final write.
\<close>

subsection \<open>The machine\<close>

datatype phase = Handshaking | Reading | Queued | Fetching writer | Sending writer | Over

fun operation_phase :: "'h pending \<Rightarrow> phase" where
  "operation_phase Pending_handshake = Handshaking"
| "operation_phase Pending_read = Reading"
| "operation_phase Pending_posted = Reading"
| "operation_phase Pending_disconnect_read = Over"
| "operation_phase (Pending_write w off) = Sending w"
| "operation_phase (Pending_timer generation) = Over"
| "operation_phase (Pending_job pool (Handle_request h)) = Queued"
| "operation_phase (Pending_job pool Next_chunk) = Fetching Stream_writer"
| "operation_phase (Pending_job pool Next_chunked_chunk) = Fetching Chunked_writer"

definition phase_of :: "('q, 'p, 'h) conn \<Rightarrow> phase" where
  "phase_of s = (case ops s of [] \<Rightarrow> Over | p # _ \<Rightarrow> operation_phase p)"

fun moves :: "phase \<Rightarrow> phase set" where
  "moves Handshaking = {Reading, Over}"
| "moves Reading = {Reading, Queued, Over}"
| "moves Queued =
     {Reading, Over, Sending Regular_writer, Sending Stream_writer, Fetching Stream_writer,
      Sending Chunked_writer, Fetching Chunked_writer, Sending Final_writer}"
| "moves (Fetching Stream_writer) = {Sending Stream_writer, Fetching Stream_writer, Reading, Over}"
| "moves (Fetching Chunked_writer) =
     {Sending Chunked_writer, Fetching Chunked_writer, Sending Final_writer, Over}"
| "moves (Fetching _) = {}"
| "moves (Sending Stream_writer) = {Sending Stream_writer, Fetching Stream_writer, Over}"
| "moves (Sending Chunked_writer) = {Sending Chunked_writer, Fetching Chunked_writer, Over}"
| "moves (Sending w) = {Sending w, Reading, Over}"
| "moves Over = {}"

inductive phase_step :: "phase \<Rightarrow> unit \<Rightarrow> phase \<Rightarrow> bool" where
  phase_move: "p' \<in> moves p \<Longrightarrow> phase_step p u p'"

inductive_simps phase_step_iff: "phase_step p u p'"

definition phase_start :: "phase \<Rightarrow> bool" where
  "phase_start p \<longleftrightarrow> p \<in> {Handshaking, Reading, Over}"

subsection \<open>Where a handler leads\<close>

text \<open>A handler runs with no operation pending; \<open>leads P t\<close>: what it has started is in \<open>P\<close>.\<close>

definition leads :: "phase set \<Rightarrow> ('q, 'p, 'h) conn \<Rightarrow> bool" where
  "leads P t \<longleftrightarrow> operation_phase ` set (ops t) \<subseteq> P"

named_theorems leading "where the functions of a connection lead"

lemma leads_none [intro]: "ops t = [] \<Longrightarrow> leads P t"
  by (simp add: leads_def del: set_others)

lemma leads_frame [simp]:
  "leads P (reportInfo sp m s) = leads P s" "leads P (finalizeStreamLogging sp s) = leads P s"
  "leads P (notifyBackendFinished sp st s) = leads P s" "leads P (closeSocket s) = leads P s"
  by (simp_all add: leads_def reportInfo_def add_report_def finalizeStreamLogging_def split_beta
      notifyBackendFinished_def closeSocket_def)

lemma ops_frame [simp]:
  "ops (reportInfo sp m s) = ops s" "ops (reportError sp m s) = ops s"
  "ops (finalizeStreamLogging sp s) = ops s" "ops (notifyBackendFinished sp st s) = ops s"
  "ops (set_header sp k v s) = ops s" "ops (remove_header sp k s) = ops s"
  "ops (fst (sync_write a d s)) = ops s" "ops (closeSocket s) = ops s"
  "ops (armTimer n s) = ops s" "ops (cancelTimer s) = ops s"
  by (simp_all add: reportInfo_def reportError_def add_report_def finalizeStreamLogging_def split_beta
      notifyBackendFinished_def set_header_def remove_header_def sync_write_def closeSocket_def
      armTimer_def add_pending_def cancelTimer_def Let_def)

lemma ops_setServerHeaders [simp]: "ops (setServerHeaders sp e s) = ops s"
  using reshapes_setServerHeaders[OF reshapesI(1), of s sp e] by (auto simp: reshapes_def)

lemma ops_shape_response [simp]:
  "ops (encode_response sp s) = ops s" "ops (frame_response sp s) = ops s"
  "ops (snd (flushPendingHeaders sp e s)) = ops s" "ops (snd (preparePendingHeaders sp s)) = ops s"
  by (auto simp: encode_response_def frame_response_def flushPendingHeaders_def
      preparePendingHeaders_def Let_def split_beta split: option.split)

lemma ops_requests [simp]:
  "ops (snd (resolveClientIP sp e srv s)) = ops s" "ops (negotiate sp e s) = ops s"
  "ops (stripHopByHopHeaders sp s) = ops s" "ops (take_head_method sp s) = ops s"
  "ops (begin_handling sp h s) = ops s"
  by (auto simp: resolveClientIP_def negotiate_def stripHopByHopHeaders_def take_head_method_def
      begin_handling_def Let_def split: option.split)

lemma ops_closing [simp]: "\<not> itsKeepAlive s \<Longrightarrow> ops (sendStockReply sp e st s) = ops s"
  using sendStockReply_closes[of s sp e st] by auto

lemma leads_start [leading]:
  "ops s = [] \<Longrightarrow> Reading \<in> P \<Longrightarrow> leads P (startRead s)"
  "ops s = [] \<Longrightarrow> Sending w \<in> P \<Longrightarrow> leads P (async_write_some w off s)"
  "ops s = [] \<Longrightarrow> operation_phase (Pending_job pool j) \<in> P \<Longrightarrow> leads P (add_pending (Pending_job pool j) s)"
  "ops s = [] \<Longrightarrow> Reading \<in> P \<Longrightarrow> leads P (add_pending Pending_posted s)"
  by (simp_all add: leads_def startRead_def async_write_some_def add_pending_def del: set_others)

lemma leads_finishResponse [leading]:
  "ops s = [] \<Longrightarrow> Reading \<in> P \<Longrightarrow> leads P (finishResponse sp e s)"
  by (auto simp: finishResponse_def Let_def intro!: leading)

lemma leads_sendSimpleReply [leading]:
  "ops s = [] \<Longrightarrow> Reading \<in> P \<Longrightarrow> leads P (sendSimpleReply sp e s)"
  by (auto simp: sendSimpleReply_def Let_def split_beta split: option.split intro!: leading)

lemma leads_sendStockReply [leading]:
  "ops s = [] \<Longrightarrow> (itsKeepAlive s \<Longrightarrow> Reading \<in> P) \<Longrightarrow> leads P (sendStockReply sp e st s)"
proof (cases "itsKeepAlive s")
  case False
  then show "ops s = [] \<Longrightarrow> ?thesis" by (intro leads_none) simp
qed (auto simp: sendStockReply_def Let_def intro!: leading)

lemma leads_schedule [leading]:
  "ops s = [] \<Longrightarrow> Fetching Stream_writer \<in> P \<Longrightarrow> leads P (scheduleChunkGetter sp e s)"
  "ops s = [] \<Longrightarrow> Fetching Chunked_writer \<in> P \<Longrightarrow> leads P (scheduleChunkedChunkGetter sp e s)"
  by (auto simp: scheduleChunkGetter_def scheduleChunkedChunkGetter_def Let_def intro!: leading)

lemma leads_write_handler [leading]:
  "ops s = [] \<Longrightarrow> moves (Sending w) \<subseteq> P \<Longrightarrow> leads P (write_handler sp e w err n s)"
  by (cases w)
    (auto simp: writeRegularReply_def writeStreamReply_def writeChunkedReply_def
      finalizeChunkedReply_def Let_def intro!: leading)

lemma leads_getNextChunk [leading]:
  "ops s = [] \<Longrightarrow> moves (Fetching Stream_writer) \<subseteq> P \<Longrightarrow> leads P (getNextChunk sp e s)"
  "ops s = [] \<Longrightarrow> moves (Fetching Chunked_writer) \<subseteq> P \<Longrightarrow> leads P (getNextChunkedChunk sp e s)"
  by (auto simp: getNextChunk_def getNextChunkedChunk_def Let_def split_beta intro!: leading)

lemma leads_start_reply [leading]:
  fixes s :: "('q, 'p, 'h) conn"
  assumes "ops s = []" "moves Queued \<subseteq> P"
  shows "leads P (start_reply sp e s)"
proof -
  have "leads P (startRegularReply sp e t)" "leads P (startGatewayReply sp e t)"
    "leads P (startChunkedReply sp e t)" "leads P (startStreamReply sp e t)"
    if "ops t = []" for t :: "('q, 'p, 'h) conn"
    using that assms(2)
    by (auto simp: startRegularReply_def startGatewayReply_def startChunkedReply_def startStreamReply_def
        Let_def split_beta split: option.split intro!: leading)
  then show ?thesis using assms(1) by (auto simp: start_reply_def)
qed

lemma leads_handleCompletedRead [leading]:
  "ops s = [] \<Longrightarrow> moves Queued \<subseteq> P \<Longrightarrow> leads P (handleCompletedRead sp e srv h s)"
  by (auto simp: handleCompletedRead_def end_handling_def Let_def split: option.split intro!: leading)

lemma leads_scheduleRequest [leading]:
  "ops s = [] \<Longrightarrow> moves Reading \<subseteq> P \<Longrightarrow> leads P (scheduleRequest sp e h s)"
  by (auto simp: scheduleRequest_def Let_def intro!: leading)

lemma leads_route_request [leading]:
  "ops s = [] \<Longrightarrow> moves Reading \<subseteq> P \<Longrightarrow> leads P (route_request sp e s)"
  by (auto simp: route_request_def Let_def split: option.split intro!: leading)

lemma leads_handleParsedRequest [leading]:
  assumes "ops s = []" "moves Reading \<subseteq> P" shows "leads P (handleParsedRequest sp e srv s)"
proof -
  obtain resolved u where u: "resolveClientIP sp e srv s = (resolved, u)" by force
  then have "ops u = []" using ops_requests(1)[of sp e srv s] assms(1) by simp
  with assms(2) show ?thesis by (auto simp: handleParsedRequest_def u Let_def intro!: leading)
qed

lemma leads_handleExpectContinue:
  assumes "ops s = []" "Reading \<in> P"
  shows "leads P (snd (handleExpectContinue sp e s))"
    and "fst (handleExpectContinue sp e s) \<Longrightarrow> ops (snd (handleExpectContinue sp e s)) = []"
  using assms by (auto simp: handleExpectContinue_def Let_def split_beta intro!: leading)

lemma leads_handleRead [leading]:
  assumes "ops s = []" "moves Reading \<subseteq> P" shows "leads P (handleRead sp e srv err bytes s)"
proof -
  have i: "leads P (handleIncompleteRequest sp e t)" if "ops t = []" for t
    using that assms(2) leads_handleExpectContinue[OF that]
    by (auto simp: handleIncompleteRequest_def Let_def split_beta intro!: leading)
  have "leads P (receive sp e srv bytes t)" if "ops t = []" for t
    using that assms(2) i by (auto simp: receive_def Let_def split: parsing_status.split intro!: leading)
  then show ?thesis
    using assms by (auto simp: handleRead_def handleReadError_def Let_def intro!: leading)
qed

subsection \<open>The refinement\<close>

lemma phase_of_pending:
  assumes "conn_inv sp s" "p \<in> set (pending s)" "\<not> is_timer p"
  shows "phase_of s = operation_phase p" "ops (complete p s) = []"
  using conn_inv_single[OF assms] by (simp_all add: phase_of_def complete_def)

lemma leads_phase_of: "leads P t \<Longrightarrow> phase_of t \<in> insert Over P"
  by (cases "ops t") (auto simp: leads_def phase_of_def simp del: set_others)

lemma handleTimer_phase:
  assumes "\<not> lockHeld s"
  shows "phase_of (handleTimer sp e err g s) = phase_of s"
proof -
  have "ops (handleTimer sp e err g s) = ops s"
    using assms by (auto simp: handleTimer_def closeSocket_def Let_def)
  then show ?thesis by (simp only: phase_of_def)
qed

lemma step_phase:
  assumes inv: "conn_inv sp s" and step: "conn_step sp srv s (e, ev) t"
  shows "if is_timer (operation_of ev) then phase_of t = phase_of s else phase_of t \<in> moves (phase_of s)"
proof -
  have mem: "operation_of ev \<in> set (pending s)" and t: "t = run_handler sp e srv ev s"
    using step by (auto simp: conn_step_iff dispatch_def split: if_splits)
  show ?thesis
  proof (cases "is_timer (operation_of ev)")
    case True
    then obtain g err where ev: "ev = Timer_fired g err" by (cases ev) auto
    have "\<not> lockHeld (complete (Pending_timer g) s)" "phase_of (complete (Pending_timer g) s) = phase_of s"
      using inv by (simp_all add: conn_inv_def base_inv_def complete_def phase_of_def others_remove1)
    then show ?thesis using handleTimer_phase[of "complete (Pending_timer g) s"] by (simp add: t ev)
  next
    case False
    note p = phase_of_pending[OF inv mem False]
    have "leads (moves (phase_of s)) t \<and> Over \<in> moves (phase_of s)"
    proof (cases ev)
      case (Handshake_done err)
      with p show ?thesis by (auto simp: t handleHandshake_def intro!: leading)
    next
      case (Read_done err bytes)
      with p show ?thesis by (auto simp: t intro!: leading)
    next
      case Posted_run
      with p show ?thesis by (auto simp: t intro!: leading)
    next
      case (Disconnect_read_done err)
      then show ?thesis using conn_inv_single(2)[OF inv mem False] by simp
    next
      case (Write_done w off err n)
      then have "ops (written w off n s) = []" using p(2) by (simp add: written_def complete_def)
      from leads_write_handler[OF this order_refl, of w sp e err n] Write_done p
      show ?thesis by (cases w) (simp_all add: t)
    next
      case (Timer_fired g err)
      with False show ?thesis by simp
    next
      case (Job_run pool j)
      with p show ?thesis by (cases j) (auto simp: t Let_def intro!: leading)
    qed
    then show ?thesis using leads_phase_of[of "moves (phase_of s)" t] False by auto
  qed
qed

text \<open>
  A forward simulation: every step of the concrete system is a step of the abstract one or
  leaves the abstract state as it is. Then what the abstract system can reach bounds what
  the concrete one can.
\<close>

locale simulation =
  fixes start :: "'s \<Rightarrow> bool" and step :: "'s \<Rightarrow> 'e \<Rightarrow> 's \<Rightarrow> bool"
    and astart :: "'a \<Rightarrow> bool" and astep :: "'a \<Rightarrow> 'l \<Rightarrow> 'a \<Rightarrow> bool"
    and abstraction :: "'s \<Rightarrow> 'a"
  assumes sim_start: "start s \<Longrightarrow> astart (abstraction s)"
    and sim_step: "reach start step s \<Longrightarrow> step s x s' \<Longrightarrow>
      abstraction s' = abstraction s \<or> (\<exists>l. astep (abstraction s) l (abstraction s'))"
begin

lemma sim_reach: "reach start step s \<Longrightarrow> reach astart astep (abstraction s)"
proof (induction rule: reach.induct)
  case (reach_start s)
  then show ?case by (intro reach.reach_start sim_start)
next
  case (reach_step s e s')
  with sim_step[OF reach_step.hyps] show ?case by (metis reach.reach_step)
qed

end

lemma phase_of_start: "conn_start sp srv s \<Longrightarrow> phase_start (phase_of s)"
proof (induction rule: conn_start.induct)
  case (started e count)
  then show ?case
    by (auto simp: start_def registerConnection_def armTimer_def add_pending_def startRead_def
        Let_def new_connection_eq phase_of_def phase_start_def)
next
  case (rejected e)
  have "ops (rejectConnection sp e (new_connection sp srv)) = []"
    by (simp add: rejectConnection_def) (simp add: new_connection_eq)
  then show ?case by (simp add: phase_of_def phase_start_def)
qed

interpretation protocol: simulation
  "conn_start sp srv" "conn_step sp srv" phase_start phase_step phase_of
  for sp :: "('q, 'p, 'h) spine" and srv
proof (unfold_locales, goal_cases)
  case (1 s)
  then show ?case by (rule phase_of_start)
next
  case (2 s x s')
  obtain e ev where x: "x = (e, ev)" by force
  show ?case
    using step_phase[OF connection.inv_reach[OF 2(1)] 2(2)[unfolded x]]
    by (auto simp: phase_step_iff split: if_splits)
qed

text \<open>C3. The handlers of a connection refine the protocol machine: in every reachable state, the
  completion of an operation leads from the phase of the connection to one of its \<open>moves\<close>,
  and the timer leaves the phase as it is.\<close>

theorem connection_follows_protocol:
  assumes "reachable sp srv s" "conn_step sp srv s (e, ev) t"
  shows "(is_timer (operation_of ev) \<longrightarrow> phase_of t = phase_of s) \<and>
    (\<not> is_timer (operation_of ev) \<longrightarrow> phase_of t \<in> moves (phase_of s)) \<and>
    reach phase_start phase_step (phase_of t)"
  using step_phase[OF connection.inv_reach[OF assms(1)] assms(2)]
    protocol.sim_reach[OF reach_step[OF assms]]
  by (simp split: if_splits)

text \<open>The phases of a chunked body, from which the machine gets back to \<open>Reading\<close> only through the
  write of the last chunk.\<close>

definition in_chunked_body :: "phase \<Rightarrow> bool" where
  "in_chunked_body p \<longleftrightarrow> p = Fetching Chunked_writer \<or> p = Sending Chunked_writer"

lemma chunked_moves:
  "in_chunked_body p \<Longrightarrow> p' \<in> moves p \<Longrightarrow> in_chunked_body p' \<or> p' = Sending Final_writer \<or> p' = Over"
  by (auto simp: in_chunked_body_def)

lemma over_stays: "reachable sp srv s \<Longrightarrow> phase_of s = Over \<Longrightarrow> run_events sp srv evs s = Some t \<Longrightarrow> phase_of t = Over"
proof (induction evs arbitrary: s)
  case (Cons x evs)
  obtain e ev where x: "x = (e, ev)" by force
  with Cons.prems obtain u where u: "dispatch sp srv e ev s = Some u" "run_events sp srv evs u = Some t"
    by (auto split: option.splits)
  have step: "conn_step sp srv s (e, ev) u" by (rule handler_step[OF u(1)])
  have "phase_of u = Over"
    using step_phase[OF connection.inv_reach[OF Cons.prems(1)] step] Cons.prems(2) by (auto split: if_splits)
  from Cons.IH[OF reach_step[OF Cons.prems(1) step] this u(2)] show ?case .
qed simp

end
