(* ===== verification/Conn_Calls.thy ===== *)
theory Conn_Calls
  imports Exchange_Rules Conn_Phases
begin

text \<open>
  When plugins are called. Reading a request calls no hook at all, writing a response calls
  hooks but no plugin, and so the calls of a plugin are the runs of queued requests on open
  sockets: none is repeated, and none happens for a client that has been cut off.
\<close>

subsection \<open>Reading calls no hook\<close>

lemma hooks_frame [simp]:
  "hooks (reportInfo sp m s) = hooks s" "hooks (reportError sp m s) = hooks s"
  "hooks (set_header sp k v s) = hooks s" "hooks (remove_header sp k s) = hooks s"
  "hooks (fst (sync_write a d s)) = hooks s" "hooks (closeSocket s) = hooks s"
  "hooks (armTimer n s) = hooks s" "hooks (startRead s) = hooks s" "hooks (add_pending p s) = hooks s"
  "hooks (complete p s) = hooks s"
  by (simp_all add: reportInfo_def reportError_def add_report_def set_header_def remove_header_def
      sync_write_def closeSocket_def armTimer_def startRead_def add_pending_def complete_def Let_def)

lemma hooks_setServerHeaders [simp]: "hooks (setServerHeaders sp e s) = hooks s"
  using reshapes_setServerHeaders[OF reshapesI(1), of s sp e] by (auto simp: reshapes_def)

lemma hooks_replies [simp]:
  fixes sp :: "('q, 'p, 'h) spine" and s :: "('q, 'p, 'h) conn"
  shows "hooks (finishResponse sp e s) = hooks s" "hooks (sendSimpleReply sp e s) = hooks s"
    "hooks (sendStockReply sp e st s) = hooks s"
proof -
  have f: "hooks (finishResponse sp e u) = hooks u" for u :: "('q, 'p, 'h) conn"
    by (simp add: finishResponse_def Let_def)
  have "hooks (sendSimpleReply sp e u) = hooks u" for u :: "('q, 'p, 'h) conn"
    by (simp add: sendSimpleReply_def Let_def split_beta f split: option.split)
  then show "hooks (finishResponse sp e s) = hooks s" "hooks (sendSimpleReply sp e s) = hooks s"
    "hooks (sendStockReply sp e st s) = hooks s"
    by (simp_all add: f sendStockReply_def Let_def)
qed

lemma hooks_requests [simp]:
  "hooks (snd (resolveClientIP sp e srv s)) = hooks s" "hooks (negotiate sp e s) = hooks s"
  "hooks (stripHopByHopHeaders sp s) = hooks s" "hooks (take_head_method sp s) = hooks s"
  "hooks (scheduleRequest sp e h s) = hooks s"
  by (auto simp: resolveClientIP_def negotiate_def stripHopByHopHeaders_def take_head_method_def
      scheduleRequest_def Let_def split: option.split)

lemma hooks_handleParsedRequest [simp]: "hooks (handleParsedRequest sp e srv s) = hooks s"
  by (simp add: handleParsedRequest_def route_request_def Let_def split_beta split: option.split)

lemma hooks_handleExpectContinue [simp]: "hooks (snd (handleExpectContinue sp e s)) = hooks s"
  by (simp add: handleExpectContinue_def Let_def split_beta)

lemma hooks_handleRead [simp]: "hooks (handleRead sp e srv err bytes s) = hooks s"
proof -
  have "hooks (receive sp e srv bytes u) = hooks u" for u
    by (simp add: receive_def handleIncompleteRequest_def Let_def split_beta split: parsing_status.split)
  then show ?thesis by (simp add: handleRead_def handleReadError_def Let_def)
qed

subsection \<open>The calls of plugins\<close>

fun runs_request :: "'h event \<Rightarrow> bool" where
  "runs_request (Job_run pool (Handle_request h)) = True"
| "runs_request ev = False"

text \<open>Without a queued request, what adds no plugin call to those made and queued makes none.\<close>

lemma calls_kept:
  assumes "evolves 0 0 s t" "handle_jobs (pending s) = 0"
  shows "plugin_calls (hooks t) = plugin_calls (hooks s)"
proof -
  obtain h where "hooks t = hooks s @ h" using assms(1) by (auto simp: evolves_def extends_def)
  moreover have "served t \<le> served s" using assms(1) by (simp add: evolves_def)
  ultimately show ?thesis using assms(2) by simp
qed

text \<open>A connection that waits for something else than the run of a request has none queued.\<close>

lemma no_handle_job:
  assumes "conn_inv sp s" "p \<in> set (pending s)" "\<not> is_timer p" "\<not> is_handle_job p"
  shows "handle_jobs (pending s) = 0"
proof -
  have "others (remove1 p (pending s)) = []" by (rule conn_inv_single(3)[OF assms(1-3)])
  then have "handle_jobs (remove1 p (pending s)) = 0"
    by (auto simp: handle_jobs_def others_def filter_empty_conv elim!: is_handle_job.elims)
  with handle_jobs_remove1[OF assms(2)] assms(4) show ?thesis by simp
qed

text \<open>C7. In every step of a connection plugins are called as often as a queued request is run
  on an open socket: the run of a request calls its plugin once, and no other handler, neither
  one that reads, writes, streams a chunk or times out, ever calls one; after the timer has
  closed the socket not even the run does.\<close>

theorem plugin_calls_are_job_runs:
  assumes "reachable sp srv s" "conn_step sp srv s (e, ev) t"
  shows "plugin_calls (hooks t) =
    plugin_calls (hooks s) + (if runs_request ev \<and> socketOpen s then 1 else 0)"
proof -
  note inv = connection.inv_reach[OF assms(1)]
  have mem: "operation_of ev \<in> set (pending s)" and ok: "event_ok ev s" and t: "t = run_handler sp e srv ev s"
    using assms(2) by (auto simp: conn_step_iff dispatch_def split: if_splits)
  note none = no_handle_job[OF inv mem]
  show ?thesis
  proof (cases ev)
    case (Write_done w off err n)
    with mem ok have "evolves 0 0 s t"
      by (simp add: t evolves_write_handler written_evolves del: event_ok.simps)
    with none Write_done show ?thesis by (simp add: calls_kept)
  next
    case (Job_run pool j)
    show ?thesis
    proof (cases j)
      case (Handle_request h)
      with Job_run mem have job: "Pending_job pool (Handle_request h) \<in> set (pending s)"
        and u: "t = run_handler sp e srv (Job_run pool (Handle_request h)) s" by (simp_all add: t)
      show ?thesis
      proof (cases "socketOpen s")
        case True
        from handle_job_calls[OF assms(1) job True, of e] True show ?thesis
          by (auto simp: u Job_run Handle_request simp del: run_handler.simps)
      next
        case False
        from handle_job_on_closed_socket[OF assms(1) job False, of e] False show ?thesis
          by (simp add: u del: run_handler.simps) (simp add: cancelTimer_def complete_def)
      qed
    next
      case Next_chunk
      with Job_run mem have "evolves 0 0 s t" by (simp add: t Let_def evolves_getNextChunk complete_evolves)
      with none Job_run Next_chunk show ?thesis by (simp add: calls_kept)
    next
      case Next_chunked_chunk
      with Job_run mem have "evolves 0 0 s t"
        by (simp add: t Let_def evolves_getNextChunkedChunk complete_evolves)
      with none Job_run Next_chunked_chunk show ?thesis by (simp add: calls_kept)
    qed
  next
    case (Disconnect_read_done err)
    with mem conn_inv_single(2)[OF inv mem] show ?thesis by simp
  next
    case (Timer_fired g err)
    then show ?thesis by (simp add: t handleTimer_def Let_def)
  next
    case (Handshake_done err)
    then show ?thesis by (simp add: t handleHandshake_def)
  qed (simp_all add: t)
qed

end
