(* ===== verification/Conn_Fresh.thy ===== *)
theory Conn_Fresh
  imports Conn_Phases
begin

text \<open>
  Nothing of one request reaches the next. Whenever a connection waits for a request, all that
  belongs to a request is as on a new connection, \<open>blank\<close>, whatever has been answered on it
  before: the only way back to reading is through \<open>finishResponse\<close>.
\<close>

subsection \<open>The state between two requests\<close>

text \<open>The address of the client is kept: it belongs to the connection. After the timer has expired the
  response is the 408 that was sent.\<close>

definition blank :: "('q, 'p, 'h) spine \<Rightarrow> ('q, 'p, 'h) conn \<Rightarrow> bool" where
  "blank sp s \<longleftrightarrow>
     (itsRequest s = new_Request sp \<or> (\<exists>ip. itsRequest s = rq_setClientIP sp (new_Request sp) ip)) \<and>
     (hasTimedOut s \<or> itsResponse s = new_Response sp) \<and>
     itsResponseString s = [] \<and> itsResponseVersion s = ''1.0'' \<and> \<not> itsKeepAlive s \<and>
     \<not> itsQueryIsFast s \<and> \<not> itsAdminQuery s \<and> \<not> itsHeadRequest s \<and> \<not> itsBackendNotified s \<and>
     itsSentBytes s = 0 \<and> itsTotalStreamedBytes s = 0 \<and> itsDeclaredContentLength s = 0"

fun awaits_request :: "'h pending \<Rightarrow> bool" where
  "awaits_request Pending_handshake = True"
| "awaits_request Pending_read = True"
| "awaits_request Pending_posted = True"
| "awaits_request p = False"

text \<open>An \<^verbatim>\<open>Expect\<close> may have been answered for a request of which a part has arrived.\<close>

definition unread :: "('q, 'p, 'h) spine \<Rightarrow> ('q, 'p, 'h) conn \<Rightarrow> 'h pending \<Rightarrow> bool" where
  "unread sp s p \<longleftrightarrow>
     blank sp s \<and> (itsExpectHandled s \<longrightarrow> p = Pending_read \<and> itsBuffer s \<noteq> [])"

definition renewed :: "('q, 'p, 'h) spine \<Rightarrow> ('q, 'p, 'h) conn \<Rightarrow> bool" where
  "renewed sp s \<longleftrightarrow> (\<forall>p \<in> set (ops s). awaits_request p \<longrightarrow> unread sp s p)"

subsection \<open>What the handlers leave\<close>

named_theorems renewing "functions that leave a connection blank or not waiting for a request"

lemma renewed_none [intro]: "ops t = [] \<Longrightarrow> renewed sp t"
  by (simp add: renewed_def del: set_others)

lemma renewed_frame [simp]:
  "renewed sp (reportInfo sp m s) = renewed sp s" "renewed sp (reportError sp m s) = renewed sp s"
  by (simp_all add: renewed_def unread_def blank_def reportInfo_def reportError_def add_report_def)

lemma renewed_start [renewing]:
  "ops s = [] \<Longrightarrow> renewed sp (async_write_some w off s)"
  "ops s = [] \<Longrightarrow> renewed sp (add_pending (Pending_job pool j) s)"
  "ops s = [] \<Longrightarrow> unread sp s Pending_read \<Longrightarrow> renewed sp (startRead s)"
  by (simp_all add: renewed_def unread_def blank_def startRead_def async_write_some_def add_pending_def
      del: set_others)

lemma renewed_finishResponse [renewing]: "ops s = [] \<Longrightarrow> renewed sp (finishResponse sp e s)"
  by (auto simp: finishResponse_def Let_def renewed_def unread_def blank_def armTimer_def startRead_def
      add_pending_def simp del: set_others)

lemma renewed_sendSimpleReply [renewing]: "ops s = [] \<Longrightarrow> renewed sp (sendSimpleReply sp e s)"
  by (auto simp: sendSimpleReply_def Let_def split_beta split: option.split intro!: renewing)

lemma renewed_sendStockReply [renewing]: "ops s = [] \<Longrightarrow> renewed sp (sendStockReply sp e st s)"
  by (auto simp: sendStockReply_def Let_def intro!: renewing)

lemma renewed_schedule [renewing]:
  "ops s = [] \<Longrightarrow> renewed sp (scheduleChunkGetter sp e s)"
  "ops s = [] \<Longrightarrow> renewed sp (scheduleChunkedChunkGetter sp e s)"
  by (auto simp: scheduleChunkGetter_def scheduleChunkedChunkGetter_def Let_def intro!: renewing)

lemma renewed_write_handler [renewing]: "ops s = [] \<Longrightarrow> renewed sp (write_handler sp e w err n s)"
  by (cases w)
    (auto simp: writeRegularReply_def writeStreamReply_def writeChunkedReply_def
      finalizeChunkedReply_def Let_def intro!: renewing)

lemma renewed_getNextChunk [renewing]:
  "ops s = [] \<Longrightarrow> renewed sp (getNextChunk sp e s)"
  "ops s = [] \<Longrightarrow> renewed sp (getNextChunkedChunk sp e s)"
  by (auto simp: getNextChunk_def getNextChunkedChunk_def Let_def split_beta intro!: renewing)

lemma renewed_start_reply [renewing]:
  fixes s :: "('q, 'p, 'h) conn"
  assumes "ops s = []"
  shows "renewed sp (start_reply sp e s)"
proof -
  have "renewed sp (startRegularReply sp e t)" "renewed sp (startGatewayReply sp e t)"
    "renewed sp (startChunkedReply sp e t)" "renewed sp (startStreamReply sp e t)"
    if "ops t = []" for t :: "('q, 'p, 'h) conn"
    using that
    by (auto simp: startRegularReply_def startGatewayReply_def startChunkedReply_def startStreamReply_def
        Let_def split_beta split: option.split intro!: renewing)
  then show ?thesis using assms by (auto simp: start_reply_def)
qed

lemma renewed_handleCompletedRead [renewing]:
  "ops s = [] \<Longrightarrow> renewed sp (handleCompletedRead sp e srv h s)"
  by (auto simp: handleCompletedRead_def end_handling_def Let_def split: option.split intro!: renewing)

lemma renewed_handleParsedRequest [renewing]:
  assumes "ops s = []" shows "renewed sp (handleParsedRequest sp e srv s)"
proof -
  have route: "renewed sp (route_request sp e t)" if "ops t = []" for t
    using that
    by (auto simp: route_request_def scheduleRequest_def Let_def split: option.split intro!: renewing)
  obtain resolved u where u: "resolveClientIP sp e srv s = (resolved, u)" by force
  then have "ops u = []" using ops_requests(1)[of sp e srv s] assms by simp
  then show ?thesis by (auto simp: handleParsedRequest_def u Let_def intro!: renewing route)
qed

text \<open>Waiting for the rest of a request, of which at least the header section has arrived if its
  \<^verbatim>\<open>Expect\<close> has been dealt with.\<close>

lemma peek_nothing [simp]: "\<not> head_complete (peekRequestHead sp [])"
  by (simp add: peekRequestHead_def find_str_def crlf_def first_sub.simps empty_head_def)

lemma unread_expect:
  assumes "unread sp s Pending_read" "fst (handleExpectContinue sp e s)"
  shows "unread sp (snd (handleExpectContinue sp e s)) Pending_read"
  using assms
  by (auto simp: handleExpectContinue_def Let_def split_beta unread_def blank_def sync_write_def
      split: if_splits)

lemma renewed_handleIncompleteRequest [renewing]:
  assumes "ops s = []" "unread sp s Pending_read"
  shows "renewed sp (handleIncompleteRequest sp e s)"
proof -
  have "\<not> fst (handleExpectContinue sp e s) \<Longrightarrow> renewed sp (snd (handleExpectContinue sp e s))"
    using assms(1) by (auto simp: handleExpectContinue_def Let_def split_beta intro!: renewing)
  moreover have "fst (handleExpectContinue sp e s) \<Longrightarrow> ops (snd (handleExpectContinue sp e s)) = []"
    using leads_handleExpectContinue(2)[OF assms(1), where P = UNIV] by simp
  ultimately show ?thesis
    using assms(1) unread_expect[OF assms(2), of e]
    by (auto simp: handleIncompleteRequest_def Let_def split_beta intro!: renewing)
qed

lemma unread_frame [simp]:
  "unread sp (s\<lparr>itsFinalStatus := f\<rparr>) p = unread sp s p" "unread sp (s\<lparr>itsIdle := d\<rparr>) p = unread sp s p"
  "unread sp (s\<lparr>itsReceivedBytes := n\<rparr>) p = unread sp s p" "unread sp (armTimer m s) p = unread sp s p"
  "unread sp (complete q s) p = unread sp s p"
  by (simp_all add: unread_def blank_def armTimer_def add_pending_def complete_def Let_def)

lemma renewed_handleRead [renewing]:
  assumes "ops s = []" "unread sp s p"
  shows "renewed sp (handleRead sp e srv err bytes s)"
proof -
  have "unread sp (t\<lparr>itsReceivedBytes := n, itsBuffer := itsBuffer t @ bytes\<rparr>) Pending_read"
    if "unread sp t p" for t n
    using that by (auto simp: unread_def blank_def)
  then have "renewed sp (receive sp e srv bytes t)" if "ops t = []" "unread sp t p" for t
    using that by (auto simp: receive_def Let_def split: parsing_status.split intro!: renewing)
  then show ?thesis
    using assms by (auto simp: handleRead_def handleReadError_def Let_def intro!: renewing)
qed

lemma renewed_handleTimer:
  assumes "renewed sp s" "\<not> lockHeld s"
  shows "renewed sp (handleTimer sp e err g s)"
proof -
  let ?s = "s\<lparr>lockHeld := True, hasTimedOut := True, itsKeepAlive := False\<rparr>"
  obtain p w f d where r: "sendStockReply sp e request_timeout ?s =
      ?s\<lparr>itsResponse := p, wire := w, itsFinalStatus := f, socketOpen := d, itsKeepAlive := False\<rparr>"
    using sendStockReply_closes[of ?s sp e request_timeout] by auto
  show ?thesis
    using assms r
    by (auto simp: handleTimer_def closeSocket_def Let_def renewed_def unread_def blank_def)
qed

subsection \<open>The invariant\<close>

lemma renewed_step:
  assumes inv: "conn_inv sp s" "renewed sp s" and step: "conn_step sp srv s (e, ev) t"
  shows "renewed sp t"
proof -
  have mem: "operation_of ev \<in> set (pending s)" and t: "t = run_handler sp e srv ev s"
    using step by (auto simp: conn_step_iff dispatch_def split: if_splits)
  show ?thesis
  proof (cases "is_timer (operation_of ev)")
    case True
    then obtain g err where ev: "ev = Timer_fired g err" by (cases ev) auto
    have "renewed sp (complete (Pending_timer g) s)" "\<not> lockHeld (complete (Pending_timer g) s)"
      using inv by (simp_all add: renewed_def unread_def blank_def complete_def others_remove1
          conn_inv_def base_inv_def)
    then show ?thesis by (simp add: t ev renewed_handleTimer)
  next
    case False
    have p: "ops (complete (operation_of ev) s) = []"
      using conn_inv_single(3)[OF inv(1) mem False] by (simp add: complete_def)
    have u: "awaits_request (operation_of ev) \<Longrightarrow> unread sp (complete (operation_of ev) s) (operation_of ev)"
      using inv(2) mem False by (simp add: renewed_def)
    show ?thesis
    proof (cases ev)
      case (Handshake_done err)
      with u have "unread sp (complete Pending_handshake s) Pending_read" by (simp add: unread_def)
      with p Handshake_done show ?thesis by (auto simp: t handleHandshake_def intro!: renewing)
    next
      case (Read_done err bytes)
      with p u show ?thesis by (simp add: t renewed_handleRead[of _ sp Pending_read])
    next
      case Posted_run
      with p u show ?thesis by (simp add: t renewed_handleRead[of _ sp Pending_posted])
    next
      case (Disconnect_read_done err)
      then show ?thesis using conn_inv_single(2)[OF inv(1) mem False] by simp
    next
      case (Write_done w off err n)
      then have "ops (written w off n s) = []" using p by (simp add: written_def complete_def)
      then show ?thesis by (simp add: t Write_done renewing)
    next
      case (Job_run pool j)
      with p show ?thesis by (cases j) (simp_all add: t Let_def renewing)
    qed (use False in simp)
  qed
qed

lemma renewed_conn_start: "conn_start sp srv s \<Longrightarrow> renewed sp s"
proof (induction rule: conn_start.induct)
  case (started e count)
  show ?case
    by (auto simp: renewed_def unread_def blank_def start_def registerConnection_def armTimer_def
        add_pending_def startRead_def Let_def new_connection_eq)
next
  case (rejected e)
  show ?case by (simp add: rejectConnection_def renewing new_connection_eq)
qed

interpretation renewal: inductive_invariant
  "conn_start sp srv" "conn_step sp srv" "\<lambda>s. conn_inv sp s \<and> renewed sp s"
  for sp :: "('q, 'p, 'h) spine" and srv
proof (unfold_locales, goal_cases)
  case (1 s)
  then show ?case by (simp add: conn_inv_start renewed_conn_start)
next
  case (2 s x t)
  obtain e ev where x: "x = (e, ev)" by force
  with 2 renewed_step[of sp s srv e ev t] show ?case by (auto intro: conn_inv_step)
qed

text \<open>C5. Nothing of one request reaches the next. Whenever a connection waits for a request, the
  request and the response (unless it has timed out), the output buffer, the version, the
  flags, the counters and the waiting header section are those of a new connection, but for
  the address of the client; and no \<^verbatim>\<open>Expect\<close> counts as answered before a byte of its request
  has arrived. When a parsed request waits for its handler, unless the connection has timed
  out, the response the handler will fill is a new one and its counters and buffers are
  cleared.\<close>

theorem handler_starts_fresh:
  assumes "reachable sp srv s" "p \<in> set (pending s)"
  shows "(p \<in> {Pending_handshake, Pending_read, Pending_posted} \<longrightarrow>
      (itsRequest s = new_Request sp \<or> (\<exists>ip. itsRequest s = rq_setClientIP sp (new_Request sp) ip)) \<and>
      (hasTimedOut s \<or> itsResponse s = new_Response sp) \<and>
      itsResponseString s = [] \<and> itsPendingHeaders s = [] \<and> itsResponseVersion s = ''1.0'' \<and>
      \<not> itsKeepAlive s \<and> \<not> itsQueryIsFast s \<and> \<not> itsAdminQuery s \<and> \<not> itsHeadRequest s \<and>
      \<not> itsBackendNotified s \<and> itsSentBytes s = 0 \<and> itsTotalStreamedBytes s = 0 \<and>
      itsDeclaredContentLength s = 0 \<and>
      (itsExpectHandled s \<longrightarrow> p = Pending_read \<and> itsBuffer s \<noteq> [])) \<and>
    (p = Pending_job pool (Handle_request h) \<and> \<not> hasTimedOut s \<longrightarrow>
      itsResponse s = new_Response sp \<and> itsResponseString s = [] \<and> itsPendingHeaders s = [] \<and>
      itsSentBytes s = 0 \<and> itsTotalStreamedBytes s = 0 \<and> itsDeclaredContentLength s = 0 \<and>
      \<not> itsBackendNotified s \<and> \<not> itsIdle s)"
proof -
  note inv = renewal.inv_reach[OF assms(1)]
  have "p \<in> {Pending_handshake, Pending_read, Pending_posted} \<Longrightarrow> p \<in> set (ops s) \<and> awaits_request p"
    using assms(2) by auto
  then have "p \<in> {Pending_handshake, Pending_read, Pending_posted} \<Longrightarrow> unread sp s p"
    using inv unfolding renewed_def by blast
  moreover have "itsPendingHeaders s = []" using inv by (simp add: conn_inv_def)
  moreover have "p = Pending_job pool (Handle_request h) \<Longrightarrow> fresh sp s \<and> \<not> itsIdle s"
    using conn_inv_single(2)[OF conjunct1[OF inv] assms(2)] by simp
  ultimately show ?thesis unfolding unread_def blank_def fresh_def by blast
qed

end
