(* ===== verification/Conn_Delivery.thy ===== *)
theory Conn_Delivery
  imports Conn_Phases
begin

text \<open>
  A response is never cut short on a connection that goes on: while a write is pending on an
  open socket, what it has sent so far is the end of what the client has received, and the
  connection leaves the write for anything but the end only when the whole buffer is sent.
  The timer, which may answer in the middle of a write, closes the socket.
\<close>

subsection \<open>Writes begin at the start of their buffer\<close>

definition starts :: "('q, 'p, 'h) conn \<Rightarrow> bool" where
  "starts s \<longleftrightarrow> (\<forall>w off. Pending_write w off \<in> set (pending s) \<longrightarrow> off = 0)"

lemma starts_none: "ops s = [] \<Longrightarrow> starts s"
proof -
  assume "ops s = []"
  then have "set (ops s) = {}" by simp
  then show "starts s" by (auto simp: starts_def)
qed

lemma starts_frame [simp]:
  "starts (reportInfo sp m s) = starts s" "starts (reportError sp m s) = starts s"
  "starts (finalizeStreamLogging sp s) = starts s" "starts (notifyBackendFinished sp st s) = starts s"
  "starts (set_header sp k v s) = starts s" "starts (remove_header sp k s) = starts s"
  "starts (fst (sync_write a d s)) = starts s" "starts (closeSocket s) = starts s"
  "starts (armTimer n s) = starts s" "starts (cancelTimer s) = starts s" "starts (startRead s) = starts s"
  "starts (add_pending Pending_posted s) = starts s" "starts (add_pending (Pending_job pool j) s) = starts s"
  "starts (async_write_some w 0 s) = starts s"
  by (auto simp: starts_def reportInfo_def reportError_def add_report_def finalizeStreamLogging_def split_beta
      notifyBackendFinished_def set_header_def remove_header_def sync_write_def closeSocket_def
      armTimer_def add_pending_def cancelTimer_def startRead_def async_write_some_def Let_def)

lemma starts_update [simp]:
  "starts (s\<lparr>itsRequest := q\<rparr>) = starts s" "starts (s\<lparr>itsResponse := p\<rparr>) = starts s"
  "starts (s\<lparr>itsKeepAlive := k\<rparr>) = starts s" "starts (s\<lparr>itsFinalStatus := f\<rparr>) = starts s"
  "starts (s\<lparr>itsResponseVersion := v\<rparr>) = starts s" "starts (s\<lparr>itsSentBytes := n\<rparr>) = starts s"
  "starts (s\<lparr>itsPendingHeaders := x\<rparr>) = starts s" "starts (s\<lparr>itsResponseString := x\<rparr>) = starts s"
  "starts (s\<lparr>itsTotalStreamedBytes := n\<rparr>) = starts s" "starts (s\<lparr>itsDeclaredContentLength := n\<rparr>) = starts s"
  "starts (s\<lparr>itsBackendNotified := d\<rparr>) = starts s" "starts (s\<lparr>itsExpectHandled := d\<rparr>) = starts s"
  "starts (s\<lparr>itsHeadRequest := d\<rparr>) = starts s" "starts (s\<lparr>itsQueryIsFast := d\<rparr>) = starts s"
  "starts (s\<lparr>itsAdminQuery := d\<rparr>) = starts s" "starts (s\<lparr>itsBuffer := b\<rparr>) = starts s"
  "starts (s\<lparr>itsReceivedBytes := n\<rparr>) = starts s" "starts (s\<lparr>itsRequestCount := c\<rparr>) = starts s"
  "starts (s\<lparr>itsIdle := d\<rparr>) = starts s" "starts (s\<lparr>hooks := hs\<rparr>) = starts s"
  "starts (s\<lparr>wire := ws\<rparr>) = starts s"
  by (simp_all add: starts_def)

lemma starts_setServerHeaders [simp]: "starts (setServerHeaders sp e s) = starts s"
  using reshapes_setServerHeaders[OF reshapesI(1), of s sp e] by (auto simp: reshapes_def)

lemma starts_shape [simp]:
  "starts (encode_response sp s) = starts s" "starts (frame_response sp s) = starts s"
  "starts (snd (flushPendingHeaders sp e s)) = starts s" "starts (snd (preparePendingHeaders sp s)) = starts s"
  "starts (snd (resolveClientIP sp e srv s)) = starts s" "starts (negotiate sp e s) = starts s"
  "starts (stripHopByHopHeaders sp s) = starts s" "starts (take_head_method sp s) = starts s"
  "starts (begin_handling sp h s) = starts s"
  by (auto simp: encode_response_def frame_response_def flushPendingHeaders_def
      preparePendingHeaders_def resolveClientIP_def negotiate_def stripHopByHopHeaders_def
      take_head_method_def begin_handling_def Let_def split_beta split: option.split)

lemma starts_finishResponse [simp]: "starts (finishResponse sp e s) = starts s"
  by (simp add: finishResponse_def Let_def)

lemma starts_replies [simp]:
  fixes sp :: "('q, 'p, 'h) spine" and s :: "('q, 'p, 'h) conn"
  shows "starts (sendSimpleReply sp e s) = starts s" "starts (sendStockReply sp e st s) = starts s"
    "starts (scheduleChunkGetter sp e s) = starts s" "starts (scheduleChunkedChunkGetter sp e s) = starts s"
proof -
  have simple: "starts (sendSimpleReply sp e u) = starts u" for u :: "('q, 'p, 'h) conn"
    by (simp add: sendSimpleReply_def Let_def split_beta split: option.split)
  then show "starts (sendSimpleReply sp e s) = starts s" .
  have stock: "starts (sendStockReply sp e st u) = starts u" for st and u :: "('q, 'p, 'h) conn"
    by (simp add: sendStockReply_def Let_def simple)
  then show "starts (sendStockReply sp e st s) = starts s" .
  show "starts (scheduleChunkGetter sp e s) = starts s" "starts (scheduleChunkedChunkGetter sp e s) = starts s"
    by (simp_all add: scheduleChunkGetter_def scheduleChunkedChunkGetter_def Let_def stock)
qed

lemma starts_getNextChunk [simp]:
  "starts (getNextChunk sp e s) = starts s" "starts (getNextChunkedChunk sp e s) = starts s"
  by (simp_all add: getNextChunk_def getNextChunkedChunk_def Let_def split_beta)

lemma starts_start_reply [simp]: "starts (start_reply sp e s) = starts s"
  by (simp add: start_reply_def startRegularReply_def startGatewayReply_def startChunkedReply_def
      startStreamReply_def Let_def split_beta split: option.split)

lemma starts_handleCompletedRead [simp]: "starts (handleCompletedRead sp e srv h s) = starts s"
  by (simp add: handleCompletedRead_def end_handling_def Let_def split: option.split)

lemma starts_handleRead [simp]: "starts (handleRead sp e srv err bytes s) = starts s"
proof -
  have route: "starts (route_request sp e t) = starts t" for t
    by (simp add: route_request_def scheduleRequest_def Let_def split: option.split)
  have parsed: "starts (handleParsedRequest sp e srv t) = starts t" for t
    by (simp add: handleParsedRequest_def Let_def split_beta route)
  have expect: "starts (snd (handleExpectContinue sp e t)) = starts t" for t
    by (simp add: handleExpectContinue_def Let_def split_beta)
  have "starts (receive sp e srv bytes t) = starts t" for t
    by (simp add: receive_def handleIncompleteRequest_def Let_def split_beta parsed expect
        split: parsing_status.split)
  then show ?thesis by (simp add: handleRead_def handleReadError_def Let_def)
qed

subsection \<open>What a pending write has sent\<close>

definition tail_sent :: "('q, 'p, 'h) conn \<Rightarrow> bool" where
  "tail_sent s \<longleftrightarrow>
     (\<forall>w off. Pending_write w off \<in> set (pending s) \<and> socketOpen s \<longrightarrow>
        (\<exists>before. wire s = before @ take off (itsResponseString s)))"

lemma starts_tail_sent: "starts s \<Longrightarrow> tail_sent s"
  by (fastforce simp: starts_def tail_sent_def)

lemma sendStockReply_silent:
  fixes sp :: "('q, 'p, 'h) spine" and s :: "('q, 'p, 'h) conn"
  assumes "\<not> itsKeepAlive s" "socketOpen (sendStockReply sp e st s)"
  shows "wire (sendStockReply sp e st s) = wire s"
proof -
  have simple: "wire (sendSimpleReply sp e u) = wire u"
    if "\<not> itsKeepAlive u" "socketOpen (sendSimpleReply sp e u)" for u :: "('q, 'p, 'h) conn"
  proof (cases "rs_headersToBuffer sp (itsResponse u)")
    case (Some hdr)
    have "itsKeepAlive (fst (sync_write a d v)) = itsKeepAlive v" for a d and v :: "('q, 'p, 'h) conn"
      by (simp add: sync_write_def)
    with that Some show ?thesis
      by (simp add: sendSimpleReply_def closeSocket_def Let_def split_beta split: if_splits)
  qed (simp add: sendSimpleReply_def)
  let ?s = "set_header sp ''Content-Length''
    (decimal (rs_getContentLength sp (rs_setStatus sp (itsResponse s) st True)))
    (s\<lparr>itsResponse := rs_setStatus sp (itsResponse s) st True\<rparr>)"
  have "reshapes s ?s" by (intro reshapes_header) (rule reshapesI)
  then have "reshapes s (setServerHeaders sp e ?s)" by (rule reshapes_setServerHeaders)
  then obtain p k where "setServerHeaders sp e ?s = s\<lparr>itsResponse := p, itsKeepAlive := k\<rparr>" "\<not> k"
    using assms by (auto simp: reshapes_def)
  with assms(2) simple[of "s\<lparr>itsResponse := p, itsKeepAlive := k\<rparr>"] show ?thesis
    by (simp add: sendStockReply_def Let_def)
qed

lemma handleTimer_tail_sent:
  assumes "tail_sent s" "\<not> lockHeld s"
  shows "tail_sent (handleTimer sp e err g s)"
proof -
  let ?t = "handleTimer sp e err g s"
  let ?s = "s\<lparr>lockHeld := True, hasTimedOut := True, itsKeepAlive := False\<rparr>"
  obtain p w f d where r: "sendStockReply sp e request_timeout ?s =
      ?s\<lparr>itsResponse := p, wire := w, itsFinalStatus := f, socketOpen := d, itsKeepAlive := False\<rparr>"
    using sendStockReply_closes[of ?s sp e request_timeout] by auto
  have open_silent: "d \<Longrightarrow> w = wire s"
    using sendStockReply_silent[of ?s sp e request_timeout] r by simp
  have "socketOpen s" if "socketOpen ?t"
    using that assms(2) evolves_sendStockReply[OF evolves_refl, of ?s sp e request_timeout] r
    by (auto simp: handleTimer_def closeSocket_def Let_def evolves_def extends_def split: if_splits)
  moreover have "pending ?t = pending s \<and> itsResponseString ?t = itsResponseString s"
    using assms(2) r by (auto simp: handleTimer_def closeSocket_def Let_def)
  moreover have "wire ?t = wire s" if "socketOpen ?t"
    using that assms(2) r open_silent by (auto simp: handleTimer_def closeSocket_def Let_def split: if_splits)
  ultimately show ?thesis using assms(1) by (auto simp: tail_sent_def)
qed

text \<open>A write goes on after the bytes it has sent, or it is over and what follows starts anew.\<close>

lemma write_handler_starts:
  assumes "starts s" "err = Success \<longrightarrow> length (itsResponseString s) \<le> itsSentBytes s + n"
  shows "starts (write_handler sp e w err n s)"
  using assms
  by (cases w) (auto simp: writeRegularReply_def writeStreamReply_def writeChunkedReply_def
      finalizeChunkedReply_def Let_def)

lemma write_handler_goes_on:
  assumes "itsSentBytes s + n < length (itsResponseString s)"
  shows "write_handler sp e w Success n s =
    async_write_some w (itsSentBytes s + n)
      (s\<lparr>itsFinalStatus := Success, itsSentBytes := itsSentBytes s + n\<rparr>)"
  using assms
  by (cases w) (simp_all add: writeRegularReply_def writeStreamReply_def writeChunkedReply_def
      finalizeChunkedReply_def Let_def)

lemma written_tail:
  assumes "wire s = before @ take off (itsResponseString s)"
  shows "wire (written w off n s) = before @ take (off + n) (itsResponseString s)"
  using assms by (simp add: written_def take_add)

lemma tail_sent_step:
  assumes inv: "conn_inv sp s" "tail_sent s" and step: "conn_step sp srv s (e, ev) t"
  shows "tail_sent t"
proof -
  have mem: "operation_of ev \<in> set (pending s)" and ok: "event_ok ev s"
    and t: "t = run_handler sp e srv ev s"
    using step by (auto simp: conn_step_iff dispatch_def split: if_splits)
  show ?thesis
  proof (cases "is_timer (operation_of ev)")
    case True
    then obtain g err where ev: "ev = Timer_fired g err" by (cases ev) auto
    have "tail_sent (complete (Pending_timer g) s)" "\<not> lockHeld (complete (Pending_timer g) s)"
      using inv by (auto simp: tail_sent_def complete_def conn_inv_def base_inv_def dest: notin_set_remove1)
    then show ?thesis by (simp add: t ev handleTimer_tail_sent)
  next
    case False
    note p = conn_inv_single[OF inv(1) mem False]
    have none: "starts (complete (operation_of ev) s)"
      using p(3) by (intro starts_none) (simp add: complete_def)
    show ?thesis
    proof (cases "\<exists>w off n. ev = Write_done w off Success n \<and> off + n < length (itsResponseString s)")
      case True
      then obtain w off n where ev: "ev = Write_done w off Success n"
        and rest: "off + n < length (itsResponseString s)" by blast
      have off: "off = itsSentBytes s" using p(2) ev by simp
      have "socketOpen s" using ok ev by simp
      then obtain before where "wire s = before @ take off (itsResponseString s)"
        using inv(2) mem ev by (auto simp: tail_sent_def)
      note tail = written_tail[OF this, of w n]
      have "set (ops (written w off n s)) = {}" using p(3) ev by (simp add: written_def del: set_others)
      then have none: "\<not> Pending_write w' o' \<in> set (pending (written w off n s))" for w' o' by auto
      have "t = async_write_some w (off + n)
          ((written w off n s)\<lparr>itsFinalStatus := Success, itsSentBytes := off + n\<rparr>)"
        using write_handler_goes_on[of "written w off n s" n sp e w] rest by (simp add: t ev off written_def)
      with none tail show ?thesis
        by (auto simp: tail_sent_def async_write_some_def add_pending_def written_def)
    next
      case False
      have "starts t"
      proof (cases ev)
        case (Write_done w off err n)
        then have "starts (written w off n s)"
          using p(3) by (intro starts_none) (simp add: written_def)
        moreover have "err = Success \<longrightarrow> length (itsResponseString s) \<le> itsSentBytes s + n"
          using False Write_done p(2) by auto
        ultimately show ?thesis
          using write_handler_starts[of "written w off n s" err n sp e w] Write_done
          by (simp add: t written_def)
      next
        case (Job_run pool j)
        with none show ?thesis by (cases j) (simp_all add: t Let_def)
      next
        case (Disconnect_read_done err)
        then show ?thesis using p(2) by simp
      qed (use none \<open>\<not> is_timer (operation_of ev)\<close> in
        \<open>simp_all add: t handleHandshake_def notifyClientDisconnect_def Let_def\<close>)
      then show ?thesis by (rule starts_tail_sent)
    qed
  qed
qed

lemma tail_sent_start: "conn_start sp srv s \<Longrightarrow> tail_sent s"
proof (induction rule: conn_start.induct)
  case (started e count)
  have "starts (snd (start e (count, new_connection sp srv)))"
    by (auto simp: starts_def start_def registerConnection_def armTimer_def add_pending_def startRead_def
        Let_def new_connection_eq)
  then show ?case by (rule starts_tail_sent)
next
  case (rejected e)
  have "starts (rejectConnection sp e (new_connection sp srv))"
    by (simp add: rejectConnection_def) (simp add: starts_def new_connection_eq)
  then show ?case by (rule starts_tail_sent)
qed

interpretation delivery: inductive_invariant
  "conn_start sp srv" "conn_step sp srv" "\<lambda>s. conn_inv sp s \<and> tail_sent s"
  for sp :: "('q, 'p, 'h) spine" and srv
proof (unfold_locales, goal_cases)
  case (1 s)
  then show ?case by (simp add: conn_inv_start tail_sent_start)
next
  case (2 s x t)
  obtain e ev where x: "x = (e, ev)" by force
  with 2 tail_sent_step[of sp s srv e ev t] show ?case by (auto intro: conn_inv_step)
qed

text \<open>When the completion of a write leaves nothing to send, the whole buffer is the end of the wire;
  otherwise the rest is sent, or the connection is over.\<close>

lemma written_whole:
  assumes "conn_inv sp s \<and> tail_sent s" "Pending_write w off \<in> set (pending s)"
    and "event_ok (Write_done w off Success n) s" "length (itsResponseString s) \<le> off + n"
  shows "\<exists>before. wire (written w off n s) = before @ itsResponseString s"
proof -
  have "socketOpen s" using assms(3) by simp
  then obtain before where "wire s = before @ take off (itsResponseString s)"
    using assms(1,2) by (auto simp: tail_sent_def)
  from written_tail[OF this, of w n] assms(4) show ?thesis by simp
qed

lemma unfinished_write:
  assumes "conn_inv sp s" "Pending_write w off \<in> set (pending s)"
    and "\<not> (err = Success \<and> length (itsResponseString s) \<le> off + n)"
  shows "phase_of (write_handler sp e w err n (written w off n s)) \<in> {Sending w, Over}"
proof -
  let ?u = "written w off n s"
  note p = conn_inv_single[OF assms(1,2)]
  have none: "ops ?u = []" using p(3) by (simp add: written_def)
  have off: "off = itsSentBytes s" using p(2) by simp
  show ?thesis
  proof (cases "err = Success")
    case True
    with assms(3) have "off + n < length (itsResponseString s)" by simp
    with True none write_handler_goes_on[of ?u n sp e w] show ?thesis
      by (simp add: off phase_of_def async_write_some_def add_pending_def written_def)
  next
    case False
    then have "ops (write_handler sp e w err n ?u) = []"
      using none by (cases w) (simp_all add: writeRegularReply_def writeStreamReply_def
          writeChunkedReply_def finalizeChunkedReply_def Let_def)
    then show ?thesis by (simp add: phase_of_def)
  qed
qed

text \<open>C4. A response that the client goes on from is delivered whole: when the completion of a write
  leaves nothing of the buffer to send, everything in the buffer is on the wire in one piece,
  whatever happened in between; otherwise the connection still sends the rest, or it is over.\<close>

theorem responses_sent_whole:
  assumes "reachable sp srv s" "conn_step sp srv s (e, Write_done w off err n) t"
  shows "if err = Success \<and> length (itsResponseString s) \<le> off + n
    then \<exists>before after. wire t = before @ itsResponseString s @ after
    else phase_of t \<in> {Sending w, Over}"
proof -
  let ?ev = "Write_done w off err n" and ?u = "written w off n s"
  note inv = delivery.inv_reach[OF assms(1)]
  have mem: "Pending_write w off \<in> set (pending s)" and ok: "event_ok ?ev s"
    and t: "t = write_handler sp e w err n ?u"
    using assms(2) by (auto simp: conn_step_iff dispatch_def split: if_splits)
  show ?thesis
  proof (cases "err = Success \<and> length (itsResponseString s) \<le> off + n")
    case True
    with written_whole[OF inv mem] ok obtain before where "wire ?u = before @ itsResponseString s"
      by blast
    moreover obtain after where "wire t = wire ?u @ after"
      using evolves_write_handler[OF evolves_refl, of ?u sp e w err n] by (auto simp: t evolves_def extends_def)
    ultimately show ?thesis using True by auto
  next
    case False
    from unfinished_write[OF conjunct1[OF inv] mem this, of e] show ?thesis
      unfolding t by (subst if_not_P[OF False])
  qed
qed

end
