(* ===== verification/Conn_Endings.thy ===== *)
theory Conn_Endings
  imports Conn_Delivery
begin

text \<open>
  A chunked body is ended by the last chunk: the buffer of the final write ends with it, that
  buffer is sent whole, and there is no other way from a chunked body to the next request.
\<close>

subsection \<open>The final write\<close>

definition final_inv :: "('q, 'p, 'h) conn \<Rightarrow> bool" where
  "final_inv s \<longleftrightarrow> (\<forall>off. Pending_write Final_writer off \<in> set (pending s) \<longrightarrow>
     (\<exists>headers. itsResponseString s = headers @ last_chunk))"

lemma leads_final:
  assumes "leads P t" "Sending Final_writer \<notin> P" shows "final_inv t"
proof -
  have "Pending_write Final_writer off \<notin> set (pending t)" for off
  proof
    assume "Pending_write Final_writer off \<in> set (pending t)"
    then have "Pending_write Final_writer off \<in> set (ops t)" by simp
    then have "Sending Final_writer \<in> operation_phase ` set (ops t)" by (force simp del: set_others)
    with assms show False by (auto simp: leads_def simp del: set_others)
  qed
  then show ?thesis by (simp add: final_inv_def)
qed

lemma final_getNextChunkedChunk:
  assumes "ops s = []" shows "final_inv (getNextChunkedChunk sp e s)"
proof (cases "rs_getStreamingStatus sp (itsResponse s) = Stream_EXIT_OK")
  case True
  then show ?thesis
    by (auto simp: getNextChunkedChunk_def Let_def final_inv_def async_write_some_def add_pending_def)
next
  case False
  have "leads {Sending Chunked_writer, Fetching Chunked_writer} (getNextChunkedChunk sp e s)"
    using assms False by (auto simp: getNextChunkedChunk_def Let_def split_beta intro!: leading)
  then show ?thesis by (rule leads_final) simp
qed

lemma final_handleCompletedRead:
  fixes s :: "('q, 'p, 'h) conn"
  assumes "ops s = []" shows "final_inv (handleCompletedRead sp e srv h s)"
proof -
  let ?P = "{Reading, Over, Sending Regular_writer, Sending Stream_writer, Fetching Stream_writer}"
  have none: "final_inv t" if "ops t = []" for t :: "('q, 'p, 'h) conn"
    using leads_final[OF leads_none[OF that, of "{}"]] by simp
  have reply: "final_inv (start_reply sp e t)" if "ops t = []" for t :: "('q, 'p, 'h) conn"
  proof (cases "\<not> itsHeadRequest t \<and> rs_hasStreamContent sp (itsResponse t) \<and>
      \<not> rs_isGatewayResponse sp (itsResponse t) \<and> rs_getChunked sp (itsResponse t)")
    case True
    with that show ?thesis
      by (auto simp: start_reply_def startChunkedReply_def Let_def split_beta
          intro!: none final_getNextChunkedChunk)
  next
    case False
    have "leads ?P (startRegularReply sp e u)" "leads ?P (startGatewayReply sp e u)"
      "leads ?P (startStreamReply sp e u)" if "ops u = []" for u :: "('q, 'p, 'h) conn"
      using that by (auto simp: startRegularReply_def startGatewayReply_def startStreamReply_def
          Let_def split_beta split: option.split intro!: leading)
    with that False have "leads ?P (start_reply sp e t)" by (auto simp: start_reply_def)
    then show ?thesis by (rule leads_final) simp
  qed
  have "final_inv (end_handling sp e h r d t)" if "ops t = []" for r d and t :: "('q, 'p, 'h) conn"
  proof -
    have "leads {Reading} (sendStockReply sp e st u)" if "ops u = []" for st and u :: "('q, 'p, 'h) conn"
      using that by (intro leading) simp_all
    then have "final_inv (sendStockReply sp e st u)" if "ops u = []" for st and u :: "('q, 'p, 'h) conn"
      using that leads_final by fastforce
    with that show ?thesis by (auto simp: end_handling_def Let_def split: option.split intro!: none reply)
  qed
  then show ?thesis
    using assms by (auto simp: handleCompletedRead_def Let_def split: option.split intro!: none)
qed

lemma final_write_handler:
  assumes "ops s = []" "w = Final_writer \<longrightarrow> (\<exists>headers. itsResponseString s = headers @ last_chunk)"
  shows "final_inv (write_handler sp e w err n s)"
proof (cases "w = Final_writer")
  case False
  have "leads (moves (Sending w)) (write_handler sp e w err n s)" using assms(1) by (intro leading) simp_all
  moreover have "Sending Final_writer \<notin> moves (Sending w)" using False by (cases w) simp_all
  ultimately show ?thesis by (rule leads_final)
next
  case True
  show ?thesis
  proof (cases "err = Success \<and> itsSentBytes s + n < length (itsResponseString s)")
    case True
    with assms \<open>w = Final_writer\<close> write_handler_goes_on[of s n sp e w] show ?thesis
      by (simp add: final_inv_def async_write_some_def add_pending_def)
  next
    case False
    have "leads {Reading} (finalizeChunkedReply sp e err n s)"
      using False assms(1) by (auto simp: finalizeChunkedReply_def Let_def intro!: leading)
    then show ?thesis using leads_final[of "{Reading}"] by (simp add: True)
  qed
qed

lemma final_step:
  assumes inv: "conn_inv sp s" "final_inv s" and step: "conn_step sp srv s (e, ev) t"
  shows "final_inv t"
proof -
  have mem: "operation_of ev \<in> set (pending s)" and t: "t = run_handler sp e srv ev s"
    using step by (auto simp: conn_step_iff dispatch_def split: if_splits)
  show ?thesis
  proof (cases "is_timer (operation_of ev)")
    case True
    then obtain g err where ev: "ev = Timer_fired g err" by (cases ev) auto
    let ?c = "complete (Pending_timer g) s"
    let ?s = "?c\<lparr>lockHeld := True, hasTimedOut := True, itsKeepAlive := False\<rparr>"
    have c: "final_inv ?c" "\<not> lockHeld ?c"
      using inv by (auto simp: final_inv_def complete_def conn_inv_def base_inv_def dest: notin_set_remove1)
    have "pending (sendStockReply sp e request_timeout ?s) = pending ?s \<and>
        itsResponseString (sendStockReply sp e request_timeout ?s) = itsResponseString ?s"
      using sendStockReply_closes[of ?s sp e request_timeout] by auto
    then have "pending t = pending ?c \<and> itsResponseString t = itsResponseString ?c"
      using c(2) by (auto simp: t ev handleTimer_def closeSocket_def Let_def)
    with c(1) show ?thesis by (simp add: final_inv_def)
  next
    case False
    note p = phase_of_pending(2)[OF inv(1) mem False]
    show ?thesis
    proof (cases ev)
      case (Handshake_done err)
      with p have "leads {Reading} t" by (auto simp: t handleHandshake_def intro!: leading)
      then show ?thesis by (rule leads_final) simp
    next
      case (Read_done err bytes)
      with p have "leads (moves Reading) t" by (auto simp: t intro!: leading)
      then show ?thesis by (rule leads_final) simp
    next
      case Posted_run
      with p have "leads (moves Reading) t" by (auto simp: t intro!: leading)
      then show ?thesis by (rule leads_final) simp
    next
      case (Disconnect_read_done err)
      then show ?thesis using conn_inv_single(2)[OF inv(1) mem False] by simp
    next
      case (Write_done w off err n)
      then have "ops (written w off n s) = []" using p by (simp add: written_def complete_def)
      moreover have "w = Final_writer \<longrightarrow> (\<exists>headers. itsResponseString (written w off n s) = headers @ last_chunk)"
        using inv(2) mem Write_done by (auto simp: final_inv_def written_def)
      ultimately show ?thesis by (simp add: t Write_done final_write_handler)
    next
      case (Job_run pool j)
      show ?thesis
      proof (cases j)
        case (Handle_request h)
        with p Job_run show ?thesis by (simp add: t Let_def final_handleCompletedRead)
      next
        case Next_chunk
        with p Job_run have "leads (moves (Fetching Stream_writer)) t" by (auto simp: t Let_def intro!: leading)
        then show ?thesis by (rule leads_final) simp
      next
        case Next_chunked_chunk
        with p Job_run show ?thesis by (simp add: t Let_def final_getNextChunkedChunk)
      qed
    qed (use False in simp)
  qed
qed

lemma final_start: "conn_start sp srv s \<Longrightarrow> final_inv s"
proof (induction rule: conn_start.induct)
  case (started e count)
  show ?case
    by (auto simp: final_inv_def start_def registerConnection_def armTimer_def add_pending_def startRead_def
        Let_def new_connection_eq)
next
  case (rejected e)
  have "leads {} (rejectConnection sp e (new_connection sp srv))"
    unfolding rejectConnection_def by (intro leads_none) (simp add: new_connection_eq)
  then show ?case by (rule leads_final) simp
qed

interpretation endings: inductive_invariant
  "conn_start sp srv" "conn_step sp srv" "\<lambda>s. (conn_inv sp s \<and> tail_sent s) \<and> final_inv s"
  for sp :: "('q, 'p, 'h) spine" and srv
proof (unfold_locales, goal_cases)
  case (1 s)
  then show ?case by (simp add: conn_inv_start tail_sent_start final_start)
next
  case (2 s x t)
  obtain e ev where x: "x = (e, ev)" by force
  with 2 tail_sent_step[of sp s srv e ev t] final_step[of sp s srv e ev t] show ?case
    by (auto intro: conn_inv_step)
qed

subsection \<open>The end of a chunked body\<close>

lemma phase_of_write:
  assumes "conn_inv sp s" "phase_of s = Sending w"
  obtains off where "ops s = [Pending_write w off]" "Pending_write w off \<in> set (pending s)"
proof -
  obtain p where p: "ops s = [p]"
    using assms by (cases "ops s") (auto simp: phase_of_def conn_inv_def simp del: set_others)
  with assms(2) have "operation_phase p = Sending w" by (simp add: phase_of_def)
  then obtain off where w: "p = Pending_write w off"
    by (cases p) (auto split: job.splits elim: operation_phase.elims)
  have "p \<in> set (ops s)" using p by (simp del: set_others)
  then have "p \<in> set (pending s)" by simp
  with p w that show thesis by simp
qed

text \<open>From the final write a connection goes on to read only when the last chunk has been sent.\<close>

lemma final_write_done:
  assumes "reachable sp srv s" "phase_of s = Sending Final_writer"
    and "conn_step sp srv s (e, ev) t" "phase_of t = Reading"
  shows "\<exists>before. wire t = before @ last_chunk"
proof -
  note inv = endings.inv_reach[OF assms(1)]
  have mem: "operation_of ev \<in> set (pending s)" and ok: "event_ok ev s" and t: "t = run_handler sp e srv ev s"
    using assms(3) by (auto simp: conn_step_iff dispatch_def split: if_splits)
  have nt: "\<not> is_timer (operation_of ev)"
    using step_phase[OF _ assms(3)] inv assms(2,4) by (auto split: if_splits)
  obtain off where w: "ops s = [Pending_write Final_writer off]" "Pending_write Final_writer off \<in> set (pending s)"
    using phase_of_write[OF _ assms(2)] inv by blast
  have "operation_of ev = Pending_write Final_writer off"
    using conn_inv_single(1)[OF conjunct1[OF conjunct1[OF inv]] mem nt] w(1) by simp
  then obtain err n where ev: "ev = Write_done Final_writer off err n" by (cases ev) auto
  let ?u = "written Final_writer off n s"
  have sent: "err = Success \<and> length (itsResponseString s) \<le> off + n"
  proof (rule ccontr)
    assume "\<not> ?thesis"
    from unfinished_write[OF _ w(2) this, of sp e] inv assms(4) show False by (auto simp: t ev)
  qed
  with written_whole[OF conjunct1[OF inv] w(2)] ok ev obtain before where
    "wire ?u = before @ itsResponseString s" by blast
  moreover obtain headers where "itsResponseString s = headers @ last_chunk"
    using inv w(2) by (auto simp: final_inv_def)
  moreover have "off = itsSentBytes s"
    using conn_inv_single(2)[OF conjunct1[OF conjunct1[OF inv]] w(2)] by simp
  then have "t = finishResponse sp e (finalizeStreamLogging sp
      (?u\<lparr>itsFinalStatus := Success, itsSentBytes := itsSentBytes ?u + n\<rparr>))"
    using sent by (simp add: t ev finalizeChunkedReply_def written_def)
  then have "wire t = wire ?u"
    by (simp add: finishResponse_def finalizeStreamLogging_def armTimer_def add_pending_def startRead_def
        Let_def split_beta)
  ultimately show ?thesis by simp
qed

text \<open>C16. A connection is not reused in the middle of a chunked response: whatever happens, if it is in
  the body of one and later reads another request, then in between the write that ends the
  body was completed, and at that moment the last thing the client had received was the whole
  of the last chunk.\<close>

theorem chunked_body_is_ended:
  assumes "reachable sp srv s" "in_chunked_body (phase_of s)"
    and "run_events sp srv evs s = Some t" "phase_of t = Reading"
  shows "\<exists>evs1 ev evs2 u v before. evs = evs1 @ ev # evs2 \<and> run_events sp srv evs1 s = Some u \<and>
    phase_of u = Sending Final_writer \<and> run_events sp srv [ev] u = Some v \<and>
    phase_of v = Reading \<and> wire v = before @ last_chunk"
proof -
  have "\<exists>evs1 ev evs2 u v before. evs = evs1 @ ev # evs2 \<and> run_events sp srv evs1 s = Some u \<and>
      phase_of u = Sending Final_writer \<and> run_events sp srv [ev] u = Some v \<and>
      phase_of v = Reading \<and> wire v = before @ last_chunk"
    if "in_chunked_body (phase_of s) \<or> phase_of s = Sending Final_writer"
    using assms(1) that assms(3)
  proof (induction evs arbitrary: s)
    case Nil
    with assms(4) show ?case by (auto simp: in_chunked_body_def)
  next
    case (Cons x evs)
    obtain e ev where x: "x = (e, ev)" by force
    with Cons.prems obtain u where u: "dispatch sp srv e ev s = Some u" "run_events sp srv evs u = Some t"
      by (auto split: option.splits)
    have step: "conn_step sp srv s (e, ev) u" by (rule handler_step[OF u(1)])
    have r: "reachable sp srv u" by (rule reach_step[OF Cons.prems(1) step])
    consider "in_chunked_body (phase_of u) \<or> phase_of u = Sending Final_writer"
      | "phase_of u = Over" | "phase_of s = Sending Final_writer" "phase_of u = Reading"
      using step_phase[OF connection.inv_reach[OF Cons.prems(1)] step] Cons.prems(2)
        chunked_moves[of "phase_of s" "phase_of u"] by (auto split: if_splits)
    then show ?case
    proof cases
      case 1
      from Cons.IH[OF r 1 u(2)] obtain evs1 ev' evs2 v v' before where
        "evs = evs1 @ ev' # evs2" "run_events sp srv evs1 u = Some v" "phase_of v = Sending Final_writer"
        "run_events sp srv [ev'] v = Some v'" "phase_of v' = Reading" "wire v' = before @ last_chunk" by blast
      then show ?thesis
        using u(1) by (intro exI[of _ "x # evs1"] exI[of _ ev'] exI[of _ evs2] exI[of _ v] exI[of _ v']
            exI[of _ before]) (simp add: x)
    next
      case 2
      with over_stays[OF r 2 u(2)] assms(4) show ?thesis by simp
    next
      case 3
      from final_write_done[OF Cons.prems(1) 3(1) step 3(2)] obtain before where
        "wire u = before @ last_chunk" by blast
      with 3 u(1) show ?thesis
        by (intro exI[of _ "[]"] exI[of _ x] exI[of _ evs] exI[of _ s] exI[of _ u] exI[of _ before])
          (simp add: x)
    qed
  qed
  with assms(2) show ?thesis by blast
qed

end
