(* ===== verification/Conn_Liveness.thy ===== *)
theory Conn_Liveness
  imports Conn_Properties
begin

text \<open>
  A connection does not wait for a request for ever: while it waits for a handshake, for bytes
  of a request or to go on with those it has, a wait of the current generation of the timer is
  pending, so that the connection is closed when they do not come. The writing of a response
  is not timed: \<open>handleCompletedRead\<close> has cancelled the timer.
\<close>

subsection \<open>Waiting for a request\<close>

definition waits_for_request :: "('q, 'p, 'h) conn \<Rightarrow> bool" where
  "waits_for_request s \<longleftrightarrow>
     Pending_handshake \<in> set (pending s) \<or> Pending_read \<in> set (pending s) \<or>
     Pending_posted \<in> set (pending s)"

definition timed :: "('q, 'p, 'h) conn \<Rightarrow> bool" where
  "timed s \<longleftrightarrow> hasTimedOut s \<or> Pending_timer (itsTimerGeneration s) \<in> set (pending s)"

definition watched :: "('q, 'p, 'h) conn \<Rightarrow> bool" where
  "watched s \<longleftrightarrow> waits_for_request s \<longrightarrow> timed s"

text \<open>A handler runs in such a state: the client's turn is over, the lock is free.\<close>

definition servers_turn :: "('q, 'p, 'h) conn \<Rightarrow> bool" where
  "servers_turn s \<longleftrightarrow> \<not> waits_for_request s \<and> \<not> lockHeld s"

lemmas turn_defs = watched_def timed_def servers_turn_def waits_for_request_def

lemma turn_watched [intro]: "servers_turn s \<Longrightarrow> watched s"
  by (simp add: servers_turn_def watched_def)

lemma turn_reports [simp, frame]:
  "servers_turn (reportInfo sp m s) = servers_turn s" "servers_turn (reportError sp m s) = servers_turn s"
  "watched (reportInfo sp m s) = watched s" "timed (reportInfo sp m s) = timed s"
  "timed (reportError sp m s) = timed s"
  by (simp_all add: turn_defs reportInfo_def reportError_def add_report_def)

lemma turn_sync_write [simp, frame]:
  "servers_turn (fst (sync_write a d s)) = servers_turn s" "timed (fst (sync_write a d s)) = timed s"
  by (simp_all add: turn_defs sync_write_def)

lemma turn_frame [simp, frame]:
  "servers_turn (s\<lparr>itsRequest := q\<rparr>) = servers_turn s" "servers_turn (s\<lparr>itsResponse := p\<rparr>) = servers_turn s"
  "servers_turn (s\<lparr>itsKeepAlive := k\<rparr>) = servers_turn s" "servers_turn (s\<lparr>itsFinalStatus := f\<rparr>) = servers_turn s"
  "servers_turn (s\<lparr>itsResponseVersion := v\<rparr>) = servers_turn s" "servers_turn (s\<lparr>itsSentBytes := n\<rparr>) = servers_turn s"
  "servers_turn (s\<lparr>itsPendingHeaders := x\<rparr>) = servers_turn s"
  "servers_turn (s\<lparr>itsResponseString := x\<rparr>) = servers_turn s"
  "servers_turn (s\<lparr>itsTotalStreamedBytes := n\<rparr>) = servers_turn s"
  "servers_turn (s\<lparr>itsDeclaredContentLength := n\<rparr>) = servers_turn s"
  "servers_turn (s\<lparr>itsBackendNotified := d\<rparr>) = servers_turn s"
  "servers_turn (s\<lparr>itsExpectHandled := d\<rparr>) = servers_turn s"
  "servers_turn (s\<lparr>itsHeadRequest := d\<rparr>) = servers_turn s"
  "servers_turn (s\<lparr>itsQueryIsFast := d\<rparr>) = servers_turn s" "servers_turn (s\<lparr>itsAdminQuery := d\<rparr>) = servers_turn s"
  "servers_turn (s\<lparr>itsBuffer := b\<rparr>) = servers_turn s" "servers_turn (s\<lparr>itsReceivedBytes := n\<rparr>) = servers_turn s"
  "servers_turn (s\<lparr>itsRequestCount := c\<rparr>) = servers_turn s" "servers_turn (s\<lparr>itsIdle := d\<rparr>) = servers_turn s"
  "servers_turn (s\<lparr>hooks := hs\<rparr>) = servers_turn s" "servers_turn (s\<lparr>itsTimerGeneration := g\<rparr>) = servers_turn s"
  "timed (s\<lparr>itsExpectHandled := d\<rparr>) = timed s" "timed (s\<lparr>itsRequest := q\<rparr>) = timed s"
  "timed (s\<lparr>itsBuffer := b\<rparr>) = timed s" "timed (s\<lparr>itsReceivedBytes := n\<rparr>) = timed s"
  "timed (s\<lparr>itsFinalStatus := f\<rparr>) = timed s" "timed (s\<lparr>itsIdle := d\<rparr>) = timed s"
  "watched (s\<lparr>lockHeld := d\<rparr>) = watched s"
  by (simp_all add: turn_defs)

named_theorems turns "functions that leave a watched connection"

lemma turn_header [simp, frame]:
  "servers_turn (set_header sp k v s) = servers_turn s" "servers_turn (remove_header sp k s) = servers_turn s"
  by (simp_all add: set_header_def remove_header_def)

lemma turn_setServerHeaders [turns]: "servers_turn s \<Longrightarrow> servers_turn (setServerHeaders sp e s)"
  using reshapes_setServerHeaders[OF reshapesI(1), of s sp e] by (auto simp: reshapes_def)

lemma turn_closeSocket [turns]: "servers_turn s \<Longrightarrow> watched (closeSocket s)"
  by (simp add: turn_defs closeSocket_def)

lemma turn_finishResponse [turns]: "servers_turn s \<Longrightarrow> watched (finishResponse sp e s)"
  by (simp add: turn_defs finishResponse_def Let_def armTimer_def add_pending_def startRead_def)

lemma turn_sendSimpleReply [turns]: "servers_turn s \<Longrightarrow> watched (sendSimpleReply sp e s)"
  by (auto simp: sendSimpleReply_def Let_def split_beta split: option.split intro!: turns)

lemma turn_sendStockReply [turns]: "servers_turn s \<Longrightarrow> watched (sendStockReply sp e st s)"
  by (auto simp: sendStockReply_def Let_def intro!: turns)

lemma turn_add_pending [turns]:
  "servers_turn s \<Longrightarrow> watched (add_pending (Pending_job pool j) s)"
  "servers_turn s \<Longrightarrow> watched (async_write_some w off s)"
  by (auto simp: turn_defs add_pending_def async_write_some_def)

lemma turn_logging [turns]:
  "servers_turn s \<Longrightarrow> servers_turn (finalizeStreamLogging sp s)"
  "servers_turn s \<Longrightarrow> servers_turn (notifyBackendFinished sp st s)"
  by (auto simp: finalizeStreamLogging_def notifyBackendFinished_def split_beta)

lemma watched_logging [turns]:
  "watched s \<Longrightarrow> watched (finalizeStreamLogging sp s)"
  "watched s \<Longrightarrow> watched (notifyBackendFinished sp st s)"
  by (auto simp: finalizeStreamLogging_def notifyBackendFinished_def split_beta turn_defs)

lemma turn_flushPendingHeaders [turns]:
  "servers_turn s \<Longrightarrow> servers_turn (snd (flushPendingHeaders sp e s))"
  by (auto simp: flushPendingHeaders_def Let_def split_beta)

lemma turn_preparePendingHeaders [turns]:
  "servers_turn s \<Longrightarrow> servers_turn (snd (preparePendingHeaders sp s))"
  by (auto simp: preparePendingHeaders_def Let_def split: option.split)

lemma turn_scheduleChunk [turns]:
  "servers_turn s \<Longrightarrow> watched (scheduleChunkGetter sp e s)"
  "servers_turn s \<Longrightarrow> watched (scheduleChunkedChunkGetter sp e s)"
  by (auto simp: scheduleChunkGetter_def scheduleChunkedChunkGetter_def Let_def intro!: turns)

lemma turn_write_handler [turns]: "servers_turn s \<Longrightarrow> watched (write_handler sp e w err m s)"
  by (cases w)
    (auto simp: writeRegularReply_def writeStreamReply_def writeChunkedReply_def
      finalizeChunkedReply_def Let_def intro!: turns)

lemma turn_getNextChunk [turns]:
  "servers_turn s \<Longrightarrow> watched (getNextChunk sp e s)"
  "servers_turn s \<Longrightarrow> watched (getNextChunkedChunk sp e s)"
  by (auto simp: getNextChunk_def getNextChunkedChunk_def Let_def split_beta intro!: turns)

lemma turn_shape_response [turns]:
  "servers_turn s \<Longrightarrow> servers_turn (encode_response sp s)"
  "servers_turn s \<Longrightarrow> servers_turn (frame_response sp s)"
  by (auto simp: encode_response_def frame_response_def Let_def split: option.split)

lemma turn_starts [turns]:
  "servers_turn s \<Longrightarrow> watched (startGatewayReply sp e s)"
  "servers_turn s \<Longrightarrow> watched (startChunkedReply sp e s)"
  "servers_turn s \<Longrightarrow> watched (startStreamReply sp e s)"
  "servers_turn s \<Longrightarrow> watched (startRegularReply sp e s)"
  by (auto simp: startGatewayReply_def startChunkedReply_def startStreamReply_def
      startRegularReply_def Let_def split_beta split: option.split intro!: turns)

lemma turn_end_handling [turns]: "servers_turn s \<Longrightarrow> watched (end_handling sp e h r ok s)"
  by (auto simp: end_handling_def start_reply_def Let_def split: option.split intro!: turns)

lemma turn_handleCompletedRead [turns]:
  assumes "servers_turn s" shows "watched (handleCompletedRead sp e srv h s)"
proof -
  have c: "servers_turn (cancelTimer s)" using assms by (auto simp: cancelTimer_def turn_defs)
  then have "servers_turn (begin_handling sp h (cancelTimer s))"
    by (auto simp: begin_handling_def Let_def)
  with c show ?thesis
    unfolding handleCompletedRead_def Let_def by (auto split: option.split intro!: turns)
qed

subsection \<open>Reading\<close>

lemma watched_startRead [turns]: "timed s \<Longrightarrow> watched (startRead s)"
  by (auto simp: turn_defs startRead_def add_pending_def)

lemma timed_watched [intro]: "timed s \<Longrightarrow> watched s"
  by (simp add: watched_def)

lemma turn_requests [turns]:
  "servers_turn s \<Longrightarrow> servers_turn (snd (resolveClientIP sp e srv s))"
  "servers_turn s \<Longrightarrow> servers_turn (negotiate sp e s)"
  "servers_turn s \<Longrightarrow> servers_turn (stripHopByHopHeaders sp s)"
  "servers_turn s \<Longrightarrow> servers_turn (take_head_method sp s)"
  by (auto simp: resolveClientIP_def negotiate_def stripHopByHopHeaders_def take_head_method_def Let_def
      split: option.split)

lemma turn_scheduleRequest [turns]: "servers_turn s \<Longrightarrow> watched (scheduleRequest sp e h s)"
  by (auto simp: scheduleRequest_def Let_def intro!: turns)

lemma turn_route_request [turns]: "servers_turn s \<Longrightarrow> watched (route_request sp e s)"
  by (auto simp: route_request_def Let_def split: option.split intro!: turns)

lemma turn_handleParsedRequest [turns]:
  assumes "servers_turn s" shows "watched (handleParsedRequest sp e srv s)"
proof -
  obtain resolved u where u: "resolveClientIP sp e srv s = (resolved, u)" by force
  then have "servers_turn u" using turn_requests(1)[OF assms, of sp e srv] by simp
  then show ?thesis by (auto simp: handleParsedRequest_def u Let_def intro!: turns)
qed

lemma turn_handleExpectContinue:
  assumes "servers_turn s" "timed s"
  shows "fst (handleExpectContinue sp e s) \<Longrightarrow> timed (snd (handleExpectContinue sp e s))"
    and "watched (snd (handleExpectContinue sp e s))"
  using assms by (auto simp: handleExpectContinue_def Let_def split_beta intro!: turns)

lemma turn_handleIncompleteRequest [turns]:
  "servers_turn s \<Longrightarrow> timed s \<Longrightarrow> watched (handleIncompleteRequest sp e s)"
  by (auto simp: handleIncompleteRequest_def Let_def split_beta
      intro!: turns turn_handleExpectContinue)

lemma turn_receive [turns]: "servers_turn s \<Longrightarrow> timed s \<Longrightarrow> watched (receive sp e srv bytes s)"
  by (auto simp: receive_def Let_def split: parsing_status.split intro!: turns)

lemma turn_armTimer [turns]:
  "servers_turn s \<Longrightarrow> servers_turn (armTimer x s)" "servers_turn s \<Longrightarrow> timed (armTimer x s)"
  by (auto simp: armTimer_def add_pending_def turn_defs Let_def)

lemma turn_handleRead:
  "servers_turn s \<Longrightarrow> timed s \<Longrightarrow> watched (handleRead sp e srv err bytes s)"
  by (auto simp: handleRead_def handleReadError_def Let_def intro!: turns)

subsection \<open>Steps\<close>

lemma complete_turn:
  assumes "conn_inv sp s" "p \<in> set (pending s)" "\<not> is_timer p"
  shows "servers_turn (complete p s)"
proof -
  have "others (pending (complete p s)) = []"
    using conn_inv_single(3)[OF assms] by (simp add: complete_def)
  then have "set (others (pending (complete p s))) = {}" by simp
  then have "\<not> waits_for_request (complete p s)" by (auto simp: waits_for_request_def)
  moreover have "\<not> lockHeld s" using assms(1) by (simp add: conn_inv_def base_inv_def)
  ultimately show ?thesis by (simp add: servers_turn_def complete_def)
qed

lemma complete_timed: "timed s \<Longrightarrow> \<not> is_timer p \<Longrightarrow> timed (complete p s)"
  by (cases p) (auto simp: timed_def complete_def in_set_remove1)

lemma timer_fired_watched:
  assumes "conn_inv sp s" "watched s" "Pending_timer g \<in> set (pending s)"
    and "err = Operation_aborted \<longrightarrow> g \<noteq> itsTimerGeneration s"
  shows "watched (handleTimer sp e err g (complete (Pending_timer g) s))"
proof (cases "g = itsTimerGeneration s")
  case True
  let ?s = "complete (Pending_timer g) s"
  have "\<not> lockHeld ?s" using assms(1) by (simp add: conn_inv_def base_inv_def complete_def)
  moreover obtain p w f d where "sendStockReply sp e request_timeout
        (?s\<lparr>lockHeld := True, hasTimedOut := True, itsKeepAlive := False\<rparr>) =
      (?s\<lparr>lockHeld := True, hasTimedOut := True, itsKeepAlive := False\<rparr>)
        \<lparr>itsResponse := p, wire := w, itsFinalStatus := f, socketOpen := d, itsKeepAlive := False\<rparr>"
    using sendStockReply_closes[of "?s\<lparr>lockHeld := True, hasTimedOut := True, itsKeepAlive := False\<rparr>"
        sp e request_timeout] by auto
  ultimately have "hasTimedOut (handleTimer sp e err g ?s)"
    using True assms(4) by (auto simp: handleTimer_def Let_def closeSocket_def complete_def)
  then show ?thesis by (simp add: watched_def timed_def)
next
  case False
  have "watched (complete (Pending_timer g) s)"
    using assms(2) False by (auto simp: turn_defs complete_def)
  moreover have "\<not> lockHeld (complete (Pending_timer g) s)"
    using assms(1) by (simp add: conn_inv_def base_inv_def complete_def)
  ultimately show ?thesis using False by (simp add: handleTimer_def complete_def Let_def)
qed

lemma written_turn:
  assumes "conn_inv sp s" "Pending_write w off \<in> set (pending s)"
  shows "servers_turn (written w off n s)"
  using complete_turn[OF assms] by (simp add: written_def complete_def turn_defs)

lemma watched_step:
  assumes inv: "conn_inv sp s" and w: "watched s" and step: "conn_step sp srv s (e, ev) t"
  shows "watched t"
proof -
  have mem: "operation_of ev \<in> set (pending s)" and ok: "event_ok ev s"
    and t: "t = run_handler sp e srv ev s"
    using step by (auto simp: conn_step_iff dispatch_def split: if_splits)
  have timed: "timed (complete p s)" if "p \<in> {Pending_handshake, Pending_read, Pending_posted}"
    "p \<in> set (pending s)" for p
    using w that by (intro complete_timed) (auto simp: watched_def waits_for_request_def)
  show ?thesis
  proof (cases ev)
    case (Handshake_done err)
    then show ?thesis
      using complete_turn[OF inv, of Pending_handshake] timed[of Pending_handshake] mem
      by (auto simp: t handleHandshake_def intro!: turns)
  next
    case (Read_done err bytes)
    then show ?thesis
      using complete_turn[OF inv, of Pending_read] timed[of Pending_read] mem
      by (auto simp: t intro!: turn_handleRead)
  next
    case Posted_run
    then show ?thesis
      using complete_turn[OF inv, of Pending_posted] timed[of Pending_posted] mem
      by (auto simp: t intro!: turn_handleRead)
  next
    case (Disconnect_read_done err)
    then show ?thesis
      using complete_turn[OF inv, of Pending_disconnect_read] mem
      by (auto simp: t notifyClientDisconnect_def turn_defs add_pending_def)
  next
    case (Write_done w off err n)
    then show ?thesis
      using written_turn[OF inv] mem by (auto simp: t intro!: turn_write_handler)
  next
    case (Timer_fired g err)
    then show ?thesis using timer_fired_watched[OF inv w, of g err] mem ok by (simp add: t)
  next
    case (Job_run pool j)
    then have "servers_turn (complete (Pending_job pool j) s)"
      using complete_turn[OF inv, of "Pending_job pool j"] mem by simp
    with Job_run show ?thesis by (cases j) (auto simp: t Let_def intro!: turns)
  qed
qed

definition timed_inv :: "('q, 'p, 'h) spine \<Rightarrow> ('q, 'p, 'h) conn \<Rightarrow> bool" where
  "timed_inv sp s \<longleftrightarrow> conn_inv sp s \<and> watched s"

lemma watched_start: "conn_start sp srv s \<Longrightarrow> watched s"
proof (induction rule: conn_start.induct)
  case (started e count)
  then show ?case
    by (auto simp: start_def registerConnection_def armTimer_def add_pending_def startRead_def
        Let_def new_connection_eq turn_defs)
next
  case (rejected e)
  have "servers_turn (new_connection sp srv)" by (simp add: new_connection_eq turn_defs)
  then show ?case unfolding rejectConnection_def by (intro turn_sendStockReply) simp
qed

interpretation waiting: inductive_invariant "conn_start sp srv" "conn_step sp srv" "timed_inv sp"
  for sp :: "('q, 'p, 'h) spine" and srv
  by unfold_locales
    (auto simp: timed_inv_def intro: watched_start conn_inv_start conn_inv_step watched_step)

text \<open>The expiry of the current timer ends the connection, idle or not.\<close>

lemma current_timer_closes:
  assumes "prints_status sp" "\<not> lockHeld s"
  shows "hasTimedOut (handleTimer sp e Success (itsTimerGeneration s) s) \<and>
    \<not> socketOpen (handleTimer sp e Success (itsTimerGeneration s) s)"
proof -
  let ?s = "s\<lparr>lockHeld := True, hasTimedOut := True, itsKeepAlive := False\<rparr>"
  have "hasTimedOut (sendStockReply sp e request_timeout ?s)"
    using sendStockReply_closes[of ?s sp e request_timeout] by auto
  then show ?thesis
    using sendStockReply_closes_socket[OF assms(1), of ?s e request_timeout] assms(2)
    by (simp add: handleTimer_def closeSocket_def Let_def)
qed

text \<open>C12. A client cannot hold a connection by not sending its request. While a handshake, a read or the
  handling of buffered data is pending, a wait of the current generation of the timer is pending too,
  unless the timer has already expired; and that wait can end, whatever else happens, with a
  step that closes the socket.\<close>

theorem waiting_is_timed:
  assumes "prints_status sp" "reachable sp srv s"
    and "Pending_handshake \<in> set (pending s) \<or> Pending_read \<in> set (pending s) \<or>
      Pending_posted \<in> set (pending s)"
  shows "hasTimedOut s \<or>
    (\<exists>t. dispatch sp srv e (Timer_fired (itsTimerGeneration s) Success) s = Some t \<and>
      hasTimedOut t \<and> \<not> socketOpen t)"
proof (cases "hasTimedOut s")
  case False
  let ?p = "Pending_timer (itsTimerGeneration s)"
  have "?p \<in> set (pending s)"
    using waiting.inv_reach[OF assms(2)] assms(3) False
    by (auto simp: timed_inv_def watched_def waits_for_request_def timed_def)
  moreover have "\<not> lockHeld (complete ?p s)"
    using connection.inv_reach[OF assms(2)] by (simp add: conn_inv_def base_inv_def complete_def)
  note current_timer_closes[OF assms(1) this, of e]
  ultimately show ?thesis by (simp add: dispatch_def complete_def)
qed simp

end
