(* ===== verification/Conn_Pipelining.thy ===== *)
theory Conn_Pipelining
  imports Conn_Phases
begin

text \<open>
  Pipelining is transparent: a client that sends its next requests without waiting for the
  answers gets what it would have got by waiting. Two connections are compared that differ in
  what is buffered behind the current request and in their timers, \<open>twin\<close>; every handler
  that answers keeps them so until the response is finished, and then the one goes on from
  its buffer and the other from its next read, to the same state.
\<close>

subsection \<open>The same connection with more in its buffer\<close>

definition twin :: "string \<Rightarrow> u64 \<Rightarrow> int \<Rightarrow> 'h pending list \<Rightarrow> ('q, 'p, 'h) conn \<Rightarrow> ('q, 'p, 'h) conn" where
  "twin b g x ps s =
     s\<lparr>itsBuffer := itsBuffer s @ b, itsReceivedBytes := itsReceivedBytes s + length b,
       itsTimerGeneration := g, timerSeconds := x, pending := ps\<rparr>"

lemma twin_select [simp]:
  "itsServer_set (twin b g x ps s) = itsServer_set s" "itsRequest (twin b g x ps s) = itsRequest s"
  "itsResponse (twin b g x ps s) = itsResponse s" "itsResponseString (twin b g x ps s) = itsResponseString s"
  "itsPendingHeaders (twin b g x ps s) = itsPendingHeaders s"
  "itsCanGzipResponse (twin b g x ps s) = itsCanGzipResponse s"
  "itsCompressLimit (twin b g x ps s) = itsCompressLimit s"
  "itsMaxRequestSize (twin b g x ps s) = itsMaxRequestSize s" "itsTimeout (twin b g x ps s) = itsTimeout s"
  "itsKeepAliveEnabled (twin b g x ps s) = itsKeepAliveEnabled s"
  "itsKeepAliveTimeout (twin b g x ps s) = itsKeepAliveTimeout s"
  "itsMaxKeepAliveRequests (twin b g x ps s) = itsMaxKeepAliveRequests s"
  "itsMaxHeaderSize (twin b g x ps s) = itsMaxHeaderSize s"
  "itsRequestCount (twin b g x ps s) = itsRequestCount s" "itsKeepAlive (twin b g x ps s) = itsKeepAlive s"
  "itsResponseVersion (twin b g x ps s) = itsResponseVersion s" "itsIdle (twin b g x ps s) = itsIdle s"
  "hasTimedOut (twin b g x ps s) = hasTimedOut s" "itsQueryIsFast (twin b g x ps s) = itsQueryIsFast s"
  "itsAdminQuery (twin b g x ps s) = itsAdminQuery s" "itsDumpRequests (twin b g x ps s) = itsDumpRequests s"
  "itsFinalStatus (twin b g x ps s) = itsFinalStatus s" "itsSentBytes (twin b g x ps s) = itsSentBytes s"
  "itsTotalStreamedBytes (twin b g x ps s) = itsTotalStreamedBytes s"
  "itsBackendNotified (twin b g x ps s) = itsBackendNotified s"
  "itsHeadRequest (twin b g x ps s) = itsHeadRequest s"
  "itsExpectHandled (twin b g x ps s) = itsExpectHandled s"
  "itsDeclaredContentLength (twin b g x ps s) = itsDeclaredContentLength s"
  "itsPrematurelyDisconnected (twin b g x ps s) = itsPrematurelyDisconnected s"
  "socketOpen (twin b g x ps s) = socketOpen s" "lockHeld (twin b g x ps s) = lockHeld s"
  "wire (twin b g x ps s) = wire s" "hooks (twin b g x ps s) = hooks s" "reports (twin b g x ps s) = reports s"
  "pending (twin b g x ps s) = ps" "itsBuffer (twin b g x ps s) = itsBuffer s @ b"
  by (simp_all add: twin_def)

lemma twin_update [simp]:
  "(twin b g x ps s)\<lparr>itsRequest := q\<rparr> = twin b g x ps (s\<lparr>itsRequest := q\<rparr>)"
  "(twin b g x ps s)\<lparr>itsResponse := p\<rparr> = twin b g x ps (s\<lparr>itsResponse := p\<rparr>)"
  "(twin b g x ps s)\<lparr>itsResponseString := v\<rparr> = twin b g x ps (s\<lparr>itsResponseString := v\<rparr>)"
  "(twin b g x ps s)\<lparr>itsPendingHeaders := v\<rparr> = twin b g x ps (s\<lparr>itsPendingHeaders := v\<rparr>)"
  "(twin b g x ps s)\<lparr>itsRequestCount := c\<rparr> = twin b g x ps (s\<lparr>itsRequestCount := c\<rparr>)"
  "(twin b g x ps s)\<lparr>itsKeepAlive := d\<rparr> = twin b g x ps (s\<lparr>itsKeepAlive := d\<rparr>)"
  "(twin b g x ps s)\<lparr>itsResponseVersion := v\<rparr> = twin b g x ps (s\<lparr>itsResponseVersion := v\<rparr>)"
  "(twin b g x ps s)\<lparr>itsQueryIsFast := d\<rparr> = twin b g x ps (s\<lparr>itsQueryIsFast := d\<rparr>)"
  "(twin b g x ps s)\<lparr>itsAdminQuery := d\<rparr> = twin b g x ps (s\<lparr>itsAdminQuery := d\<rparr>)"
  "(twin b g x ps s)\<lparr>itsFinalStatus := f\<rparr> = twin b g x ps (s\<lparr>itsFinalStatus := f\<rparr>)"
  "(twin b g x ps s)\<lparr>itsSentBytes := n\<rparr> = twin b g x ps (s\<lparr>itsSentBytes := n\<rparr>)"
  "(twin b g x ps s)\<lparr>itsTotalStreamedBytes := n\<rparr> = twin b g x ps (s\<lparr>itsTotalStreamedBytes := n\<rparr>)"
  "(twin b g x ps s)\<lparr>itsDeclaredContentLength := n\<rparr> = twin b g x ps (s\<lparr>itsDeclaredContentLength := n\<rparr>)"
  "(twin b g x ps s)\<lparr>itsBackendNotified := d\<rparr> = twin b g x ps (s\<lparr>itsBackendNotified := d\<rparr>)"
  "(twin b g x ps s)\<lparr>itsHeadRequest := d\<rparr> = twin b g x ps (s\<lparr>itsHeadRequest := d\<rparr>)"
  "(twin b g x ps s)\<lparr>itsExpectHandled := d\<rparr> = twin b g x ps (s\<lparr>itsExpectHandled := d\<rparr>)"
  "(twin b g x ps s)\<lparr>itsIdle := d\<rparr> = twin b g x ps (s\<lparr>itsIdle := d\<rparr>)"
  "(twin b g x ps s)\<lparr>socketOpen := d\<rparr> = twin b g x ps (s\<lparr>socketOpen := d\<rparr>)"
  "(twin b g x ps s)\<lparr>deadlocked := d\<rparr> = twin b g x ps (s\<lparr>deadlocked := d\<rparr>)"
  "(twin b g x ps s)\<lparr>wire := v\<rparr> = twin b g x ps (s\<lparr>wire := v\<rparr>)"
  "(twin b g x ps s)\<lparr>hooks := h\<rparr> = twin b g x ps (s\<lparr>hooks := h\<rparr>)"
  "(twin b g x ps s)\<lparr>reports := r\<rparr> = twin b g x ps (s\<lparr>reports := r\<rparr>)"
  "(twin b g x ps s)\<lparr>pending := qs\<rparr> = twin b g x qs (s\<lparr>pending := rs\<rparr>)"
  by (simp_all add: twin_def)

lemma twin_if [simp]:
  "(if c then twin b g x ps s else twin b g x ps t) = twin b g x ps (if c then s else t)"
  by simp

lemma twin_let:
  "t = twin b g x ps s \<Longrightarrow> (\<And>u. f (twin b g x ps u) = twin b g x ps (h u)) \<Longrightarrow>
     Let t f = twin b g x ps (Let s h)"
  by (simp add: Let_def)

lemma twin_report [simp]:
  "add_report sev sp m (twin b g x ps s) = twin b g x ps (add_report sev sp m s)"
  "reportInfo sp m (twin b g x ps s) = twin b g x ps (reportInfo sp m s)"
  "reportError sp m (twin b g x ps s) = twin b g x ps (reportError sp m s)"
  by (simp_all add: add_report_def reportInfo_def reportError_def)

lemma twin_header [simp]:
  "set_header sp k v (twin b g x ps s) = twin b g x ps (set_header sp k v s)"
  "remove_header sp k (twin b g x ps s) = twin b g x ps (remove_header sp k s)"
  by (simp_all add: set_header_def remove_header_def)

lemma twin_sync_write [simp]:
  "fst (sync_write a d (twin b g x ps s)) = twin b g x ps (fst (sync_write a d s))"
  "snd (sync_write a d (twin b g x ps s)) = snd (sync_write a d s)"
  by (simp_all add: sync_write_def)

lemma twin_socket [simp]: "closeSocket (twin b g x ps s) = twin b g x ps (closeSocket s)"
  by (simp add: closeSocket_def)

lemma twin_pending [simp]:
  "add_pending p (twin b g x ps s) = twin b g x (p # ps) (add_pending p s)"
  "startRead (twin b g x ps s) = twin b g x (Pending_read # ps) (startRead s)"
  "async_write_some w off (twin b g x ps s) = twin b g x (Pending_write w off # ps) (async_write_some w off s)"
  by (simp_all add: add_pending_def startRead_def async_write_some_def twin_def)

lemma twin_setConnectionHeaders [simp]:
  "setConnectionHeaders sp (twin b g x ps s) = twin b g x ps (setConnectionHeaders sp s)"
  unfolding setConnectionHeaders_def
  by (intro twin_let) (simp_all add: Let_def keep_alive_value_def split: option.split)

lemma twin_appendStaleDirectives [simp]:
  "appendStaleDirectives sp (twin b g x ps s) = twin b g x ps (appendStaleDirectives sp s)"
  by (simp add: appendStaleDirectives_def split: option.split)

lemma twin_setServerHeaders [simp]:
  "setServerHeaders sp e (twin b g x ps s) = twin b g x ps (setServerHeaders sp e s)"
  unfolding setServerHeaders_def by (intro twin_let) (simp_all split: option.split)

lemma twin_logging [simp]:
  "notifyBackendFinished sp st (twin b g x ps s) = twin b g x ps (notifyBackendFinished sp st s)"
  "finalizeStreamLogging sp (twin b g x ps s) = twin b g x ps (finalizeStreamLogging sp s)"
  by (simp_all add: notifyBackendFinished_def finalizeStreamLogging_def split_beta)

lemma twin_pending_headers [simp]:
  "snd (preparePendingHeaders sp (twin b g x ps s)) = twin b g x ps (snd (preparePendingHeaders sp s))"
  "fst (preparePendingHeaders sp (twin b g x ps s)) = fst (preparePendingHeaders sp s)"
  "snd (flushPendingHeaders sp e (twin b g x ps s)) = twin b g x ps (snd (flushPendingHeaders sp e s))"
  "fst (flushPendingHeaders sp e (twin b g x ps s)) = fst (flushPendingHeaders sp e s)"
proof -
  have "preparePendingHeaders sp (twin b g x ps s) = apsnd (twin b g x ps) (preparePendingHeaders sp s)"
    by (simp add: preparePendingHeaders_def Let_def split: option.split)
  then show "snd (preparePendingHeaders sp (twin b g x ps s)) = twin b g x ps (snd (preparePendingHeaders sp s))"
    "fst (preparePendingHeaders sp (twin b g x ps s)) = fst (preparePendingHeaders sp s)" by simp_all
  have "flushPendingHeaders sp e (twin b g x ps s) = apsnd (twin b g x ps) (flushPendingHeaders sp e s)"
    by (simp add: flushPendingHeaders_def Let_def split_beta)
  then show "snd (flushPendingHeaders sp e (twin b g x ps s)) = twin b g x ps (snd (flushPendingHeaders sp e s))"
    "fst (flushPendingHeaders sp e (twin b g x ps s)) = fst (flushPendingHeaders sp e s)" by simp_all
qed

lemma twin_shape_response [simp]:
  "encode_response sp (twin b g x ps s) = twin b g x ps (encode_response sp s)"
  "frame_response sp (twin b g x ps s) = twin b g x ps (frame_response sp s)"
  by (simp_all add: encode_response_def frame_response_def Let_def split: option.split)

lemma twin_requests [simp]:
  "evaluateKeepAlive sp e (twin b g x ps s) = evaluateKeepAlive sp e s"
  "snd (resolveClientIP sp e srv (twin b g x ps s)) = twin b g x ps (snd (resolveClientIP sp e srv s))"
  "fst (resolveClientIP sp e srv (twin b g x ps s)) = fst (resolveClientIP sp e srv s)"
  "stripHopByHopHeaders sp (twin b g x ps s) = twin b g x ps (stripHopByHopHeaders sp s)"
  "take_head_method sp (twin b g x ps s) = twin b g x ps (take_head_method sp s)"
  "begin_handling sp h (twin b g x ps s) = twin b g x ps (begin_handling sp h s)"
  "createCancellationToken sp srv h (twin b g x ps s) = createCancellationToken sp srv h s"
  "request_pool (twin b g x ps s) = request_pool s"
  by (simp_all add: evaluateKeepAlive_def resolveClientIP_def stripHopByHopHeaders_def take_head_method_def
      begin_handling_def createCancellationToken_def request_pool_def Let_def split: option.split)

lemma twin_negotiate [simp]: "negotiate sp e (twin b g x ps s) = twin b g x ps (negotiate sp e s)"
  by (simp add: negotiate_def Let_def)

lemma twin_timer [simp]:
  "armTimer n (twin b g x ps s) =
     (if lockHeld s then twin b g x ps (armTimer n s)
      else twin b (g + 1) n (Pending_timer (g + 1) # ps) (armTimer n s))"
  "cancelTimer (twin b g x ps s) =
     (if lockHeld s then twin b g x ps (cancelTimer s) else twin b (g + 1) x ps (cancelTimer s))"
  by (simp_all add: armTimer_def cancelTimer_def add_pending_def twin_def Let_def)

lemma twin_complete [simp]:
  "complete p (twin b g x ps s) = twin b g x (remove1 p ps) (complete p s)"
  "written w off n (twin b g x ps s) = twin b g x (remove1 (Pending_write w off) ps) (written w off n s)"
  by (simp_all add: complete_def written_def twin_def)

text \<open>With nothing more in the buffer only the timers differ.\<close>

lemma twin_empty [simp]:
  "itsReceivedBytes (twin [] g x ps s) = itsReceivedBytes s"
  "(twin [] g x ps s)\<lparr>itsBuffer := v\<rparr> = twin [] g x ps (s\<lparr>itsBuffer := v\<rparr>)"
  "(twin [] g x ps s)\<lparr>itsReceivedBytes := n\<rparr> = twin [] g x ps (s\<lparr>itsReceivedBytes := n\<rparr>)"
  by (simp_all add: twin_def)

subsection \<open>What the functions that end a handler leave\<close>

text \<open>While a request is answered nothing is buffered on the connection that waits; \<open>b\<close> is what the
  other has got ahead.\<close>

definition ready :: "string \<Rightarrow> ('q, 'p, 'h) conn \<Rightarrow> bool" where
  "ready b s \<longleftrightarrow> (b \<noteq> [] \<longrightarrow> itsBuffer s = [] \<and> itsReceivedBytes s = 0 \<and> \<not> itsIdle s)"

lemma ready_none [simp]: "ready [] s"
  by (simp add: ready_def)

lemma ready_update [simp]:
  "ready b (s\<lparr>itsRequest := q\<rparr>) = ready b s" "ready b (s\<lparr>itsResponse := p\<rparr>) = ready b s"
  "ready b (s\<lparr>itsKeepAlive := k\<rparr>) = ready b s" "ready b (s\<lparr>itsFinalStatus := f\<rparr>) = ready b s"
  "ready b (s\<lparr>itsResponseVersion := v\<rparr>) = ready b s" "ready b (s\<lparr>itsSentBytes := n\<rparr>) = ready b s"
  "ready b (s\<lparr>itsPendingHeaders := y\<rparr>) = ready b s" "ready b (s\<lparr>itsResponseString := y\<rparr>) = ready b s"
  "ready b (s\<lparr>itsTotalStreamedBytes := n\<rparr>) = ready b s" "ready b (s\<lparr>itsDeclaredContentLength := n\<rparr>) = ready b s"
  "ready b (s\<lparr>itsBackendNotified := d\<rparr>) = ready b s" "ready b (s\<lparr>itsHeadRequest := d\<rparr>) = ready b s"
  "ready b (s\<lparr>itsQueryIsFast := d\<rparr>) = ready b s" "ready b (s\<lparr>itsAdminQuery := d\<rparr>) = ready b s"
  "ready b (s\<lparr>itsRequestCount := c\<rparr>) = ready b s" "ready b (s\<lparr>hooks := h\<rparr>) = ready b s"
  "ready b (s\<lparr>wire := y\<rparr>) = ready b s" "ready b (s\<lparr>itsExpectHandled := d\<rparr>) = ready b s"
  by (simp_all add: ready_def)

lemma ready_frame [simp]:
  "ready b (reportInfo sp m s) = ready b s" "ready b (reportError sp m s) = ready b s"
  "ready b (finalizeStreamLogging sp s) = ready b s" "ready b (notifyBackendFinished sp st s) = ready b s"
  "ready b (set_header sp k v s) = ready b s" "ready b (remove_header sp k s) = ready b s"
  "ready b (fst (sync_write a d s)) = ready b s" "ready b (closeSocket s) = ready b s"
  "ready b (armTimer secs s) = ready b s" "ready b (cancelTimer s) = ready b s" "ready b (startRead s) = ready b s"
  "ready b (add_pending p s) = ready b s" "ready b (async_write_some w off s) = ready b s"
  "ready b (complete p s) = ready b s" "ready b (written w off n s) = ready b s"
  by (auto simp: ready_def reportInfo_def reportError_def add_report_def finalizeStreamLogging_def split_beta
      notifyBackendFinished_def set_header_def remove_header_def sync_write_def closeSocket_def
      armTimer_def add_pending_def cancelTimer_def startRead_def async_write_some_def complete_def
      written_def Let_def)

lemma ready_reshapes: "reshapes s t \<Longrightarrow> ready b t = ready b s"
  by (auto simp: reshapes_def)

lemma ready_setServerHeaders [simp]: "ready b (setServerHeaders sp e s) = ready b s"
  by (rule ready_reshapes[OF reshapes_setServerHeaders[OF reshapesI(1)]])

lemma ready_shape [simp]:
  "ready b (encode_response sp s) = ready b s" "ready b (frame_response sp s) = ready b s"
  "ready b (snd (flushPendingHeaders sp e s)) = ready b s" "ready b (snd (preparePendingHeaders sp s)) = ready b s"
  "ready b (snd (resolveClientIP sp e srv s)) = ready b s" "ready b (negotiate sp e s) = ready b s"
  "ready b (stripHopByHopHeaders sp s) = ready b s" "ready b (take_head_method sp s) = ready b s"
  "ready b (begin_handling sp h s) = ready b s"
  by (auto simp: encode_response_def frame_response_def flushPendingHeaders_def
      preparePendingHeaders_def resolveClientIP_def negotiate_def stripHopByHopHeaders_def
      take_head_method_def begin_handling_def Let_def split_beta split: option.split)

definition turned :: "string \<Rightarrow> ('q, 'p, 'h) conn \<Rightarrow> ('q, 'p, 'h) conn \<Rightarrow> bool" where
  "turned b t s \<longleftrightarrow> itsBuffer s = [] \<and> itsReceivedBytes s = 0 \<and> itsIdle s \<and> ops s = [Pending_read] \<and>
     (\<exists>g x ps. others ps = [Pending_posted] \<and> t = twin b g x ps (s\<lparr>itsIdle := False\<rparr>))"

definition outcome :: "string \<Rightarrow> ('q, 'p, 'h) conn \<Rightarrow> ('q, 'p, 'h) conn \<Rightarrow> bool" where
  "outcome b t s \<longleftrightarrow>
     ready b s \<and> (b \<noteq> [] \<longrightarrow> Pending_read \<notin> set (ops s)) \<and>
       (\<exists>g x ps. others ps = ops s \<and> t = twin b g x ps s) \<or> b \<noteq> [] \<and> turned b t s"

lemma ops_pending [simp]:
  "ops (add_pending p s) = (if is_timer p then ops s else p # ops s)"
  "ops (async_write_some w off s) = Pending_write w off # ops s"
  "ops (startRead s) = Pending_read # ops s"
  by (simp_all add: add_pending_def async_write_some_def startRead_def)

named_theorems outcomes "what the functions of two connections leave"

lemma outcome_twin [outcomes]:
  "ready b s \<Longrightarrow> others ps = ops s \<Longrightarrow> list_all (\<lambda>p. b \<noteq> [] \<longrightarrow> p \<noteq> Pending_read) (ops s) \<Longrightarrow>
     outcome b (twin b g x ps s) s"
  by (auto simp: outcome_def list_all_iff simp del: set_others)

lemma outcome_report [outcomes]: "outcome b t s \<Longrightarrow> outcome b (reportInfo sp m t) (reportInfo sp m s)"
proof -
  have "reportInfo sp m (u\<lparr>itsIdle := d\<rparr>) = (reportInfo sp m u)\<lparr>itsIdle := d\<rparr>" for u :: "('a, 'b, 'c) conn" and d
    by (simp add: reportInfo_def add_report_def)
  moreover have "itsBuffer (reportInfo sp m u) = itsBuffer u"
    "itsReceivedBytes (reportInfo sp m u) = itsReceivedBytes u" "itsIdle (reportInfo sp m u) = itsIdle u"
    for u :: "('a, 'b, 'c) conn" by (simp_all add: reportInfo_def add_report_def)
  ultimately show "outcome b t s \<Longrightarrow> ?thesis" by (fastforce simp: outcome_def turned_def simp del: set_others)
qed

lemma turned_reads:
  assumes "itsBuffer u = []" "itsReceivedBytes u = 0" "ops u = []" "others ps = []"
  shows "turned b (add_pending Pending_posted (armTimer m (twin b g x ps (u\<lparr>itsIdle := False\<rparr>))))
    (startRead (armTimer n (u\<lparr>itsIdle := True\<rparr>)))"
proof (cases "lockHeld u")
  case True
  with assms show ?thesis
    by (auto simp: turned_def armTimer_def startRead_def add_pending_def twin_def simp del: set_others
        intro!: exI[of _ g] exI[of _ x] exI[of _ "Pending_posted # ps"])
next
  case False
  with assms show ?thesis
    by (auto simp: turned_def armTimer_def startRead_def add_pending_def twin_def Let_def simp del: set_others
        intro!: exI[of _ "g + 1"] exI[of _ m] exI[of _ "Pending_posted # Pending_timer (g + 1) # ps"])
qed

lemma outcome_finishResponse [outcomes]:
  assumes "ready b s" "ops s = []" "others ps = []"
  shows "outcome b (finishResponse sp e (twin b g x ps s)) (finishResponse sp e s)"
proof (cases "\<not> itsKeepAlive s \<or> hasTimedOut s \<or> env_shutdown e")
  case True
  with assms show ?thesis by (auto simp: finishResponse_def intro!: outcomes)
next
  case False
  show ?thesis
  proof (cases "b = []")
    case True
    with False assms show ?thesis
      by (auto simp: finishResponse_def Let_def intro!: outcomes)
  next
    case b: False
    let ?u = "s\<lparr>itsSentBytes := 0, itsTotalStreamedBytes := 0, itsDeclaredContentLength := 0,
      itsResponseString := [],
      itsRequest := rq_setClientIP sp (new_Request sp) (rq_getClientIP sp (itsRequest s)),
      itsResponse := new_Response sp, itsResponseVersion := ''1.0'', itsQueryIsFast := False,
      itsAdminQuery := False, itsKeepAlive := False, itsExpectHandled := False, itsHeadRequest := False,
      itsBackendNotified := False\<rparr>"
    have r: "itsBuffer s = []" "itsReceivedBytes s = 0" using assms(1) b by (simp_all add: ready_def)
    then have "finishResponse sp e (twin b g x ps s) =
        add_pending Pending_posted (armTimer (itsTimeout s) (twin b g x ps (?u\<lparr>itsIdle := False\<rparr>)))"
      "finishResponse sp e s = startRead (armTimer (itsKeepAliveTimeout s) (?u\<lparr>itsIdle := True\<rparr>))"
      using False b by (simp_all add: finishResponse_def Let_def del: twin_pending twin_timer)
    moreover have "turned b (add_pending Pending_posted (armTimer (itsTimeout s) (twin b g x ps (?u\<lparr>itsIdle := False\<rparr>))))
        (startRead (armTimer (itsKeepAliveTimeout s) (?u\<lparr>itsIdle := True\<rparr>)))"
      by (rule turned_reads) (use assms r in simp_all)
    ultimately show ?thesis using b by (simp add: outcome_def)
  qed
qed

lemma outcome_sendSimpleReply [outcomes]:
  assumes "ready b s" "ops s = []" "others ps = []"
  shows "outcome b (sendSimpleReply sp e (twin b g x ps s)) (sendSimpleReply sp e s)"
  using assms
  by (auto simp: sendSimpleReply_def Let_def split_beta split: option.split intro!: outcomes)

lemma outcome_sendStockReply [outcomes]:
  assumes "ready b s" "ops s = []" "others ps = []"
  shows "outcome b (sendStockReply sp e st (twin b g x ps s)) (sendStockReply sp e st s)"
  using assms by (auto simp: sendStockReply_def Let_def intro!: outcomes)

lemma sync_write_keepalive [simp]: "itsKeepAlive (fst (sync_write a d s)) = itsKeepAlive s"
  by (simp add: sync_write_def)

text \<open>A stock reply that closes the connection starts nothing.\<close>

lemma twin_sendStockReply [simp]:
  assumes "\<not> itsKeepAlive s"
  shows "sendStockReply sp e st (twin b g x ps s) = twin b g x ps (sendStockReply sp e st s)"
proof -
  have "sendSimpleReply sp e (twin b g x ps u) = twin b g x ps (sendSimpleReply sp e u)"
    if "\<not> itsKeepAlive u" for u
  proof -
    show ?thesis
      using that by (simp add: sendSimpleReply_def Let_def split_beta split: option.split)
  qed
  moreover have "\<not> itsKeepAlive (setServerHeaders sp e (set_header sp k v (s\<lparr>itsResponse := p\<rparr>)))" for k v p
    using assms reshapes_setServerHeaders[OF reshapes_header(1)[OF reshapesI(2)], of s sp e sp k v p]
    by (auto simp: reshapes_def)
  ultimately show ?thesis by (simp add: sendStockReply_def Let_def)
qed

lemma ready_sendStockReply [simp]:
  assumes "\<not> itsKeepAlive s" shows "ready b (sendStockReply sp e st s) = ready b s"
  using sendStockReply_closes[OF assms, of sp e st] by (auto simp: ready_def)

lemma outcome_schedule [outcomes]:
  assumes "ready b s" "ops s = []" "others ps = []"
  shows "outcome b (scheduleChunkGetter sp e (twin b g x ps s)) (scheduleChunkGetter sp e s)"
    "outcome b (scheduleChunkedChunkGetter sp e (twin b g x ps s)) (scheduleChunkedChunkGetter sp e s)"
  using assms by (auto simp: scheduleChunkGetter_def scheduleChunkedChunkGetter_def Let_def intro!: outcomes)

lemma outcome_write_handler [outcomes]:
  assumes "ready b s" "ops s = []" "others ps = []"
  shows "outcome b (write_handler sp e w err n (twin b g x ps s)) (write_handler sp e w err n s)"
  using assms
  by (cases w) (auto simp: writeRegularReply_def writeStreamReply_def writeChunkedReply_def
      finalizeChunkedReply_def Let_def intro!: outcomes)

lemma outcome_getNextChunk [outcomes]:
  assumes "ready b s" "ops s = []" "others ps = []"
  shows "outcome b (getNextChunk sp e (twin b g x ps s)) (getNextChunk sp e s)"
    "outcome b (getNextChunkedChunk sp e (twin b g x ps s)) (getNextChunkedChunk sp e s)"
  using assms
  by (auto simp: getNextChunk_def getNextChunkedChunk_def Let_def split_beta intro!: outcomes)

lemma outcome_starts [outcomes]:
  assumes "ready b s" "ops s = []" "others ps = []"
  shows "outcome b (startGatewayReply sp e (twin b g x ps s)) (startGatewayReply sp e s)"
    "outcome b (startChunkedReply sp e (twin b g x ps s)) (startChunkedReply sp e s)"
    "outcome b (startStreamReply sp e (twin b g x ps s)) (startStreamReply sp e s)"
  using assms
  by (auto simp: startGatewayReply_def startChunkedReply_def startStreamReply_def Let_def split_beta
      intro!: outcomes)

lemma outcome_startRegularReply [outcomes]:
  assumes "ready b s" "ops s = []" "others ps = []"
  shows "outcome b (startRegularReply sp e (twin b g x ps s)) (startRegularReply sp e s)"
proof -
  define u where "u = frame_response sp (encode_response sp s)"
  have u: "ready b u" "ops u = []" using assms by (simp_all add: u_def)
  have t: "frame_response sp (encode_response sp (twin b g x ps s)) = twin b g x ps u" by (simp add: u_def)
  show ?thesis
  proof (cases "rs_headersToString sp (itsResponse u)")
    case (Some headers)
    then show ?thesis
      using u assms(3) by (auto simp: startRegularReply_def t u_def[symmetric] Let_def split_beta intro!: outcomes)
  next
    case None
    then show ?thesis
      using u assms(3)
      by (auto simp: startRegularReply_def t u_def[symmetric] Let_def split_beta split: option.split intro!: outcomes)
  qed
qed

lemma outcome_start_reply [outcomes]:
  assumes "ready b s" "ops s = []" "others ps = []"
  shows "outcome b (start_reply sp e (twin b g x ps s)) (start_reply sp e s)"
  using assms by (auto simp: start_reply_def intro!: outcomes)

lemma outcome_handleCompletedRead [outcomes]:
  assumes "ready b s" "ops s = []" "others ps = []"
  shows "outcome b (handleCompletedRead sp e srv h (twin b g x ps s)) (handleCompletedRead sp e srv h s)"
proof -
  have "outcome b (end_handling sp e h i ok (twin b g x ps u)) (end_handling sp e h i ok u)"
    if "ready b u" "ops u = []" "others ps = []" for u i ok g and x :: int
    using that by (auto simp: end_handling_def Let_def split: option.split intro!: outcomes)
  then show ?thesis
    using assms by (auto simp: handleCompletedRead_def Let_def split: option.split intro!: outcomes)
qed

lemma outcome_route_request [outcomes]:
  assumes "ready b s" "ops s = []" "others ps = []"
  shows "outcome b (route_request sp e (twin b g x ps s)) (route_request sp e s)"
proof -
  have "outcome b (scheduleRequest sp e h (twin b g x ps u)) (scheduleRequest sp e h u)"
    if "ready b u" "ops u = []" for h u
    using that assms(3) by (auto simp: scheduleRequest_def Let_def intro!: outcomes)
  with assms show ?thesis
    by (auto simp: route_request_def Let_def split: option.split intro!: outcomes)
qed

lemma outcome_handleParsedRequest [outcomes]:
  assumes "ready b s" "ops s = []" "others ps = []"
  shows "outcome b (handleParsedRequest sp e srv (twin b g x ps s)) (handleParsedRequest sp e srv s)"
  using assms by (auto simp: handleParsedRequest_def Let_def split_beta intro!: outcomes)

text \<open>Reading, when only the timers differ.\<close>

lemma twin_handleExpectContinue [simp]:
  "fst (handleExpectContinue sp e (twin [] g x ps s)) = fst (handleExpectContinue sp e s)"
  "snd (handleExpectContinue sp e (twin [] g x ps s)) = twin [] g x ps (snd (handleExpectContinue sp e s))"
proof -
  have "handleExpectContinue sp e (twin [] g x ps s) = apsnd (twin [] g x ps) (handleExpectContinue sp e s)"
    by (simp add: handleExpectContinue_def Let_def split_beta)
  then show "fst (handleExpectContinue sp e (twin [] g x ps s)) = fst (handleExpectContinue sp e s)"
    "snd (handleExpectContinue sp e (twin [] g x ps s)) = twin [] g x ps (snd (handleExpectContinue sp e s))"
    by simp_all
qed

lemma ops_handleExpectContinue [simp]: "ops (snd (handleExpectContinue sp e s)) = ops s"
  by (simp add: handleExpectContinue_def Let_def split_beta)

lemma outcome_receive [outcomes]:
  assumes "ops s = []" "others ps = []"
  shows "outcome [] (receive sp e srv bytes (twin [] g x ps s)) (receive sp e srv bytes s)"
  using assms
  by (auto simp: receive_def handleIncompleteRequest_def Let_def split_beta split: parsing_status.split
      intro!: outcomes)

subsection \<open>Runs that answer a request\<close>

fun answers :: "'h event \<Rightarrow> bool" where
  "answers (Job_run pool j) = True"
| "answers (Write_done w off err n) = True"
| "answers ev = False"

lemma outcome_answers:
  assumes "conn_inv sp s" "ready b s" "others ps = ops s" "answers ev"
    and d: "dispatch sp srv e ev s = Some s1"
  shows "\<exists>t1. dispatch sp srv e ev (twin b g x ps s) = Some t1 \<and> outcome b t1 s1"
proof -
  let ?p = "operation_of ev"
  have nt: "\<not> is_timer ?p" using assms(4) by (cases ev) simp_all
  have mem: "?p \<in> set (pending s)" and ok: "event_ok ev s" and s1: "s1 = run_handler sp e srv ev s"
    using d by (auto simp: dispatch_def split: if_splits)
  note single = conn_inv_single[OF assms(1) mem nt]
  have "others ps = [?p]" using assms(3) single(1) by simp
  then have "?p \<in> set (others ps)" by (simp del: set_others)
  then have "?p \<in> set ps" by simp
  moreover have "event_ok ev (twin b g x ps s)" using ok assms(4) by (cases ev) simp_all
  ultimately have "dispatch sp srv e ev (twin b g x ps s) = Some (run_handler sp e srv ev (twin b g x ps s))"
    by (simp add: dispatch_def)
  moreover have "outcome b (run_handler sp e srv ev (twin b g x ps s)) s1"
  proof -
    have rest: "others (remove1 ?p ps) = []"
      using \<open>others ps = [?p]\<close> nt by (simp add: others_remove1)
    have none: "ops (complete ?p s) = []" using single(3) by (simp add: complete_def)
    show ?thesis
    proof (cases ev)
      case (Job_run pool j)
      with rest none assms(2) show ?thesis by (cases j) (auto simp: s1 Let_def intro!: outcomes)
    next
      case (Write_done w off err n)
      then have "ops (written w off n s) = []" using single(3) by (simp add: written_def)
      with Write_done rest assms(2) show ?thesis by (auto simp: s1 intro!: outcomes)
    qed (use assms(4) in simp_all)
  qed
  ultimately show ?thesis by blast
qed

text \<open>The run of events on the connection that has got more ahead ends like the other.\<close>

lemma outcome_run:
  assumes "conn_inv sp s" "outcome b t s" "list_all (\<lambda>(e, ev). answers ev) evs"
    and "run_events sp srv evs s = Some s1"
  shows "\<exists>t1. run_events sp srv evs t = Some t1 \<and> outcome b t1 s1 \<and> conn_inv sp s1 \<and>
    itsMaxRequestSize s1 = itsMaxRequestSize s"
  using assms
proof (induction evs arbitrary: s t)
  case (Cons y evs)
  obtain e ev where y: "y = (e, ev)" by force
  with Cons.prems obtain s' where d: "dispatch sp srv e ev s = Some s'" "run_events sp srv evs s' = Some s1"
    and ev: "answers ev" by (auto split: option.splits)
  have step: "conn_step sp srv s (e, ev) s'" by (rule handler_step[OF d(1)])
  note inv = conn_inv_step[OF Cons.prems(1) step]
  have size: "itsMaxRequestSize s' = itsMaxRequestSize s"
    using step_evolves[OF step] by (auto simp: evolves_def same_settings_def)
  have "\<not> turned b t s"
  proof
    assume "turned b t s"
    then have "ops s = [Pending_read]" by (simp add: turned_def)
    moreover have "operation_of ev \<in> set (pending s)" "\<not> is_timer (operation_of ev)"
      using d(1) ev by (auto simp: dispatch_def split: if_splits) (cases ev; simp)
    ultimately have "operation_of ev = Pending_read"
      using conn_inv_single(1)[OF Cons.prems(1)] by fastforce
    with ev show False by (cases ev) simp_all
  qed
  then obtain g x ps where t: "ready b s" "others ps = ops s" "t = twin b g x ps s"
    using Cons.prems(2) by (auto simp: outcome_def simp del: set_others)
  from outcome_answers[OF Cons.prems(1) t(1,2) ev d(1), of g x] obtain t'
    where t': "dispatch sp srv e ev t = Some t'" "outcome b t' s'" by (auto simp: t(3))
  from Cons.IH[OF inv t'(2) _ d(2)] Cons.prems(3) t'(1) size show ?case by (auto simp: y)
qed simp

text \<open>Two states that differ in nothing but their timers.\<close>

definition same_but_timers :: "('q, 'p, 'h) conn \<Rightarrow> ('q, 'p, 'h) conn \<Rightarrow> bool" where
  "same_but_timers t s \<longleftrightarrow> ops t = ops s \<and>
     t = s\<lparr>itsTimerGeneration := itsTimerGeneration t, timerSeconds := timerSeconds t, pending := pending t\<rparr>"

lemma outcome_same: "outcome [] t s \<Longrightarrow> same_but_timers t s"
  by (auto simp: outcome_def same_but_timers_def twin_def simp del: set_others)

subsection \<open>From one read to the next\<close>

text \<open>A request that is complete, and the bytes the client has sent behind it.\<close>

definition parses_alone :: "('q, 'p, 'h) spine \<Rightarrow> string \<Rightarrow> string \<Rightarrow> bool" where
  "parses_alone sp r b \<longleftrightarrow>
     pr_status (parseOneRequest sp r) = COMPLETE \<and> pr_consumed (parseOneRequest sp r) = length r \<and>
     parseOneRequest sp (r @ b) = parseOneRequest sp r"

lemma receive_ahead:
  assumes "parses_alone sp (itsBuffer s @ r) b" "ops s = []" "\<not> itsIdle s"
    and "itsMaxRequestSize s = 0 \<or> itsReceivedBytes s + length (r @ b) \<le> itsMaxRequestSize s"
  shows "outcome b (receive sp e srv (r @ b) s) (receive sp e srv r s)"
proof -
  let ?v = "s\<lparr>itsRequest := pr_request (parseOneRequest sp (itsBuffer s @ r)), itsBuffer := [], itsReceivedBytes := 0\<rparr>"
  have "receive sp e srv r s = handleParsedRequest sp e srv ?v"
    using assms(1,4) by (auto simp: receive_def parses_alone_def Let_def)
  moreover have "receive sp e srv (r @ b) s =
      handleParsedRequest sp e srv (twin b (itsTimerGeneration s) (timerSeconds s) (pending s) ?v)"
    using assms(1,4) by (auto simp: receive_def parses_alone_def Let_def twin_def)
  moreover have "ready b ?v" using assms(3) by (simp add: ready_def)
  ultimately show ?thesis using assms(2) outcome_handleParsedRequest[of b ?v] by simp
qed

lemma read_fields [simp]:
  "itsBuffer (armTimer n s) = itsBuffer s" "itsReceivedBytes (armTimer n s) = itsReceivedBytes s"
  "itsMaxRequestSize (armTimer n s) = itsMaxRequestSize s"
  "itsBuffer (complete p s) = itsBuffer s" "itsReceivedBytes (complete p s) = itsReceivedBytes s"
  "itsMaxRequestSize (complete p s) = itsMaxRequestSize s"
  by (simp_all add: armTimer_def add_pending_def complete_def Let_def)

lemma read_ahead:
  assumes inv: "conn_inv sp s" "Pending_read \<in> set (pending s)" and "\<not> env_shutdown e"
    and "parses_alone sp (itsBuffer s @ r) b"
    and "itsMaxRequestSize s = 0 \<or> itsReceivedBytes s + length (r @ b) \<le> itsMaxRequestSize s"
  shows "outcome b (handleRead sp e srv Success (r @ b) (complete Pending_read s))
    (handleRead sp e srv Success r (complete Pending_read s))"
proof -
  have "ops (complete Pending_read s) = []"
    using conn_inv_single(3)[OF inv] by (simp add: complete_def)
  with assms(3-5) show ?thesis
    by (auto simp: handleRead_def Let_def intro!: receive_ahead)
qed

text \<open>The bytes come from the buffer or from the socket.\<close>

lemma receive_same:
  fixes s t :: "('q, 'p, 'h) conn"
  assumes same: "s\<lparr>itsReceivedBytes := itsReceivedBytes s + length xs, itsBuffer := itsBuffer s @ xs\<rparr> =
      t\<lparr>itsReceivedBytes := itsReceivedBytes t + length ys, itsBuffer := itsBuffer t @ ys\<rparr>"
    and "itsMaxRequestSize s = 0 \<or> itsReceivedBytes s + length xs \<le> itsMaxRequestSize s"
  shows "receive sp e srv xs s = receive sp e srv ys t"
proof -
  define u where "u = t\<lparr>itsReceivedBytes := itsReceivedBytes t + length ys, itsBuffer := itsBuffer t @ ys\<rparr>"
  have s: "s\<lparr>itsReceivedBytes := itsReceivedBytes s + length xs\<rparr>\<lparr>itsBuffer := itsBuffer s @ xs\<rparr> = u"
    and t: "t\<lparr>itsReceivedBytes := itsReceivedBytes t + length ys\<rparr>\<lparr>itsBuffer := itsBuffer t @ ys\<rparr> = u"
    using same by (simp_all add: u_def)
  have fields: "itsMaxRequestSize s = itsMaxRequestSize u" "itsReceivedBytes s + length xs = itsReceivedBytes u"
    "itsMaxRequestSize t = itsMaxRequestSize u" "itsReceivedBytes t + length ys = itsReceivedBytes u"
    by (simp add: s[symmetric], simp add: s[symmetric], simp_all add: u_def)
  have "receive sp e srv bytes v = receive sp e srv [] w"
    if "v\<lparr>itsReceivedBytes := itsReceivedBytes v + length bytes\<rparr>\<lparr>itsBuffer := itsBuffer v @ bytes\<rparr> = w"
      "itsMaxRequestSize v = 0 \<or> itsReceivedBytes v + length bytes \<le> itsMaxRequestSize v"
    for v w :: "('q, 'p, 'h) conn" and bytes
    using that by (auto simp: receive_def Let_def)
  from this[OF s] this[OF t] assms(2) fields show ?thesis by simp
qed

lemma turned_posted:
  assumes "turned b t s" shows "Pending_posted \<in> set (pending t)"
proof -
  obtain g x ps where "others ps = [Pending_posted]" "t = twin b g x ps (s\<lparr>itsIdle := False\<rparr>)"
    using assms by (auto simp: turned_def)
  then have "Pending_posted \<in> set (others (pending t))" by (simp del: set_others)
  then show ?thesis by simp
qed

lemma turned_read:
  assumes "turned b t s" "\<not> lockHeld s" "\<not> env_shutdown e"
    and "itsMaxRequestSize s = 0 \<or> length b \<le> itsMaxRequestSize s"
  shows "outcome [] (handleRead sp e srv Success [] (complete Pending_posted t))
    (handleRead sp e srv Success b (complete Pending_read s))"
proof -
  obtain g x ps where ps: "others ps = [Pending_posted]" and t: "t = twin b g x ps (s\<lparr>itsIdle := False\<rparr>)"
    and s: "itsBuffer s = []" "itsReceivedBytes s = 0" "itsIdle s" "ops s = [Pending_read]"
    using assms(1) by (auto simp: turned_def simp del: set_others)
  define s0 where "s0 = (complete Pending_read s)\<lparr>itsFinalStatus := Success, itsIdle := False\<rparr>"
  define s1 where "s1 = (if hasTimedOut s then s0 else armTimer (itsTimeout s) s0)"
  define qs where "qs = remove1 Pending_posted ps"
  have "handleRead sp e srv Success b (complete Pending_read s) = receive sp e srv b s1"
    using assms(3) s(3) by (simp add: handleRead_def Let_def s1_def s0_def complete_def)
  moreover have "handleRead sp e srv Success [] (complete Pending_posted t) = receive sp e srv [] (twin b g x qs s0)"
    using assms(3) by (simp add: handleRead_def Let_def t s0_def qs_def) (simp add: complete_def twin_def)
  moreover have "receive sp e srv [] (twin b g x qs s0) = receive sp e srv b (twin [] g x qs s0)"
  proof (rule receive_same)
    have "itsBuffer s0 = []" "itsReceivedBytes s0 = 0" "itsMaxRequestSize s0 = itsMaxRequestSize s"
      using s(1,2) by (simp_all add: s0_def)
    with assms(4) show "(twin b g x qs s0)\<lparr>itsReceivedBytes := itsReceivedBytes (twin b g x qs s0) + length [],
        itsBuffer := itsBuffer (twin b g x qs s0) @ []\<rparr> =
      (twin [] g x qs s0)\<lparr>itsReceivedBytes := itsReceivedBytes (twin [] g x qs s0) + length b,
        itsBuffer := itsBuffer (twin [] g x qs s0) @ b\<rparr>"
      "itsMaxRequestSize (twin b g x qs s0) = 0 \<or>
        itsReceivedBytes (twin b g x qs s0) + length [] \<le> itsMaxRequestSize (twin b g x qs s0)"
      by (simp_all add: twin_def)
  qed
  moreover have "twin [] g x qs s0 = twin [] g x qs s1"
    using assms(2) by (simp add: s1_def s0_def twin_def armTimer_def add_pending_def complete_def Let_def)
  moreover have "ops s1 = []" "others qs = []"
    using s(4) ps by (simp_all add: s1_def s0_def complete_def qs_def others_remove1)
  ultimately show ?thesis using outcome_receive[of s1 qs] by simp
qed

subsection \<open>Any number of requests\<close>

lemma outcome_trans:
  assumes "outcome [] u v" "outcome b v w" shows "outcome b u w"
proof -
  obtain g x ps where u: "others ps = ops v" "u = twin [] g x ps v"
    using assms(1) by (auto simp: outcome_def simp del: set_others)
  have twice: "u = twin b g x ps z" if "v = twin b g' x' ps' z" for z g' x' ps'
    using that u(2) by (simp add: twin_def)
  consider g' x' ps' where "ready b w" "b \<noteq> [] \<longrightarrow> Pending_read \<notin> set (ops w)" "others ps' = ops w"
      "v = twin b g' x' ps' w"
    | "b \<noteq> []" "turned b v w"
    using assms(2) by (auto simp: outcome_def simp del: set_others)
  then show ?thesis
  proof cases
    case 1
    then have "u = twin b g x ps w" "others ps = ops w" using u(1) twice[OF 1(4)] by simp_all
    with 1(1,2) show ?thesis unfolding outcome_def by blast
  next
    case 2
    then obtain g' x' ps' where v: "others ps' = [Pending_posted]"
      "v = twin b g' x' ps' (w\<lparr>itsIdle := False\<rparr>)"
      by (auto simp: turned_def simp del: set_others)
    then have "others ps = [Pending_posted]" "u = twin b g x ps (w\<lparr>itsIdle := False\<rparr>)"
      using u(1) twice[OF v(2)] by simp_all
    with 2 have "turned b u w" by (auto simp: turned_def simp del: set_others)
    with 2(1) show ?thesis by (simp add: outcome_def)
  qed
qed

lemma outcome_refl: "outcome [] s s"
proof -
  have "s = twin [] (itsTimerGeneration s) (timerSeconds s) (pending s) s" by (simp add: twin_def)
  then show ?thesis unfolding outcome_def using ready_none by blast
qed

text \<open>An exchange is a request with what the reading handler and the answering ones are given.\<close>

type_synonym ('q, 'p, 'h) exchange = "('q, 'p, 'h) env \<times> string \<times> (('q, 'p, 'h) env \<times> 'h event) list"

abbreviation requests_of :: "('q, 'p, 'h) exchange list \<Rightarrow> string list" where
  "requests_of xs \<equiv> map (\<lambda>(e, r, evs). r) xs"

fun waiting_events :: "('q, 'p, 'h) exchange list \<Rightarrow> (('q, 'p, 'h) env \<times> 'h event) list" where
  "waiting_events [] = []"
| "waiting_events ((e, r, evs) # xs) = (e, Read_done Success r) # evs @ waiting_events xs"

fun buffered_events :: "('q, 'p, 'h) exchange list \<Rightarrow> (('q, 'p, 'h) env \<times> 'h event) list" where
  "buffered_events [] = []"
| "buffered_events ((e, r, evs) # xs) = (e, Posted_run) # evs @ buffered_events xs"

fun pipelined_events :: "('q, 'p, 'h) exchange list \<Rightarrow> (('q, 'p, 'h) env \<times> 'h event) list" where
  "pipelined_events [] = []"
| "pipelined_events ((e, r, evs) # xs) =
     (e, Read_done Success (concat (r # requests_of xs))) # evs @ buffered_events xs"

fun parse_each :: "('q, 'p, 'h) spine \<Rightarrow> string \<Rightarrow> string list \<Rightarrow> bool" where
  "parse_each sp pre [] = True"
| "parse_each sp pre (r # rs) =
     ((rs \<noteq> [] \<longrightarrow> parses_alone sp (pre @ r) (concat rs)) \<and> parse_each sp [] rs)"

definition exchange_ok :: "('q, 'p, 'h) exchange \<Rightarrow> bool" where
  "exchange_ok = (\<lambda>(e, r, evs). \<not> env_shutdown e \<and> list_all (\<lambda>(e, ev). answers ev) evs)"

text \<open>One exchange: the request is read with what is behind it, and answered.\<close>

lemma exchange_ahead:
  assumes inv: "conn_inv sp s" "Pending_read \<in> set (pending s)" and "exchange_ok (e, r, evs)"
    and "b \<noteq> [] \<longrightarrow> parses_alone sp (itsBuffer s @ r) b"
    and "itsMaxRequestSize s = 0 \<or> itsReceivedBytes s + length (r @ b) \<le> itsMaxRequestSize s"
    and "outcome [] u (handleRead sp e srv Success (r @ b) (complete Pending_read s))"
    and "run_events sp srv ((e, Read_done Success r) # evs) s = Some s1"
  shows "\<exists>t1. run_events sp srv evs u = Some t1 \<and> outcome b t1 s1 \<and> conn_inv sp s1 \<and>
    itsMaxRequestSize s1 = itsMaxRequestSize s"
proof -
  let ?v = "handleRead sp e srv Success r (complete Pending_read s)"
  have d: "dispatch sp srv e (Read_done Success r) s = Some ?v" using inv(2) by (simp add: dispatch_def)
  note inv_v = conn_inv_step[OF inv(1) handler_step[OF d]]
  have size: "itsMaxRequestSize ?v = itsMaxRequestSize s"
    using step_evolves[OF handler_step[OF d]] by (auto simp: evolves_def same_settings_def)
  have "outcome b (handleRead sp e srv Success (r @ b) (complete Pending_read s)) ?v"
  proof (cases "b = []")
    case True
    then show ?thesis by (simp add: outcome_refl)
  next
    case False
    with assms(3,4,5) show ?thesis by (auto simp: exchange_ok_def intro!: read_ahead[OF inv])
  qed
  from outcome_run[OF inv_v outcome_trans[OF assms(6) this], of evs srv s1] assms(3,7) d size
  show ?thesis by (auto simp: exchange_ok_def)
qed

lemma buffered_run:
  assumes "conn_inv sp s" "outcome (concat (requests_of xs)) t s" "list_all exchange_ok xs"
    and "parse_each sp [] (requests_of xs)" "[] \<notin> set (requests_of xs)"
    and "itsMaxRequestSize s = 0 \<or> length (concat (requests_of xs)) \<le> itsMaxRequestSize s"
    and "run_events sp srv (waiting_events xs) s = Some s1"
  shows "\<exists>t1. run_events sp srv (buffered_events xs) t = Some t1 \<and> outcome [] t1 s1"
  using assms
proof (induction xs arbitrary: s t)
  case (Cons x xs)
  obtain e r evs where x: "x = (e, r, evs)" by (cases x)
  let ?b = "concat (requests_of xs)"
  obtain s' where run: "run_events sp srv ((e, Read_done Success r) # evs) s = Some s'"
    "run_events sp srv (waiting_events xs) s' = Some s1"
    using Cons.prems(7) by (auto simp: x run_events_append split: option.splits)
  have ok: "exchange_ok (e, r, evs)" "list_all exchange_ok xs" using Cons.prems(3) by (simp_all add: x)
  have read: "Pending_read \<in> set (pending s)" using run(1) by (auto simp: dispatch_def split: if_splits)
  with Cons.prems(2,5) have turned: "turned (r @ ?b) t s" by (auto simp: outcome_def x)
  then have buf: "itsBuffer s = []" "itsReceivedBytes s = 0" by (auto simp: turned_def)
  have "\<not> lockHeld s" using Cons.prems(1) by (simp add: conn_inv_def base_inv_def)
  moreover have limit: "itsMaxRequestSize s = 0 \<or> length (r @ ?b) \<le> itsMaxRequestSize s"
    using Cons.prems(6) by (simp add: x)
  ultimately have u: "outcome [] (handleRead sp e srv Success [] (complete Pending_posted t))
      (handleRead sp e srv Success (r @ ?b) (complete Pending_read s))"
    using turned_read[OF turned] ok(1) by (simp add: exchange_ok_def)
  have "?b \<noteq> [] \<longrightarrow> parses_alone sp (itsBuffer s @ r) ?b"
    using Cons.prems(4) buf by (auto simp: x)
  from exchange_ahead[OF Cons.prems(1) read ok(1) this _ u run(1)] limit buf obtain t' where
    t': "run_events sp srv evs (handleRead sp e srv Success [] (complete Pending_posted t)) = Some t'"
      "outcome ?b t' s'" "conn_inv sp s'" "itsMaxRequestSize s' = itsMaxRequestSize s" by auto
  have "itsMaxRequestSize s' = 0 \<or> length ?b \<le> itsMaxRequestSize s'" using limit t'(4) by auto
  from Cons.IH[OF t'(3,2) ok(2) _ _ this run(2)] Cons.prems(4,5) obtain t1 where
    "run_events sp srv (buffered_events xs) t' = Some t1" "outcome [] t1 s1" by (auto simp: x)
  with t'(1) turned_posted[OF turned] show ?case by (auto simp: x run_events_append dispatch_def)
qed simp

text \<open>C1. A client may send its next requests without waiting for any answer: let a connection read
  a request, answer it in any number of steps, read the next one, and so on, for any number
  of requests. The same connection that finds all of them in its first read takes the same
  steps, goes on from its buffer instead of a read after each answer, and ends in the same
  state but for its timers: what it has sent, in the order of the requests, the calls of the
  plugins and hooks, the log and what it waits for are the same. The requests together may not
  exceed the limit on the size of one, the parser's answer may not depend on what follows a
  complete request, and the server is not shutting down when one is read.\<close>

theorem pipelining_is_transparent:
  assumes "reachable sp srv s" "Pending_read \<in> set (pending s)" "xs \<noteq> []" "list_all exchange_ok xs"
    and "parse_each sp (itsBuffer s) (requests_of xs)" "[] \<notin> set (requests_of (tl xs))"
    and "itsMaxRequestSize s = 0 \<or>
      itsReceivedBytes s + length (concat (requests_of xs)) \<le> itsMaxRequestSize s"
    and "run_events sp srv (waiting_events xs) s = Some t"
  shows "\<exists>t'. run_events sp srv (pipelined_events xs) s = Some t' \<and> same_but_timers t' t"
proof -
  note inv = connection.inv_reach[OF assms(1)]
  obtain e r evs ys where x: "xs = (e, r, evs) # ys" using assms(3) by (cases xs) auto
  let ?b = "concat (requests_of ys)"
  let ?u = "handleRead sp e srv Success (r @ ?b) (complete Pending_read s)"
  obtain s' where run: "run_events sp srv ((e, Read_done Success r) # evs) s = Some s'"
    "run_events sp srv (waiting_events ys) s' = Some t"
    using assms(8) by (auto simp: x run_events_append split: option.splits)
  have ok: "exchange_ok (e, r, evs)" "list_all exchange_ok ys" using assms(4) by (simp_all add: x)
  have "?b \<noteq> [] \<longrightarrow> parses_alone sp (itsBuffer s @ r) ?b" using assms(5) by (auto simp: x)
  from exchange_ahead[OF inv assms(2) ok(1) this _ outcome_refl run(1)] assms(7) obtain t' where
    t': "run_events sp srv evs ?u = Some t'" "outcome ?b t' s'" "conn_inv sp s'"
      "itsMaxRequestSize s' = itsMaxRequestSize s" by (auto simp: x)
  have "itsMaxRequestSize s' = 0 \<or> length ?b \<le> itsMaxRequestSize s'" using assms(7) t'(4) by (auto simp: x)
  from buffered_run[OF t'(3,2) ok(2) _ _ this run(2)] assms(5,6) obtain t1 where
    "run_events sp srv (buffered_events ys) t' = Some t1" "outcome [] t1 t" by (auto simp: x)
  with t'(1) assms(2) show ?thesis by (auto simp: x run_events_append dispatch_def intro!: outcome_same)
qed

end
