(* ===== verification/Server_Rules.thy ===== *)
theory Server_Rules
  imports Conn_Request
begin

text \<open>
  What the constructor of the server makes of the configuration, and what a request inherits
  from it.
\<close>

subsection \<open>Settings\<close>

text \<open>The settings of a server that has started, as a composition of what the constructor reads.\<close>

definition configured ::
  "('q, 'p, 'h) spine \<Rightarrow> options \<Rightarrow> config \<Rightarrow> u64 option \<Rightarrow> string \<Rightarrow> server" where
  "configured sp opts cfg rlim_cur password =
     read_trusted_proxies cfg
       (read_plugins sp (case cf_plugins cfg of None \<Rightarrow> [] | Some gs \<Rightarrow> gs)
         (read_limits cfg (read_keepalive cfg (read_memory_log cfg
           ((initial_server opts rlim_cur)\<lparr>srv_encryptionPassword := password\<rparr>)))))"

lemma construct_server_configured:
  assumes "construct_server sp opts cfg rlim_cur pw_file tls bind = Inr (opts', srv)"
  obtains password bound where "srv = configured sp opts cfg rlim_cur password"
    "bind (op_port opts) = Some bound"
    "op_port opts' = (if op_port opts = 0 then bound else op_port opts)"
proof -
  have "(initial_server opts rlim_cur)\<lparr>srv_encryptionPassword := op_encryptionPassword opts\<rparr> =
      initial_server opts rlim_cur" by (simp add: initial_server_def)
  with assms that[of "op_encryptionPassword opts"] that show thesis
    unfolding construct_server_def configured_def Let_def
    by (auto split: if_splits sum.splits option.splits)
qed

lemma read_plugins_fields:
  "srv_keepAliveTimeout (read_plugins sp gs srv) = srv_keepAliveTimeout srv \<and>
   srv_connectionCount (read_plugins sp gs srv) = srv_connectionCount srv \<and>
   srv_shutdownRequested (read_plugins sp gs srv) = srv_shutdownRequested srv \<and>
   srv_memoryLogArmed (read_plugins sp gs srv) = srv_memoryLogArmed srv \<and>
   srv_memoryLogPeriod (read_plugins sp gs srv) = srv_memoryLogPeriod srv \<and>
   srv_maxConnections (read_plugins sp gs srv) = srv_maxConnections srv \<and>
   srv_maxHeaderSize (read_plugins sp gs srv) = srv_maxHeaderSize srv"
  by (induction gs arbitrary: srv) (simp_all add: read_plugin_def Let_def split: option.split)

lemma read_limits_fields:
  fixes opts cfg rlim_cur password
  defines "l \<equiv> read_limits cfg (read_keepalive cfg (read_memory_log cfg
    ((initial_server opts rlim_cur)\<lparr>srv_encryptionPassword := password\<rparr>)))"
  shows "srv_pluginRequestTimeouts l = Map.empty" "srv_pluginCancelOnDisconnect l = Map.empty"
    "srv_requestTimeout l = (case cf_request_timeout cfg of Some n \<Rightarrow> nat n | None \<Rightarrow> 0)"
    "srv_cancelOnDisconnect l = (case cf_cancel_on_disconnect cfg of Some b \<Rightarrow> b | None \<Rightarrow> False)"
proof -
  define k where "k = read_keepalive cfg (read_memory_log cfg
    ((initial_server opts rlim_cur)\<lparr>srv_encryptionPassword := password\<rparr>))"
  have k: "srv_pluginRequestTimeouts k = Map.empty" "srv_pluginCancelOnDisconnect k = Map.empty"
    "srv_requestTimeout k = 0" "\<not> srv_cancelOnDisconnect k"
    unfolding k_def
    by (simp_all add: read_keepalive_def read_memory_log_def scheduleMemoryLogging_def
        initial_server_def Let_def split: option.split)
  then show "srv_pluginRequestTimeouts l = Map.empty" "srv_pluginCancelOnDisconnect l = Map.empty"
    "srv_requestTimeout l = (case cf_request_timeout cfg of Some n \<Rightarrow> nat n | None \<Rightarrow> 0)"
    "srv_cancelOnDisconnect l = (case cf_cancel_on_disconnect cfg of Some b \<Rightarrow> b | None \<Rightarrow> False)"
    unfolding l_def k_def[symmetric] by (simp_all add: read_limits_def Let_def split: option.split)
qed

lemmas read_defs = read_memory_log_def read_keepalive_def read_limits_def read_trusted_proxies_def
  scheduleMemoryLogging_def initial_server_def Let_def

text \<open>C35. A server that has started has usable settings, whatever the configuration file holds: a
  positive keep-alive time, no connection counted and no shutdown requested, the memory log
  armed exactly when it has a period, a port that is not zero if binding found one, and for
  the connection cap a negative setting is as none.\<close>

theorem started_server_settings:
  assumes "construct_server sp opts cfg rlim_cur pw_file tls bind = Inr (opts', srv)"
    and "\<forall>port bound. bind port = Some bound \<longrightarrow> bound \<noteq> 0"
  shows "0 < getKeepAliveTimeout srv \<and> srv_connectionCount srv = 0 \<and> \<not> isShutdownRequested srv \<and>
    (srv_memoryLogArmed srv \<longleftrightarrow> 0 < srv_memoryLogPeriod srv) \<and> op_port opts' \<noteq> 0 \<and>
    getMaxConnections srv = (case cf_maxconnections cfg of
        Some n \<Rightarrow> if 0 \<le> n then word_of_int n else defaultMaxConnections rlim_cur
      | None \<Rightarrow> defaultMaxConnections rlim_cur)"
proof -
  obtain password bound where srv: "srv = configured sp opts cfg rlim_cur password"
    and bound: "bind (op_port opts) = Some bound"
      "op_port opts' = (if op_port opts = 0 then bound else op_port opts)"
    by (rule construct_server_configured[OF assms(1)])
  define m where "m = read_memory_log cfg ((initial_server opts rlim_cur)\<lparr>srv_encryptionPassword := password\<rparr>)"
  have m: "srv_keepAliveTimeout m = 30" "srv_connectionCount m = 0" "\<not> srv_shutdownRequested m"
    "srv_memoryLogArmed m \<longleftrightarrow> 0 < srv_memoryLogPeriod m"
    "srv_maxConnections m = defaultMaxConnections rlim_cur"
    unfolding m_def by (simp_all add: read_defs split: option.split)
  define k where "k = read_keepalive cfg m"
  have k: "0 < srv_keepAliveTimeout k" "srv_connectionCount k = 0" "\<not> srv_shutdownRequested k"
    "srv_memoryLogArmed k \<longleftrightarrow> 0 < srv_memoryLogPeriod k"
    "srv_maxConnections k = defaultMaxConnections rlim_cur"
    using m unfolding k_def by (simp_all add: read_keepalive_def Let_def split: option.split)
  have l: "0 < srv_keepAliveTimeout (read_limits cfg k)" "srv_connectionCount (read_limits cfg k) = 0"
    "\<not> srv_shutdownRequested (read_limits cfg k)"
    "srv_memoryLogArmed (read_limits cfg k) \<longleftrightarrow> 0 < srv_memoryLogPeriod (read_limits cfg k)"
    "srv_maxConnections (read_limits cfg k) = (case cf_maxconnections cfg of
        Some n \<Rightarrow> if 0 \<le> n then word_of_int n else defaultMaxConnections rlim_cur
      | None \<Rightarrow> defaultMaxConnections rlim_cur)"
    using k by (simp_all add: read_limits_def Let_def split: option.split)
  show ?thesis
    using l assms(2) bound read_plugins_fields[of sp _ "read_limits cfg k"]
    by (simp add: srv configured_def read_trusted_proxies_def getKeepAliveTimeout_def
        isShutdownRequested_def getMaxConnections_def flip: m_def k_def)
qed

subsection \<open>The connection cap\<close>

text \<open>The default connection cap is three quarters of the limit on open files, at least 64, as long
  as three times the limit fits in 64 bits; so at least a quarter of the descriptors is left
  to everything else, except below 86 of them.\<close>

theorem default_cap_leaves_descriptors:
  assumes "unat cur * 3 < 2 ^ 64" "cur \<noteq> RLIM_INFINITY"
  shows "unat (defaultMaxConnections (Some cur)) = max (unat cur * 3 div 4) 64 \<and>
    (86 \<le> unat cur \<longrightarrow>
      unat (defaultMaxConnections (Some cur)) + unat cur div 4 \<le> unat cur)"
proof -
  have m: "unat (cur * 3) = unat cur * 3"
    using assms(1) unat_mult_lem[of cur "3 :: u64"] by simp
  have "unat (max (cur * 3 div 4) (64 :: u64)) = max (unat cur * 3 div 4) 64"
    by (simp add: max_def word_le_nat_alt unat_div m)
  then show ?thesis using assms(2) by (auto simp: defaultMaxConnections_def)
qed

subsection \<open>Limits of a request\<close>

text \<open>The settings of the groups that name a plugin, in the order of the configuration file.\<close>

definition plugin_timeouts ::
  "('q, 'p, 'h) spine \<Rightarrow> string \<Rightarrow> plugin_group list \<Rightarrow> nat list" where
  "plugin_timeouts sp name gs =
     [nat t. g \<leftarrow> gs, pg_isGroup g,
             ascii_tolower_copy sp (pg_name g) = ascii_tolower_copy sp name,
             Some t \<leftarrow> [pg_request_timeout g], t \<ge> 0]"

definition plugin_cancels ::
  "('q, 'p, 'h) spine \<Rightarrow> string \<Rightarrow> plugin_group list \<Rightarrow> bool list" where
  "plugin_cancels sp name gs =
     [b. g \<leftarrow> gs, pg_isGroup g,
         ascii_tolower_copy sp (pg_name g) = ascii_tolower_copy sp name,
         Some b \<leftarrow> [pg_cancel_on_disconnect g]]"

lemma matching_timeouts:
  fixes sp :: "('q, 'p, 'h) spine"
  shows "request_timeouts.matching TYPE('q) TYPE('p) TYPE('h) sp name gs = plugin_timeouts sp name gs"
  unfolding request_timeouts.matching_def plugin_timeouts_def
  by (induction gs) (auto simp: group_timeout_def split: option.split)

lemma matching_cancels:
  fixes sp :: "('q, 'p, 'h) spine"
  shows "disconnect_flags.matching TYPE('q) TYPE('p) TYPE('h) sp name gs = plugin_cancels sp name gs"
  unfolding disconnect_flags.matching_def plugin_cancels_def
  by (induction gs) (auto simp: group_cancel_def split: option.split)

text \<open>C33. The limits a running server puts on a request: administrative requests and those of the
  frontend have no deadline; any other has the \<open>request_timeout\<close> of the last group that names
  its plugin, else the server's own, none if that is zero or negative; and the token probes for
  a closed connection as the last \<open>cancel_on_disconnect\<close> says. Plugin names are compared
  without case.\<close>

theorem request_limits_configured:
  assumes "construct_server sp opts cfg rlim_cur pw_file tls bind = Inr (opts', srv)"
    and "cf_plugins cfg = Some gs"
  shows "let token = createCancellationToken sp srv h s; name = hv_getPluginName sp h;
      server_timeout = (case cf_request_timeout cfg of Some n \<Rightarrow> nat n | None \<Rightarrow> 0);
      server_cancel = (case cf_cancel_on_disconnect cfg of Some b \<Rightarrow> b | None \<Rightarrow> False);
      timeout = last (server_timeout # plugin_timeouts sp name gs) in
    ct_deadline token =
      (if itsAdminQuery s \<or> hv_isCatchNoMatch sp h \<or> timeout = 0 then None else Some timeout) \<and>
    ct_probe token = last (server_cancel # plugin_cancels sp name gs)"
proof -
  obtain password bound where srv: "srv = configured sp opts cfg rlim_cur password"
    by (rule construct_server_configured[OF assms(1)])
  define l where "l = read_limits cfg (read_keepalive cfg (read_memory_log cfg
    ((initial_server opts rlim_cur)\<lparr>srv_encryptionPassword := password\<rparr>)))"
  have l: "getRequestTimeout sp l name = (case cf_request_timeout cfg of Some n \<Rightarrow> nat n | None \<Rightarrow> 0)"
    "getCancelOnDisconnect sp l name = (case cf_cancel_on_disconnect cfg of Some b \<Rightarrow> b | None \<Rightarrow> False)"
    for name
    unfolding l_def
    by (simp_all add: getRequestTimeout_def getCancelOnDisconnect_def read_limits_fields)
  have "getRequestTimeout sp srv = getRequestTimeout sp (read_plugins sp gs l)"
    "getCancelOnDisconnect sp srv = getCancelOnDisconnect sp (read_plugins sp gs l)"
    by (simp_all add: fun_eq_iff srv configured_def assms(2) read_trusted_proxies_def
        getRequestTimeout_def getCancelOnDisconnect_def flip: l_def split: option.split)
  then show ?thesis
    by (simp add: createCancellationToken_def Let_def request_timeouts.get_load
        disconnect_flags.get_load matching_timeouts matching_cancels l)
qed

subsection \<open>The Date header\<close>

text \<open>The Date header has the fixed length of the format of RFC 9110 5.6.7 for every reading of the
  clock.\<close>

theorem date_has_fixed_length:
  assumes "valid_clock u"
  shows "length (makeDateString u) = 29"
  using assms
  by (simp add: makeDateString_def valid_clock_def length_weekday length_month length_pad2
      length_decimal_4)

end
