(* ===== verification/AsyncServer.thy ===== *)
theory AsyncServer
  imports Conn_Properties
begin

text \<open>
  The accept loop of \<^verbatim>\<open>source/AsyncServer.cpp\<close> and the connections it makes: a server accepts
  one connection at a time into \<open>itsNewConnection\<close>, starts it or refuses it at the
  connection limit, and goes back to accepting. Connections run, in any order, as
  \<open>Conn_System\<close> says, and are destroyed when nothing refers to them any more.
\<close>

subsection \<open>The accept loop\<close>

text \<open>
  \<open>connections\<close> are all the connections ever made, in order, and \<open>itsNewConnection\<close> is an
  index into it. \<open>limitLines\<close> counts the log lines about the connection limit, \<open>accepting\<close>
  says whether an \<^verbatim>\<open>async_accept\<close> is pending.
\<close>

record ('q, 'p, 'h) async_server =
  as_server :: server
  connections :: "('q, 'p, 'h) conn list"
  itsNewConnection :: "nat option"
  accepting :: bool
  itsConnectionLimitReported :: bool
  limitLines :: nat

definition as_connectionCount :: "('q, 'p, 'h) async_server \<Rightarrow> u64" where
  "as_connectionCount a = srv_connectionCount (as_server a)"

definition set_connectionCount ::
  "u64 \<Rightarrow> ('q, 'p, 'h) async_server \<Rightarrow> ('q, 'p, 'h) async_server" where
  "set_connectionCount count a = a\<lparr>as_server := (as_server a)\<lparr>srv_connectionCount := count\<rparr>\<rparr>"

definition startAccept ::
  "('q, 'p, 'h) spine \<Rightarrow> ('q, 'p, 'h) async_server \<Rightarrow> ('q, 'p, 'h) async_server" where
  "startAccept sp a =
     (if isShutdownRequested (as_server a) then a
      else a\<lparr>connections := connections a @ [new_connection sp (as_server a)],
             itsNewConnection := Some (length (connections a)),
             accepting := True\<rparr>)"

definition construct_AsyncServer ::
  "('q, 'p, 'h) spine \<Rightarrow> server \<Rightarrow> ('q, 'p, 'h) async_server" where
  "construct_AsyncServer sp srv =
     startAccept sp \<lparr>as_server = srv, connections = [], itsNewConnection = None, accepting = False,
       itsConnectionLimitReported = False, limitLines = 0\<rparr>"

definition handleAccept ::
  "('q, 'p, 'h) spine \<Rightarrow> ('q, 'p, 'h) env \<Rightarrow> error_code \<Rightarrow> ('q, 'p, 'h) async_server \<Rightarrow>
   ('q, 'p, 'h) async_server" where
  "handleAccept sp e err a =
     (if isShutdownRequested (as_server a) then a
      else
        (let a = (if err = Success then
             (case itsNewConnection a of
                None \<Rightarrow> a
              | Some i \<Rightarrow>
                  if getMaxConnections (as_server a) > 0 \<and>
                     as_connectionCount a \<ge> getMaxConnections (as_server a) then
                    (let a = (if \<not> itsConnectionLimitReported a
                              then a\<lparr>limitLines := limitLines a + 1\<rparr> else a);
                         a = a\<lparr>itsConnectionLimitReported := True\<rparr>
                     in a\<lparr>connections :=
                            (connections a)[i := rejectConnection sp e (connections a ! i)]\<rparr>)
                  else
                    (let a = a\<lparr>itsConnectionLimitReported := False\<rparr>;
                         (count, s) = start e (as_connectionCount a, connections a ! i)
                     in set_connectionCount count (a\<lparr>connections := (connections a)[i := s]\<rparr>)))
           else a)
         in startAccept sp a))"

subsection \<open>The system\<close>

datatype 'h server_event =
  Accept_done error_code
| Connection_event nat "'h event"
| Connection_released nat
| Shutdown_requested

text \<open>Nothing refers to a connection that is not the new one and has nothing pending.\<close>

definition unreferenced :: "nat \<Rightarrow> ('q, 'p, 'h) async_server \<Rightarrow> bool" where
  "unreferenced i a \<longleftrightarrow> itsNewConnection a \<noteq> Some i \<and> pending (connections a ! i) = []"

fun server_dispatch ::
  "('q, 'p, 'h) spine \<Rightarrow> ('q, 'p, 'h) env \<Rightarrow> 'h server_event \<Rightarrow> ('q, 'p, 'h) async_server \<Rightarrow>
   ('q, 'p, 'h) async_server option" where
  "server_dispatch sp e (Accept_done err) a =
     (if accepting a then Some (handleAccept sp e err (a\<lparr>accepting := False\<rparr>)) else None)"
| "server_dispatch sp e (Connection_event i ev) a =
     (if i < length (connections a) then
        (case dispatch sp (as_server a) e ev (connections a ! i) of
           None \<Rightarrow> None
         | Some s \<Rightarrow> Some (a\<lparr>connections := (connections a)[i := s]\<rparr>))
      else None)"
| "server_dispatch sp e (Connection_released i) a =
     (if i < length (connections a) \<and> unreferenced i a \<and> \<not> destroyed (connections a ! i) then
        (let (count, s) = destroy sp (isShutdownRequested (as_server a))
               (as_connectionCount a, connections a ! i)
         in Some (set_connectionCount count (a\<lparr>connections := (connections a)[i := s]\<rparr>)))
      else None)"
| "server_dispatch sp e Shutdown_requested a =
     Some (a\<lparr>as_server := (as_server a)\<lparr>srv_shutdownRequested := True\<rparr>\<rparr>)"

inductive server_step ::
  "('q, 'p, 'h) spine \<Rightarrow> ('q, 'p, 'h) async_server \<Rightarrow> ('q, 'p, 'h) env \<times> 'h server_event \<Rightarrow>
   ('q, 'p, 'h) async_server \<Rightarrow> bool" for sp where
  server_step: "server_dispatch sp e ev a = Some a' \<Longrightarrow> server_step sp a (e, ev) a'"

inductive_cases server_stepE: "server_step sp a x a'"

inductive server_start ::
  "('q, 'p, 'h) spine \<Rightarrow> ('q, 'p, 'h) async_server \<Rightarrow> bool" for sp where
  constructed: "srv_connectionCount srv = 0 \<Longrightarrow> server_start sp (construct_AsyncServer sp srv)"

subsection \<open>Counting connections\<close>

definition is_live :: "('q, 'p, 'h) conn \<Rightarrow> bool" where
  "is_live s \<longleftrightarrow> itsCounted s \<and> \<not> destroyed s"

definition live :: "('q, 'p, 'h) async_server \<Rightarrow> nat" where
  "live a = length (filter is_live (connections a))"

definition count_inv :: "('q, 'p, 'h) async_server \<Rightarrow> bool" where
  "count_inv a \<longleftrightarrow>
     as_connectionCount a = of_nat (live a) \<and>
     (getMaxConnections (as_server a) \<noteq> 0 \<longrightarrow> live a \<le> unat (getMaxConnections (as_server a))) \<and>
     (accepting a \<longrightarrow> (\<exists>i. itsNewConnection a = Some i \<and> i < length (connections a) \<and>
        \<not> itsCounted (connections a ! i) \<and> \<not> destroyed (connections a ! i)))"

lemma live_update:
  "i < length (connections a) \<Longrightarrow>
     live (a\<lparr>connections := (connections a)[i := s]\<rparr>) + (if is_live (connections a ! i) then 1 else 0) =
     live a + (if is_live s then 1 else 0)"
  unfolding live_def by (simp add: length_filter_update)

lemma live_same:
  "i < length (connections a) \<Longrightarrow> is_live s = is_live (connections a ! i) \<Longrightarrow>
     live (a\<lparr>connections := (connections a)[i := s]\<rparr>) = live a"
  using live_update[of i a s] by (auto split: if_splits)

lemma live_frame [simp, frame]:
  "live (a\<lparr>as_server := srv\<rparr>) = live a" "live (a\<lparr>itsNewConnection := n\<rparr>) = live a"
  "live (a\<lparr>accepting := b\<rparr>) = live a" "live (a\<lparr>itsConnectionLimitReported := b\<rparr>) = live a"
  "live (a\<lparr>limitLines := m\<rparr>) = live a" "live (set_connectionCount c a) = live a"
  by (simp_all add: live_def set_connectionCount_def)

lemma new_connection_uncounted [simp]:
  "\<not> itsCounted (new_connection sp srv)" "\<not> destroyed (new_connection sp srv)"
  by (simp_all add: new_connection_eq)

lemma startAccept_inv:
  assumes "as_connectionCount a = of_nat (live a)" "\<not> accepting a"
    and "getMaxConnections (as_server a) \<noteq> 0 \<longrightarrow> live a \<le> unat (getMaxConnections (as_server a))"
  shows "count_inv (startAccept sp a)"
proof -
  have "live (a\<lparr>connections := connections a @ [new_connection sp (as_server a)],
      itsNewConnection := n, accepting := b\<rparr>) = live a" for n b
    by (simp add: live_def is_live_def)
  then show ?thesis
    using assms by (auto simp: startAccept_def count_inv_def as_connectionCount_def)
qed

lemma start_counts:
  "start e (count, s) = (count', s') \<Longrightarrow> count' = count + 1 \<and> itsCounted s' \<and> destroyed s' = destroyed s"
  by (auto simp: start_def registerConnection_def armTimer_def add_pending_def startRead_def Let_def
      split: if_splits)

lemma rejectConnection_uncounted:
  "itsCounted (rejectConnection sp e s) = itsCounted s" "destroyed (rejectConnection sp e s) = destroyed s"
proof -
  have "evolves 0 0 s (rejectConnection sp e s)"
    unfolding rejectConnection_def by (intro evolves_sendStockReply evolves_version) simp_all
  then show "itsCounted (rejectConnection sp e s) = itsCounted s"
    "destroyed (rejectConnection sp e s) = destroyed s"
    by (simp_all add: evolves_def same_settings_def)
qed

lemma handleAccept_inv:
  assumes inv: "count_inv a" and acc: "accepting a"
  shows "count_inv (handleAccept sp e err (a\<lparr>accepting := False\<rparr>))"
proof -
  from inv acc obtain i where i: "itsNewConnection a = Some i" "i < length (connections a)"
    "\<not> itsCounted (connections a ! i)" "\<not> destroyed (connections a ! i)"
    by (auto simp: count_inv_def)
  have c: "as_connectionCount a = of_nat (live a)"
    and cap: "getMaxConnections (as_server a) \<noteq> 0 \<longrightarrow> live a \<le> unat (getMaxConnections (as_server a))"
    using inv by (auto simp: count_inv_def)
  have dead: "\<not> is_live (connections a ! i)" using i by (simp add: is_live_def)
  let ?a = "a\<lparr>accepting := False\<rparr>" and ?max = "getMaxConnections (as_server a)"
  show ?thesis
  proof (cases "isShutdownRequested (as_server a)")
    case True
    then show ?thesis using c cap by (simp add: handleAccept_def count_inv_def as_connectionCount_def)
  next
    case running: False
    consider "err \<noteq> Success" | "err = Success" "?max > 0 \<and> as_connectionCount a \<ge> ?max"
      | "err = Success" "\<not> (?max > 0 \<and> as_connectionCount a \<ge> ?max)" by blast
    then show ?thesis
    proof cases
      case 1
      with running c cap show ?thesis
        by (auto simp: handleAccept_def as_connectionCount_def intro!: startAccept_inv)
    next
      case 2
      let ?r = "rejectConnection sp e (connections a ! i)"
      have "live (a\<lparr>connections := (connections a)[i := ?r]\<rparr>) = live a"
        by (rule live_same) (use i rejectConnection_uncounted in \<open>auto simp: is_live_def\<close>)
      then have "live (a\<lparr>connections := (connections a)[i := ?r], accepting := False,
          itsConnectionLimitReported := b, limitLines := n\<rparr>) = live a" for b n
        by (simp add: live_def)
      with 2 running c cap i(1) show ?thesis
        by (auto simp: handleAccept_def as_connectionCount_def live_def intro!: startAccept_inv)
    next
      case 3
      obtain count s where st: "start e (as_connectionCount a, connections a ! i) = (count, s)" by force
      from start_counts[OF st] i have s: "count = as_connectionCount a + 1" "is_live s"
        by (auto simp: is_live_def)
      have "live (a\<lparr>connections := (connections a)[i := s]\<rparr>) = Suc (live a)"
        using live_update[OF i(2), of s] dead s(2) by simp
      then have l: "length (filter is_live ((connections a)[i := s])) = Suc (live a)"
        by (simp add: live_def)
      have "Suc (live a) \<le> unat ?max" if "?max \<noteq> 0"
      proof -
        have "as_connectionCount a < ?max"
          using 3 that by (auto simp: word_greater_zero_iff not_le)
        moreover have "unat (as_connectionCount a) = live a"
        proof -
          have "live a < 2 ^ 64"
            using cap that unsigned_less[of ?max, where 'a = nat] by simp
          then show ?thesis using c by (simp add: unsigned_of_nat take_bit_nat_eq_self)
        qed
        ultimately show ?thesis by (simp add: word_less_nat_alt)
      qed
      with 3 running c i(1) st s l show ?thesis
        by (auto simp: handleAccept_def Let_def as_connectionCount_def set_connectionCount_def live_def
            getMaxConnections_def intro!: startAccept_inv)
    qed
  qed
qed

lemma destroy_counts:
  "destroy sp b (count, s) = (count', s') \<Longrightarrow>
     count' = (if itsCounted s then count - 1 else count) \<and> destroyed s'"
  by (auto simp: destroy_def destruct_Connection_def destruct_AsyncConnection_def closeSocket_def
      split: if_splits)

lemma dispatch_keeps:
  assumes "dispatch sp srv e ev s = Some s'"
  shows "itsCounted s' = itsCounted s" "destroyed s' = destroyed s"
  using conn_step_evolves[of sp srv s e ev s'] assms
  by (auto simp: conn_step_iff evolves_def same_settings_def)

lemma count_inv_step:
  assumes inv: "count_inv a" and step: "server_step sp a x a'" shows "count_inv a'"
proof -
  obtain e ev where d: "server_dispatch sp e ev a = Some a'"
    using step by (auto elim: server_stepE)
  show ?thesis
  proof (cases ev)
    case (Accept_done err)
    with d inv handleAccept_inv show ?thesis by (auto split: if_splits)
  next
    case (Connection_event i cev)
    with d obtain s where i: "i < length (connections a)"
      and s: "dispatch sp (as_server a) e cev (connections a ! i) = Some s"
      and a': "a' = a\<lparr>connections := (connections a)[i := s]\<rparr>"
      by (auto split: if_splits option.splits)
    have "live a' = live a"
      unfolding a' by (rule live_same[OF i]) (simp add: is_live_def dispatch_keeps[OF s])
    then show ?thesis
      using inv dispatch_keeps[OF s] i
      by (auto simp: count_inv_def a' as_connectionCount_def nth_list_update)
  next
    case (Connection_released i)
    with d obtain count s where i: "i < length (connections a)" and u: "unreferenced i a"
      and nd: "\<not> destroyed (connections a ! i)"
      and st: "destroy sp (isShutdownRequested (as_server a)) (as_connectionCount a, connections a ! i) = (count, s)"
      and a': "a' = set_connectionCount count (a\<lparr>connections := (connections a)[i := s]\<rparr>)"
      by (auto split: if_splits prod.splits)
    from destroy_counts[OF st] have c: "\<not> is_live s"
      "count = (if itsCounted (connections a ! i) then as_connectionCount a - 1 else as_connectionCount a)"
      by (auto simp: is_live_def)
    have l: "live a = live (a\<lparr>connections := (connections a)[i := s]\<rparr>) +
        (if itsCounted (connections a ! i) then 1 else 0)"
      using live_update[OF i, of s] c(1) nd by (simp add: is_live_def)
    have l': "live (a\<lparr>as_server := v, connections := (connections a)[i := s]\<rparr>) =
        live (a\<lparr>connections := (connections a)[i := s]\<rparr>)" for v by (simp add: live_def)
    show ?thesis
      using inv c(2) l u
      by (auto simp: count_inv_def a' as_connectionCount_def set_connectionCount_def unreferenced_def
          nth_list_update l' getMaxConnections_def)
  next
    case Shutdown_requested
    with d inv show ?thesis
      by (auto simp: count_inv_def as_connectionCount_def getMaxConnections_def)
  qed
qed

lemma count_inv_start:
  assumes "server_start sp a" shows "count_inv a"
  using assms
proof cases
  case (constructed srv)
  then show ?thesis
    unfolding construct_AsyncServer_def
    by (auto intro!: startAccept_inv simp: as_connectionCount_def live_def)
qed

interpretation counting: inductive_invariant "server_start sp" "server_step sp" count_inv
  for sp :: "('q, 'p, 'h) spine"
  by unfold_locales (auto intro: count_inv_start count_inv_step)

text \<open>C13. In every reachable state the counter equals the number of started connections that are
  not destroyed, in 64 bits, and with a connection limit there are never more of them than
  the limit.\<close>

theorem connections_capped:
  assumes "reach (server_start sp) (server_step sp) a"
  shows "as_connectionCount a = of_nat (length (filter is_live (connections a))) \<and>
    (getMaxConnections (as_server a) \<noteq> 0 \<longrightarrow>
     length (filter is_live (connections a)) \<le> unat (getMaxConnections (as_server a)))"
  using counting.inv_reach[OF assms] by (simp add: count_inv_def live_def)

text \<open>C32. At the limit a new connection is answered with 503 and closed without being started: the
  response goes out whole unless a write fails, the socket is closed, the connection is not
  counted, no operation is pending for it, the next accept is started, and the limit is logged
  once per episode.\<close>

theorem refused_at_limit:
  assumes "prints_status sp" "response_status sp"
    and "\<not> isShutdownRequested (as_server a)" "itsNewConnection a = Some i"
    and "i < length (connections a)" "connections a ! i = new_connection sp srv"
    and "0 < getMaxConnections (as_server a)" "getMaxConnections (as_server a) \<le> as_connectionCount a"
  shows "let a' = handleAccept sp e Success a; s = connections a' ! i in
    rs_getStatus sp (itsResponse s) = service_unavailable \<and> \<not> socketOpen s \<and>
    (\<exists>h. rs_headersToBuffer sp (itsResponse s) = Some h \<and>
      (fst (env_headerWrite e) = Success \<and> fst (env_contentWrite e) = Success \<longrightarrow>
        wire s = h @ rs_contentToBuffer sp (itsResponse s))) \<and>
    \<not> itsCounted s \<and> pending s = [] \<and> \<not> itsKeepAlive s \<and>
    as_connectionCount a' = as_connectionCount a \<and> accepting a' \<and>
    limitLines a' = limitLines a + (if itsConnectionLimitReported a then 0 else 1) \<and>
    itsConnectionLimitReported a'"
proof -
  let ?n = "(new_connection sp srv)\<lparr>itsKeepAlive := False, itsResponseVersion := ''1.0''\<rparr>"
  define t where "t = sendStockReply sp e service_unavailable ?n"
  obtain p w f d where r: "t = ?n\<lparr>itsResponse := p, wire := w, itsFinalStatus := f, socketOpen := d, itsKeepAlive := False\<rparr>"
    using sendStockReply_closes[of ?n sp e service_unavailable] by (auto simp: t_def)
  have n: "\<not> itsKeepAlive ?n" "socketOpen ?n" "wire ?n = []" by (simp_all add: new_connection_eq)
  obtain h where h: "rs_headersToBuffer sp (itsResponse t) = Some h" "\<not> socketOpen t"
    "itsResponse t = itsResponse (stock_response sp e service_unavailable ?n)"
    "fst (env_headerWrite e) = Success \<and> fst (env_contentWrite e) = Success \<longrightarrow>
       wire t = h @ rs_contentToBuffer sp (itsResponse t)"
    using sendStockReply_sent[OF assms(1) n(1), of e service_unavailable]
    unfolding Let_def t_def[symmetric] n(3) append_Nil using n(2) by blast
  have status: "rs_getStatus sp (itsResponse t) = service_unavailable"
    unfolding h(3) by (rule stock_response_status[OF assms(2)])
  have fields: "\<not> itsCounted t" "pending t = []" "\<not> itsKeepAlive t" by (simp_all add: r new_connection_eq)
  have "connections (handleAccept sp e Success a) ! i = t"
    using assms(3-8) by (simp add: handleAccept_def Let_def rejectConnection_def startAccept_def nth_append
        as_connectionCount_def t_def)
  moreover have "as_connectionCount (handleAccept sp e Success a) = as_connectionCount a"
    "accepting (handleAccept sp e Success a)"
    "limitLines (handleAccept sp e Success a) = limitLines a + (if itsConnectionLimitReported a then 0 else 1)"
    "itsConnectionLimitReported (handleAccept sp e Success a)"
    using assms(3-8) by (simp_all add: handleAccept_def Let_def startAccept_def as_connectionCount_def)
  ultimately show ?thesis using h status fields by (simp add: Let_def)
qed

end
