(* ===== verification/Server_Connections.thy ===== *)
theory Server_Connections
  imports AsyncServer Conn_Phases
begin

text \<open>
  A server and its connections: whatever the interleaving of accepts, connection events,
  releases and the shutdown, each live connection of a server is in a state that a
  connection can reach on its own. So everything shown of single connections holds for all
  connections of a server, and their resources add up under the server's limits.
\<close>

subsection \<open>The settings of a server\<close>

text \<open>What connections read of a running server, without the counter and the shutdown flag, which
  they share with it by other ways.\<close>

definition settings :: "server \<Rightarrow> server" where
  "settings srv = srv\<lparr>srv_connectionCount := 0, srv_shutdownRequested := False\<rparr>"

lemma settings_fixed [simp]:
  "settings (srv\<lparr>srv_connectionCount := c\<rparr>) = settings srv"
  "settings (srv\<lparr>srv_shutdownRequested := b\<rparr>) = settings srv"
  "srv_maxRequestSize (settings srv) = srv_maxRequestSize srv"
  by (simp_all add: settings_def)

lemma settings_new_connection: "new_connection sp (settings srv) = new_connection sp srv"
  by (simp add: settings_def new_connection_eq isKeepAliveEnabled_def getKeepAliveTimeout_def
      getMaxKeepAliveRequests_def getMaxHeaderSize_def)

lemma settings_getters:
  "getTrustedProxies (settings srv) = getTrustedProxies srv"
  "getRequestTimeout sp (settings srv) = getRequestTimeout sp srv"
  "getCancelOnDisconnect sp (settings srv) = getCancelOnDisconnect sp srv"
  by (simp_all add: fun_eq_iff settings_def getTrustedProxies_def getRequestTimeout_def
      getCancelOnDisconnect_def split: option.split)

lemma settings_handlers:
  "handleParsedRequest sp e (settings srv) = handleParsedRequest sp e srv"
  "receive sp e (settings srv) = receive sp e srv"
  "handleRead sp e (settings srv) = handleRead sp e srv"
  "handleCompletedRead sp e (settings srv) = handleCompletedRead sp e srv"
proof -
  have "resolveClientIP sp e (settings srv) = resolveClientIP sp e srv"
    by (simp only: fun_eq_iff resolveClientIP_def settings_getters) simp
  then show p: "handleParsedRequest sp e (settings srv) = handleParsedRequest sp e srv"
    by (simp only: fun_eq_iff handleParsedRequest_def) simp
  show r: "receive sp e (settings srv) = receive sp e srv"
    by (simp only: fun_eq_iff receive_def p) simp
  show "handleRead sp e (settings srv) = handleRead sp e srv"
    by (simp only: fun_eq_iff handleRead_def r) simp
  show "handleCompletedRead sp e (settings srv) = handleCompletedRead sp e srv"
    by (simp only: fun_eq_iff handleCompletedRead_def createCancellationToken_def settings_getters) simp
qed

lemma settings_run_handler: "run_handler sp e (settings srv) ev s = run_handler sp e srv ev s"
  by (cases ev) (simp_all add: settings_handlers Let_def split: job.split)

lemma settings_dispatch: "dispatch sp (settings srv) e ev s = dispatch sp srv e ev s"
  by (simp add: dispatch_def settings_run_handler)

subsection \<open>The connections of a server\<close>

definition own_state :: "('q, 'p, 'h) spine \<Rightarrow> server \<Rightarrow> ('q, 'p, 'h) conn \<Rightarrow> bool" where
  "own_state sp srv s \<longleftrightarrow> s = new_connection sp srv \<or> reachable sp srv s \<or> destroyed s"

definition awaits_accept :: "('q, 'p, 'h) spine \<Rightarrow> ('q, 'p, 'h) async_server \<Rightarrow> bool" where
  "awaits_accept sp a \<longleftrightarrow>
     (\<exists>i. itsNewConnection a = Some i \<and> i < length (connections a) \<and>
        connections a ! i = new_connection sp (settings (as_server a)))"

definition conns_inv :: "('q, 'p, 'h) spine \<Rightarrow> ('q, 'p, 'h) async_server \<Rightarrow> bool" where
  "conns_inv sp a \<longleftrightarrow>
     (\<forall>s \<in> set (connections a). own_state sp (settings (as_server a)) s) \<and>
     (accepting a \<longrightarrow> awaits_accept sp a)"

lemma conns_inv_update:
  assumes "conns_inv sp a" "own_state sp (settings (as_server a)) s"
    and "\<not> accepting a \<or> i \<ge> length (connections a) \<or> itsNewConnection a \<noteq> Some i"
  shows "conns_inv sp (a\<lparr>connections := (connections a)[i := s]\<rparr>)"
proof -
  have "\<forall>u \<in> set ((connections a)[i := s]). own_state sp (settings (as_server a)) u"
    using assms(1,2) set_update_subset_insert[of "connections a" i s] by (auto simp: conns_inv_def)
  then show ?thesis
    using assms(1,3) by (auto simp: conns_inv_def awaits_accept_def nth_list_update)
qed

lemma conns_inv_startAccept:
  assumes "conns_inv sp a" shows "conns_inv sp (startAccept sp a)"
  using assms by (auto simp: startAccept_def conns_inv_def awaits_accept_def own_state_def
      settings_new_connection nth_append)

lemma conns_inv_handleAccept:
  assumes inv: "conns_inv sp a" and acc: "accepting a"
  shows "conns_inv sp (handleAccept sp e err (a\<lparr>accepting := False\<rparr>))"
proof -
  let ?srv = "settings (as_server a)"
  obtain i where i: "itsNewConnection a = Some i" "i < length (connections a)"
    "connections a ! i = new_connection sp ?srv"
    using inv acc by (auto simp: conns_inv_def awaits_accept_def)
  have inv': "conns_inv sp (a\<lparr>accepting := False\<rparr>)" using inv by (simp add: conns_inv_def)
  have started: "reachable sp ?srv (snd (start e (c, connections a ! i)))" for c
    unfolding i(3) by (intro reach_start started)
  have rejected: "reachable sp ?srv (rejectConnection sp e (connections a ! i))"
    unfolding i(3) by (intro reach_start rejected)
  have upd: "conns_inv sp (b\<lparr>connections := (connections a)[i := s]\<rparr>)"
    if "reachable sp ?srv s" "as_server b = as_server a" "connections b = connections a" "\<not> accepting b"
    for s b
    using conns_inv_update[OF inv', of s i] that by (simp add: own_state_def conns_inv_def)
  have count: "conns_inv sp (set_connectionCount c b) = conns_inv sp b" for b c
    by (simp add: conns_inv_def awaits_accept_def set_connectionCount_def)
  show ?thesis
    using inv' i(1)
    by (auto simp: handleAccept_def Let_def split_beta count
        intro!: conns_inv_startAccept upd started rejected)
qed

lemma own_state_dispatch:
  assumes "own_state sp (settings srv) s" "dispatch sp srv e ev s = Some t"
  shows "own_state sp (settings srv) t"
proof -
  have d: "dispatch sp (settings srv) e ev s = Some t" using assms(2) by (simp add: settings_dispatch)
  have "s \<noteq> new_connection sp (settings srv)"
    using assms(2) by (auto simp: dispatch_def new_connection_eq split: if_splits)
  then show ?thesis
    using assms(1) dispatch_keeps[OF assms(2)] handler_step[OF d]
    by (auto simp: own_state_def intro: reach_step)
qed

lemma conns_inv_step:
  assumes inv: "conns_inv sp a" and step: "server_step sp a x a'" shows "conns_inv sp a'"
proof -
  obtain e ev where d: "server_dispatch sp e ev a = Some a'"
    using step by (auto elim: server_stepE)
  show ?thesis
  proof (cases ev)
    case (Accept_done err)
    with d inv conns_inv_handleAccept show ?thesis by (auto split: if_splits)
  next
    case (Connection_event i cev)
    with d obtain s where i: "i < length (connections a)"
      and s: "dispatch sp (as_server a) e cev (connections a ! i) = Some s"
      and a': "a' = a\<lparr>connections := (connections a)[i := s]\<rparr>"
      by (auto split: if_splits option.splits)
    have "connections a ! i \<noteq> new_connection sp (settings (as_server a))"
      using s by (auto simp: dispatch_def new_connection_eq split: if_splits)
    then have "\<not> accepting a \<or> itsNewConnection a \<noteq> Some i"
      using inv by (auto simp: conns_inv_def awaits_accept_def)
    moreover have "own_state sp (settings (as_server a)) (connections a ! i)"
      using inv i by (simp add: conns_inv_def)
    ultimately show ?thesis
      unfolding a' using own_state_dispatch[OF _ s] inv by (intro conns_inv_update) auto
  next
    case (Connection_released i)
    with d obtain count s where u: "unreferenced i a"
      and st: "destroy sp (isShutdownRequested (as_server a)) (as_connectionCount a, connections a ! i) = (count, s)"
      and a': "a' = set_connectionCount count (a\<lparr>connections := (connections a)[i := s]\<rparr>)"
      by (auto split: if_splits prod.splits)
    have "conns_inv sp (a\<lparr>connections := (connections a)[i := s]\<rparr>)"
      using destroy_counts[OF st] u by (intro conns_inv_update[OF inv]) (auto simp: own_state_def unreferenced_def)
    then show ?thesis by (simp add: a' conns_inv_def awaits_accept_def set_connectionCount_def)
  next
    case Shutdown_requested
    with d inv show ?thesis by (auto simp: conns_inv_def awaits_accept_def)
  qed
qed

interpretation composition: inductive_invariant "server_start sp" "server_step sp" "conns_inv sp"
  for sp :: "('q, 'p, 'h) spine"
proof (unfold_locales, goal_cases)
  case (1 a)
  then show ?case
    by (auto simp: construct_AsyncServer_def intro!: conns_inv_startAccept elim!: server_start.cases)
      (simp add: conns_inv_def)
next
  case (2 a x a')
  then show ?case by (rule conns_inv_step)
qed

text \<open>C14. A server is the composition of its connections: in every state a server can reach, by any
  interleaving of accepts, events of the connections, releases and the shutdown, each started
  connection is in a state that a connection with these settings can reach on its own.\<close>

theorem server_connections_reachable:
  assumes "reach (server_start sp) (server_step sp) a" "s \<in> set (connections a)" "is_live s"
  shows "reachable sp (settings (as_server a)) s"
  using composition.inv_reach[OF assms(1)] assms(2,3)
  by (auto simp: conns_inv_def own_state_def is_live_def)

subsection \<open>Resources\<close>

definition request_size_kept :: "server \<Rightarrow> ('q, 'p, 'h) conn \<Rightarrow> bool" where
  "request_size_kept srv s \<longleftrightarrow> itsMaxRequestSize s = srv_maxRequestSize srv"

interpretation request_size: inductive_invariant
  "conn_start sp srv" "conn_step sp srv" "request_size_kept srv"
  for sp :: "('q, 'p, 'h) spine" and srv
proof (unfold_locales, goal_cases)
  case (1 s)
  have n: "request_size_kept srv (new_connection sp srv)"
    by (simp add: request_size_kept_def new_connection_eq)
  from 1 show ?case
  proof cases
    case (started e count)
    then show ?thesis using n
      by (auto simp: start_def registerConnection_def armTimer_def add_pending_def startRead_def Let_def
          request_size_kept_def)
  next
    case (rejected e)
    have "evolves 0 0 (new_connection sp srv) s"
      unfolding rejected rejectConnection_def
      by (intro evolves_sendStockReply evolves_version) simp_all
    with n show ?thesis by (simp add: request_size_kept_def evolves_def same_settings_def)
  qed
next
  case (2 s x t)
  from 2(2) obtain k n where "evolves k n s t" by (rule step_evolves)
  with 2(1) show ?case by (simp add: request_size_kept_def evolves_def same_settings_def)
qed

lemma sum_list_bound: "(\<And>x. x \<in> set xs \<Longrightarrow> f x \<le> b) \<Longrightarrow> sum_list (map f xs) \<le> length xs * (b :: nat)"
  by (induction xs) (auto simp: add_mono)

text \<open>C15. The memory that clients can make a server hold: with a limit on connections and one on the
  size of a request, all live connections together never keep more bytes of their clients'
  data than the product of the two.\<close>

theorem buffered_bytes_capped:
  assumes "reach (server_start sp) (server_step sp) a"
    and "getMaxConnections (as_server a) \<noteq> 0" "srv_maxRequestSize (as_server a) \<noteq> 0"
  shows "(\<Sum>s \<leftarrow> filter is_live (connections a). length (itsBuffer s)) \<le>
    unat (getMaxConnections (as_server a)) * srv_maxRequestSize (as_server a)"
proof -
  let ?live = "filter is_live (connections a)" and ?size = "srv_maxRequestSize (as_server a)"
  have "length (itsBuffer s) \<le> ?size" if "s \<in> set ?live" for s
  proof -
    have "reachable sp (settings (as_server a)) s"
      using composition.inv_reach[OF assms(1)] that by (auto simp: conns_inv_def own_state_def is_live_def)
    from fields_ok.inv_reach[OF this] request_size.inv_reach[OF this] assms(3) show ?thesis
      by (simp add: well_formed_def request_size_kept_def)
  qed
  then have "(\<Sum>s \<leftarrow> ?live. length (itsBuffer s)) \<le> length ?live * ?size" by (rule sum_list_bound)
  also have "length ?live \<le> unat (getMaxConnections (as_server a))"
    using counting.inv_reach[OF assms(1)] assms(2) by (simp add: count_inv_def live_def)
  finally show ?thesis by simp
qed

end
