(* ===== verification/Server_Lifecycle.thy ===== *)
theory Server_Lifecycle
  imports Server
begin

text \<open>
  Start and shutdown of \<^verbatim>\<open>source/AsyncServer.cpp\<close>: \<open>run\<close>, \<open>shutdown\<close> and the worker threads
  as interleaved threads over the state they share. Each step of a thread is one of its
  statements or one section under \<open>itsExecutorMutex\<close>; \<open>shutdownServer\<close> may be called
  more than once and concurrently.
\<close>

subsection \<open>State\<close>

datatype executor = Executor_created | Executor_started | Executor_stopped

text \<open>
  The program counters: of \<open>run\<close>, of a call of \<open>shutdownServer\<close>, and of a worker thread.
  \<open>Shut_wait n\<close> has slept \<open>n\<close> times; \<open>Worker_handler\<close> is running a completion handler.
\<close>

datatype run_pc = Run_not_called | Run_spawn nat | Run_start_executors | Run_join | Run_returned

datatype shut_pc =
  Shut_request | Shut_close | Shut_stop | Shut_wait nat | Shut_executors | Shut_reactor | Shut_returned

datatype worker_pc = Worker_loop | Worker_handler | Worker_exited

record lifecycle =
  lc_numThreads :: nat
  lc_shutdownRequested :: bool
  lc_acceptorOpen :: bool
  lc_ioStopped :: bool
  lc_runningWorkers :: nat
  lc_adminExecutor :: "executor option"
  lc_slowExecutor :: "executor option"
  lc_fastExecutor :: "executor option"
  lc_reactorDown :: bool
  lc_run :: run_pc
  lc_shutdowns :: "shut_pc list"
  lc_workers :: "worker_pc list"
  lc_nullDereference :: bool
  lc_gaveUp :: bool

definition initial_lifecycle :: "nat \<Rightarrow> lifecycle" where
  "initial_lifecycle threads =
     \<lparr>lc_numThreads = max threads 1, lc_shutdownRequested = False, lc_acceptorOpen = True,
      lc_ioStopped = False, lc_runningWorkers = 0,
      lc_adminExecutor = Some Executor_created, lc_slowExecutor = Some Executor_created,
      lc_fastExecutor = Some Executor_created, lc_reactorDown = False,
      lc_run = Run_not_called, lc_shutdowns = [], lc_workers = [],
      lc_nullDereference = False, lc_gaveUp = False\<rparr>"

subsection \<open>The steps of the threads\<close>

text \<open>A call through one of the \<^verbatim>\<open>unique_ptr\<close>s: on a null pointer it is undefined behaviour.\<close>

definition use_executors :: "(executor \<Rightarrow> executor) \<Rightarrow> lifecycle \<Rightarrow> lifecycle" where
  "use_executors f l =
     (if lc_adminExecutor l = None \<or> lc_slowExecutor l = None \<or> lc_fastExecutor l = None
      then l\<lparr>lc_nullDereference := True\<rparr>
      else l\<lparr>lc_adminExecutor := map_option f (lc_adminExecutor l),
             lc_slowExecutor := map_option f (lc_slowExecutor l),
             lc_fastExecutor := map_option f (lc_fastExecutor l)\<rparr>)"

text \<open>The section of \<open>run\<close> under the lock, and the one of \<open>shutdown\<close>.\<close>

definition start_executors :: "lifecycle \<Rightarrow> lifecycle" where
  "start_executors l =
     (if \<not> lc_shutdownRequested l \<and> lc_adminExecutor l \<noteq> None
      then use_executors (\<lambda>x. Executor_started) l else l)"

definition shutdown_executors :: "lifecycle \<Rightarrow> lifecycle" where
  "shutdown_executors l =
     (if lc_adminExecutor l \<noteq> None then
        (use_executors (\<lambda>x. Executor_stopped) l)
          \<lparr>lc_adminExecutor := None, lc_slowExecutor := None, lc_fastExecutor := None\<rparr>
      else l)"

fun run_step :: "lifecycle \<Rightarrow> lifecycle option" where
  "run_step l =
     (case lc_run l of
        Run_not_called \<Rightarrow> Some (l\<lparr>lc_runningWorkers := lc_numThreads l, lc_run := Run_spawn 0\<rparr>)
      | Run_spawn i \<Rightarrow>
          if i < lc_numThreads l
          then Some (l\<lparr>lc_workers := lc_workers l @ [Worker_loop], lc_run := Run_spawn (i + 1)\<rparr>)
          else Some (l\<lparr>lc_run := Run_start_executors\<rparr>)
      | Run_start_executors \<Rightarrow> Some ((start_executors l)\<lparr>lc_run := Run_join\<rparr>)
      | Run_join \<Rightarrow>
          if \<forall>w \<in> set (lc_workers l). w = Worker_exited then Some (l\<lparr>lc_run := Run_returned\<rparr>)
          else None
      | Run_returned \<Rightarrow> None)"

definition shut_step :: "nat \<Rightarrow> lifecycle \<Rightarrow> lifecycle option" where
  "shut_step k l =
     (if k < length (lc_shutdowns l) then
        (let at = (\<lambda>pc m. m\<lparr>lc_shutdowns := (lc_shutdowns m)[k := pc]\<rparr>) in
         case lc_shutdowns l ! k of
           Shut_request \<Rightarrow> Some (at Shut_close (l\<lparr>lc_shutdownRequested := True\<rparr>))
         | Shut_close \<Rightarrow> Some (at Shut_stop (l\<lparr>lc_acceptorOpen := False\<rparr>))
         | Shut_stop \<Rightarrow> Some (at (Shut_wait 0) (l\<lparr>lc_ioStopped := True\<rparr>))
         | Shut_wait waited \<Rightarrow>
             if lc_runningWorkers l > 0 \<and> waited < 2000 then Some (at (Shut_wait (waited + 1)) l)
             else Some (at Shut_executors
                    (l\<lparr>lc_gaveUp := (lc_gaveUp l \<or> lc_runningWorkers l > 0)\<rparr>))
         | Shut_executors \<Rightarrow> Some (at Shut_reactor (shutdown_executors l))
         | Shut_reactor \<Rightarrow> Some (at Shut_returned (l\<lparr>lc_reactorDown := True\<rparr>))
         | Shut_returned \<Rightarrow> None)
      else None)"

text \<open>
  A worker takes a handler only while the io service is not stopped; a handler may use the
  executors any number of times (\<open>Handler_schedules\<close>); leaving \<^verbatim>\<open>run\<close>, the exit guard
  decrements the counter.
\<close>

datatype lifecycle_event =
  Run_thread | Shutdown_called | Shutdown_thread nat
| Handler_begins nat | Handler_schedules nat | Handler_ends nat | Worker_leaves nat

fun lifecycle_step :: "lifecycle_event \<Rightarrow> lifecycle \<Rightarrow> lifecycle option" where
  "lifecycle_step Run_thread l = run_step l"
| "lifecycle_step Shutdown_called l = Some (l\<lparr>lc_shutdowns := lc_shutdowns l @ [Shut_request]\<rparr>)"
| "lifecycle_step (Shutdown_thread k) l = shut_step k l"
| "lifecycle_step (Handler_begins i) l =
     (if i < length (lc_workers l) \<and> lc_workers l ! i = Worker_loop \<and> \<not> lc_ioStopped l
      then Some (l\<lparr>lc_workers := (lc_workers l)[i := Worker_handler]\<rparr>) else None)"
| "lifecycle_step (Handler_schedules i) l =
     (if i < length (lc_workers l) \<and> lc_workers l ! i = Worker_handler
      then Some (use_executors (\<lambda>x. x) l) else None)"
| "lifecycle_step (Handler_ends i) l =
     (if i < length (lc_workers l) \<and> lc_workers l ! i = Worker_handler
      then Some (l\<lparr>lc_workers := (lc_workers l)[i := Worker_loop]\<rparr>) else None)"
| "lifecycle_step (Worker_leaves i) l =
     (if i < length (lc_workers l) \<and> lc_workers l ! i = Worker_loop \<and> lc_ioStopped l
      then Some (l\<lparr>lc_workers := (lc_workers l)[i := Worker_exited],
                   lc_runningWorkers := lc_runningWorkers l - 1\<rparr>) else None)"

declare run_step.simps [simp del]

inductive lc_step :: "lifecycle \<Rightarrow> lifecycle_event \<Rightarrow> lifecycle \<Rightarrow> bool" where
  lc_step: "lifecycle_step ev l = Some l' \<Longrightarrow> lc_step l ev l'"

inductive_cases lc_stepE: "lc_step l ev l'"

inductive lc_start :: "lifecycle \<Rightarrow> bool" where
  lc_start: "lc_start (initial_lifecycle threads)"

subsection \<open>No use after destruction\<close>

fun spawned :: "nat \<Rightarrow> run_pc \<Rightarrow> nat" where
  "spawned threads Run_not_called = 0"
| "spawned threads (Run_spawn i) = i"
| "spawned threads pc = threads"

definition active :: "worker_pc list \<Rightarrow> nat" where
  "active us = length (filter (\<lambda>w. w \<noteq> Worker_exited) us)"

definition no_handler :: "worker_pc list \<Rightarrow> bool" where
  "no_handler us \<longleftrightarrow> Worker_handler \<notin> set us"

fun past_request :: "shut_pc \<Rightarrow> bool" where
  "past_request Shut_request = False"
| "past_request pc = True"

fun past_stop :: "shut_pc \<Rightarrow> bool" where
  "past_stop Shut_request = False"
| "past_stop Shut_close = False"
| "past_stop Shut_stop = False"
| "past_stop pc = True"

fun past_wait :: "shut_pc \<Rightarrow> bool" where
  "past_wait Shut_executors = True"
| "past_wait Shut_reactor = True"
| "past_wait Shut_returned = True"
| "past_wait pc = False"

text \<open>The three executors live and die together.\<close>

definition executors_inv :: "lifecycle \<Rightarrow> bool" where
  "executors_inv l \<longleftrightarrow>
     (lc_slowExecutor l = None \<longleftrightarrow> lc_adminExecutor l = None) \<and>
     (lc_fastExecutor l = None \<longleftrightarrow> lc_adminExecutor l = None)"

text \<open>The counter covers the workers that can run a handler.\<close>

definition workers_inv :: "lifecycle \<Rightarrow> bool" where
  "workers_inv l \<longleftrightarrow>
     length (lc_workers l) = spawned (lc_numThreads l) (lc_run l) \<and>
     spawned (lc_numThreads l) (lc_run l) \<le> lc_numThreads l \<and>
     (lc_run l \<noteq> Run_not_called \<longrightarrow> lc_runningWorkers l =
        active (lc_workers l) + (lc_numThreads l - spawned (lc_numThreads l) (lc_run l)))"

text \<open>What a call of \<open>shutdownServer\<close> has done when it has come so far.\<close>

definition flags_inv :: "lifecycle \<Rightarrow> bool" where
  "flags_inv l \<longleftrightarrow>
     (\<forall>pc \<in> set (lc_shutdowns l). past_request pc \<longrightarrow> lc_shutdownRequested l) \<and>
     (\<forall>pc \<in> set (lc_shutdowns l). past_stop pc \<longrightarrow> lc_ioStopped l)"

text \<open>Past its wait a call finds no handler running, unless a wait gave up.\<close>

definition safe_inv :: "lifecycle \<Rightarrow> bool" where
  "safe_inv l \<longleftrightarrow> \<not> lc_gaveUp l \<longrightarrow>
     ((\<exists>pc \<in> set (lc_shutdowns l). past_wait pc) \<longrightarrow> no_handler (lc_workers l)) \<and>
     (lc_adminExecutor l = None \<longrightarrow> no_handler (lc_workers l) \<and> lc_ioStopped l) \<and>
     \<not> lc_nullDereference l"

definition lc_inv :: "lifecycle \<Rightarrow> bool" where
  "lc_inv l \<longleftrightarrow> executors_inv l \<and> workers_inv l \<and> flags_inv l \<and> safe_inv l"

lemmas lc_inv_parts = executors_inv_def workers_inv_def flags_inv_def safe_inv_def

lemma worker_lists [simp]:
  "active (us @ [Worker_loop]) = Suc (active us)" "no_handler (us @ [Worker_loop]) = no_handler us"
  "active [] = 0" "no_handler []"
  by (simp_all add: active_def no_handler_def)

lemma active_update:
  "i < length us \<Longrightarrow> us ! i \<noteq> Worker_exited \<Longrightarrow>
     active (us[i := w]) = (if w = Worker_exited then active us - 1 else active us)"
  "i < length us \<Longrightarrow> us ! i \<noteq> Worker_exited \<Longrightarrow> 0 < active us"
  using length_filter_update[of i us "\<lambda>w. w \<noteq> Worker_exited" w]
  by (auto simp: active_def filter_empty_conv)

lemma no_handler_update: "no_handler us \<Longrightarrow> w \<noteq> Worker_handler \<Longrightarrow> no_handler (us[i := w])"
  using set_update_subset_insert[of us i w] by (auto simp: no_handler_def)

lemma use_executors_inv:
  assumes "executors_inv l" "lc_adminExecutor l \<noteq> None"
  shows "executors_inv (use_executors f l)" "workers_inv (use_executors f l) = workers_inv l"
    "flags_inv (use_executors f l) = flags_inv l" "safe_inv (use_executors f l) = safe_inv l"
    "lc_run (use_executors f l) = lc_run l"
  using assms by (auto simp: use_executors_def lc_inv_parts)

lemma start_executors_inv:
  assumes "lc_inv l" shows "lc_inv (start_executors l)" "lc_run (start_executors l) = lc_run l"
  using assms use_executors_inv[of l "\<lambda>x. Executor_started"]
  by (auto simp: start_executors_def lc_inv_def)

lemma run_step_inv:
  assumes "lc_inv l" "run_step l = Some l'" shows "lc_inv l'"
proof (cases "lc_run l = Run_start_executors")
  case True
  then have "l' = (start_executors l)\<lparr>lc_run := Run_join\<rparr>"
    using assms(2) by (simp add: run_step.simps)
  with start_executors_inv[OF assms(1)] True show ?thesis by (simp add: lc_inv_def lc_inv_parts)
next
  case False
  have same: "lc_adminExecutor l' = lc_adminExecutor l" "lc_slowExecutor l' = lc_slowExecutor l"
    "lc_fastExecutor l' = lc_fastExecutor l" "lc_shutdowns l' = lc_shutdowns l"
    "lc_shutdownRequested l' = lc_shutdownRequested l" "lc_ioStopped l' = lc_ioStopped l"
    "lc_gaveUp l' = lc_gaveUp l" "lc_nullDereference l' = lc_nullDereference l"
    "no_handler (lc_workers l') = no_handler (lc_workers l)"
    using assms(2) False
    by (auto simp: run_step.simps split: run_pc.splits if_splits)
  then have "executors_inv l'" "flags_inv l'" "safe_inv l'"
    using assms(1) by (simp_all add: lc_inv_def lc_inv_parts)
  moreover have "workers_inv l'"
    using assms False
    by (cases "lc_run l") (auto simp: run_step.simps lc_inv_def workers_inv_def split: if_splits)
  ultimately show ?thesis by (simp add: lc_inv_def)
qed

lemma idle_no_handler:
  assumes "workers_inv l" "lc_runningWorkers l = 0" shows "no_handler (lc_workers l)"
proof (cases "lc_run l = Run_not_called")
  case True
  with assms(1) show ?thesis by (simp add: workers_inv_def)
next
  case False
  with assms have "active (lc_workers l) = 0" by (simp add: workers_inv_def)
  then show ?thesis by (auto simp: active_def no_handler_def filter_empty_conv)
qed

lemma in_set_update: "pc \<in> set (xs[k := x]) \<Longrightarrow> pc = x \<or> pc \<in> set xs"
  using set_update_subset_insert by fastforce

text \<open>One call of \<open>shutdown\<close> moves from \<open>pc\<close> to \<open>pc'\<close>.\<close>

lemma shut_moves:
  assumes "lc_inv l" "k < length (lc_shutdowns l)"
    and "past_request pc \<Longrightarrow> lc_shutdownRequested l" "past_stop pc \<Longrightarrow> lc_ioStopped l"
    and "past_wait pc \<Longrightarrow> \<not> lc_gaveUp l \<Longrightarrow> no_handler (lc_workers l)"
  shows "lc_inv (l\<lparr>lc_shutdowns := (lc_shutdowns l)[k := pc]\<rparr>)"
  using assms
  by (auto simp: lc_inv_def lc_inv_parts dest!: in_set_update)

lemma shutdown_executors_inv:
  assumes "lc_inv l" "lc_ioStopped l" "\<not> lc_gaveUp l \<longrightarrow> no_handler (lc_workers l)"
  shows "lc_inv (shutdown_executors l)" "lc_shutdowns (shutdown_executors l) = lc_shutdowns l"
    "lc_shutdownRequested (shutdown_executors l) = lc_shutdownRequested l"
    "lc_ioStopped (shutdown_executors l) = lc_ioStopped l"
    "lc_gaveUp (shutdown_executors l) = lc_gaveUp l"
    "lc_workers (shutdown_executors l) = lc_workers l"
  using assms by (auto simp: shutdown_executors_def use_executors_def lc_inv_def lc_inv_parts)

lemma shut_step_inv:
  assumes inv: "lc_inv l" and step: "shut_step k l = Some l'" shows "lc_inv l'"
proof -
  have k: "k < length (lc_shutdowns l)" using step by (simp add: shut_step_def split: if_splits)
  then have mem: "lc_shutdowns l ! k \<in> set (lc_shutdowns l)" by simp
  have was: "past_request (lc_shutdowns l ! k) \<Longrightarrow> lc_shutdownRequested l"
    "past_stop (lc_shutdowns l ! k) \<Longrightarrow> lc_ioStopped l"
    "past_wait (lc_shutdowns l ! k) \<Longrightarrow> \<not> lc_gaveUp l \<Longrightarrow> no_handler (lc_workers l)"
    using inv mem by (auto simp: lc_inv_def flags_inv_def safe_inv_def)
  have upd: "lc_inv (l\<lparr>lc_shutdownRequested := True\<rparr>)" "lc_inv (l\<lparr>lc_acceptorOpen := False\<rparr>)"
    "lc_inv (l\<lparr>lc_ioStopped := True\<rparr>)" "lc_inv (l\<lparr>lc_reactorDown := True\<rparr>)"
    "lc_inv (l\<lparr>lc_gaveUp := lc_gaveUp l \<or> b\<rparr>)" for b
    using inv by (auto simp: lc_inv_def lc_inv_parts)
  show ?thesis
  proof (cases "lc_shutdowns l ! k")
    case Shut_request
    with step k shut_moves[OF upd(1), of k Shut_close] show ?thesis by (simp add: shut_step_def)
  next
    case Shut_close
    with step k was shut_moves[OF upd(2), of k Shut_stop] show ?thesis by (simp add: shut_step_def)
  next
    case Shut_stop
    with step k was shut_moves[OF upd(3), of k "Shut_wait 0"] show ?thesis by (simp add: shut_step_def)
  next
    case (Shut_wait n)
    have "no_handler (lc_workers l)" if "lc_runningWorkers l = 0"
      using idle_no_handler that inv by (simp add: lc_inv_def)
    with Shut_wait step k was inv shut_moves[OF inv, of k "Shut_wait (n + 1)"]
      shut_moves[OF upd(5)[of "lc_runningWorkers l > 0"], of k Shut_executors]
    show ?thesis by (auto simp: shut_step_def split: if_splits)
  next
    case Shut_executors
    note s = shutdown_executors_inv[OF inv]
    show ?thesis
      using Shut_executors step k was s shut_moves[OF s(1), of k Shut_reactor]
      by (simp add: shut_step_def)
  next
    case Shut_reactor
    with step k was shut_moves[OF upd(4), of k Shut_returned] show ?thesis by (simp add: shut_step_def)
  next
    case Shut_returned
    with step k show ?thesis by (simp add: shut_step_def)
  qed
qed

lemma worker_moves:
  assumes "lc_inv l" "i < length (lc_workers l)" "lc_workers l ! i \<noteq> Worker_exited"
    and "w = Worker_handler \<Longrightarrow> \<not> lc_ioStopped l"
  shows "lc_inv (l\<lparr>lc_workers := (lc_workers l)[i := w],
    lc_runningWorkers := (if w = Worker_exited then lc_runningWorkers l - 1 else lc_runningWorkers l)\<rparr>)"
    (is "lc_inv ?l")
proof -
  have run: "lc_run l \<noteq> Run_not_called"
    using assms(1,2) by (auto simp: lc_inv_def workers_inv_def)
  have n: "no_handler (lc_workers ?l)" if "no_handler (lc_workers l)" "lc_ioStopped l"
    using that assms(4) by (auto intro: no_handler_update)
  have p: "past_stop pc" if "past_wait pc" for pc
    using that by (cases pc) auto
  have "executors_inv ?l" "flags_inv ?l"
    using assms(1) by (simp_all add: lc_inv_def executors_inv_def flags_inv_def)
  moreover have "workers_inv ?l"
    using assms(1) run active_update[OF assms(2,3)]
    by (cases "w = Worker_exited") (simp_all add: lc_inv_def workers_inv_def)
  moreover have "safe_inv ?l"
  proof -
    have "lc_ioStopped l" if "pc \<in> set (lc_shutdowns l)" "past_wait pc" for pc
      using that p assms(1) by (auto simp: lc_inv_def flags_inv_def)
    with assms(1) n show ?thesis by (fastforce simp: lc_inv_def safe_inv_def)
  qed
  ultimately show ?thesis by (simp add: lc_inv_def)
qed

lemma lc_inv_step:
  assumes inv: "lc_inv l" and "lc_step l ev l'" shows "lc_inv l'"
proof -
  have step: "lifecycle_step ev l = Some l'" using assms(2) by (auto elim: lc_stepE)
  show ?thesis
  proof (cases ev)
    case Run_thread
    with step run_step_inv[OF inv] show ?thesis by simp
  next
    case Shutdown_called
    then have l': "l' = l\<lparr>lc_shutdowns := lc_shutdowns l @ [Shut_request]\<rparr>" using step by simp
    have "executors_inv l'" "workers_inv l'" "flags_inv l'" "safe_inv l'"
      using inv
      by (simp_all add: l' lc_inv_def executors_inv_def workers_inv_def flags_inv_def safe_inv_def)
    then show ?thesis by (simp add: lc_inv_def)
  next
    case (Shutdown_thread k)
    with step shut_step_inv[OF inv] show ?thesis by simp
  next
    case (Handler_begins i)
    with step worker_moves[OF inv, of i Worker_handler] show ?thesis by (auto split: if_splits)
  next
    case (Handler_schedules i)
    then have i: "i < length (lc_workers l)" "lc_workers l ! i = Worker_handler"
      and l': "l' = use_executors (\<lambda>x. x) l" using step by (auto split: if_splits)
    have "\<not> no_handler (lc_workers l)" using i by (metis no_handler_def nth_mem)
    show ?thesis
    proof (cases "lc_adminExecutor l = None")
      case True
      with inv \<open>\<not> no_handler (lc_workers l)\<close> have "lc_gaveUp l"
        by (auto simp: lc_inv_def safe_inv_def)
      with True inv show ?thesis by (auto simp: l' use_executors_def lc_inv_def lc_inv_parts)
    next
      case False
      with inv use_executors_inv[of l "\<lambda>x. x"] show ?thesis by (simp add: l' lc_inv_def)
    qed
  next
    case (Handler_ends i)
    with step worker_moves[OF inv, of i Worker_loop] show ?thesis by (auto split: if_splits)
  next
    case (Worker_leaves i)
    with step worker_moves[OF inv, of i Worker_exited] show ?thesis by (auto split: if_splits)
  qed
qed

lemma lc_inv_start: "lc_start l \<Longrightarrow> lc_inv l"
  by (auto simp: lc_start.simps initial_lifecycle_def lc_inv_def lc_inv_parts)

interpretation lifecycle: inductive_invariant lc_start lc_step lc_inv
  by unfold_locales (auto intro: lc_inv_start lc_inv_step)

text \<open>C21. However \<open>run\<close>, the worker threads and any number of calls of \<open>shutdownServer\<close> interleave,
  no executor is used after it is destroyed, unless a shutdown gave up waiting for the
  workers after 2000 sleeps of 5 ms; and when they are destroyed no handler is running and
  none can begin.\<close>

theorem executors_not_used_after_destruction:
  assumes "reach lc_start lc_step l" "\<not> lc_gaveUp l"
  shows "\<not> lc_nullDereference l \<and>
    (lc_adminExecutor l = None \<longrightarrow>
       Worker_handler \<notin> set (lc_workers l) \<and> lc_ioStopped l)"
  using lifecycle.inv_reach[OF assms(1)] assms(2)
  by (simp add: lc_inv_def safe_inv_def no_handler_def)

end
