(* ===== verification/Daemon.thy ===== *)
theory Daemon
  imports Server
begin

text \<open>
  \<^verbatim>\<open>main/smartmetd.cpp\<close>: the limit on the rate of out of memory errors and the new-handlers,
  the number of server threads, and the signals: what the main loop does with the last one
  received, and the watchdog that aborts a shutdown that hangs.
\<close>

subsection \<open>Events in a time window\<close>

text \<open>
  \<^verbatim>\<open>MaxEventFreq<maxCount>\<close>: an array of time points, of which the first \<open>itsCount\<close> are in
  use. Time points are integers, in the clock's ticks, and \<open>itsTimeWindow\<close> is the window in
  the same unit. \<open>maxCount\<close> is the length of the array.
\<close>

record max_event_freq =
  itsCount :: nat
  itsTimeWindow :: int
  itsTimePoints :: "int list"

definition new_MaxEventFreq :: "nat \<Rightarrow> int \<Rightarrow> max_event_freq" where
  "new_MaxEventFreq maxCount timeWindow =
     \<lparr>itsCount = 0, itsTimeWindow = timeWindow, itsTimePoints = replicate maxCount 0\<rparr>"

text \<open>The two loops of \<open>check\<close>.\<close>

function expired_from :: "nat \<Rightarrow> int list \<Rightarrow> int \<Rightarrow> nat \<Rightarrow> nat" where
  "expired_from count points oldest i =
     (if i < count \<and> points ! i < oldest then expired_from count points oldest (i + 1) else i)"
  by pat_completeness auto
termination by (relation "measure (\<lambda>(count, points, oldest, i). count - i)") auto

declare expired_from.simps [simp del]

function shift_from :: "nat \<Rightarrow> nat \<Rightarrow> nat \<Rightarrow> int list \<Rightarrow> int list" where
  "shift_from count i j points =
     (if j + i < count then shift_from count i (j + 1) (points[j := points ! (i + j)]) else points)"
  by pat_completeness auto
termination by (relation "measure (\<lambda>(count, i, j, points). count - j)") auto

declare shift_from.simps [simp del]

text \<open>\<open>Inl\<close>: \<^verbatim>\<open>std::runtime_error\<close> is thrown; the state has changed all the same.\<close>

datatype too_many = Too_many_errors

definition check :: "int \<Rightarrow> max_event_freq \<Rightarrow> (too_many + unit) \<times> max_event_freq" where
  "check now m =
     (let oldest = now - itsTimeWindow m;
          i = expired_from (itsCount m) (itsTimePoints m) oldest 0;
          m = m\<lparr>itsTimePoints := shift_from (itsCount m) i 0 (itsTimePoints m)\<rparr>;
          m = m\<lparr>itsCount := itsCount m - i\<rparr>
      in if itsCount m \<ge> length (itsTimePoints m) then (Inl Too_many_errors, m)
         else
           (Inr (), m\<lparr>itsTimePoints := (itsTimePoints m)[itsCount m := now],
                      itsCount := itsCount m + 1\<rparr>))"

text \<open>The specification: the accepted events that are still in the window.\<close>

definition in_window :: "int \<Rightarrow> int \<Rightarrow> int list \<Rightarrow> int list" where
  "in_window now window events = filter (\<lambda>t. now - window \<le> t) events"

definition recorded :: "max_event_freq \<Rightarrow> int list" where
  "recorded m = take (itsCount m) (itsTimePoints m)"

definition valid_freq :: "max_event_freq \<Rightarrow> bool" where
  "valid_freq m \<longleftrightarrow> itsCount m \<le> length (itsTimePoints m) \<and> sorted (recorded m)"

lemma drop_take_Cons:
  "i < count \<Longrightarrow> count \<le> length xs \<Longrightarrow>
     drop i (take count xs) = xs ! i # drop (Suc i) (take count xs)"
  using Cons_nth_drop_Suc[of i "take count xs"] by simp

lemma expired_from_takeWhile:
  "i \<le> count \<Longrightarrow> count \<le> length points \<Longrightarrow>
     expired_from count points oldest i =
       i + length (takeWhile (\<lambda>t. t < oldest) (drop i (take count points)))"
proof (induction count points oldest i rule: expired_from.induct)
  case (1 count points oldest i)
  show ?case
  proof (cases "i < count")
    case True
    then have "drop i (take count points) = points ! i # drop (Suc i) (take count points)"
      using True "1.prems"(2) by (intro drop_take_Cons)
    with True 1 show ?thesis by (subst expired_from.simps) auto
  next
    case False
    with "1.prems" show ?thesis by (subst expired_from.simps) auto
  qed
qed

lemma length_shift_from [simp]: "length (shift_from count i j points) = length points"
  by (induction count i j points rule: shift_from.induct) (subst shift_from.simps, simp)

lemma shift_from_take:
  "count \<le> length points \<Longrightarrow> j + i \<le> count \<Longrightarrow>
     take (count - i) (shift_from count i j points) = take j points @ drop (j + i) (take count points)"
proof (induction count i j points rule: shift_from.induct)
  case (1 count i j points)
  show ?case
  proof (cases "j + i < count")
    case True
    let ?p = "points[j := points ! (i + j)]"
    have "take (count - i) (shift_from count i j points) =
        take (j + 1) ?p @ drop (j + 1 + i) (take count ?p)"
      using True "1.IH"[OF True] "1.prems" by (subst shift_from.simps) simp
    also have "take (j + 1) ?p = take j points @ [points ! (i + j)]"
      using True "1.prems" by (simp add: take_Suc_conv_app_nth)
    also have "drop (j + 1 + i) (take count ?p) = drop (j + 1 + i) (take count points)"
      by (simp add: drop_take)
    also have "(take j points @ [points ! (i + j)]) @ drop (j + 1 + i) (take count points) =
        take j points @ drop (j + i) (take count points)"
      using drop_take_Cons[OF True "1.prems"(1)] by (simp add: add.commute)
    finally show ?thesis by simp
  next
    case False
    with "1.prems" have "count - i = j" by simp
    with False "1.prems" show ?thesis by (subst shift_from.simps) simp
  qed
qed

lemma sorted_dropWhile_filter:
  "sorted xs \<Longrightarrow> dropWhile (\<lambda>t. t < oldest) xs = filter (\<lambda>t. oldest \<le> t) xs" for xs :: "int list"
proof (induction xs)
  case (Cons x xs)
  have "filter (\<lambda>t. oldest \<le> t) xs = xs" if "oldest \<le> x"
    using Cons.prems that by (auto simp: filter_id_conv)
  with Cons show ?case by (auto simp: not_less)
qed simp


lemma check_refines:
  assumes "valid_freq m" "\<forall>t \<in> set (recorded m). t \<le> now" "0 \<le> itsTimeWindow m"
  shows "fst (check now m) =
      (if length (in_window now (itsTimeWindow m) (recorded m)) < length (itsTimePoints m)
       then Inr () else Inl Too_many_errors) \<and>
    recorded (snd (check now m)) =
      in_window now (itsTimeWindow m) (recorded m) @
      (if fst (check now m) = Inr () then [now] else []) \<and>
    valid_freq (snd (check now m)) \<and>
    itsTimeWindow (snd (check now m)) = itsTimeWindow m \<and>
    length (itsTimePoints (snd (check now m))) = length (itsTimePoints m)"
proof -
  let ?r = "recorded m" and ?o = "now - itsTimeWindow m" and ?n = "length (itsTimePoints m)"
  let ?i = "expired_from (itsCount m) (itsTimePoints m) ?o 0"
  let ?p = "shift_from (itsCount m) ?i 0 (itsTimePoints m)"
  let ?w = "in_window now (itsTimeWindow m) ?r"
  have c: "itsCount m \<le> ?n" and s: "sorted ?r" using assms(1) by (auto simp: valid_freq_def)
  have lr: "length ?r = itsCount m" using c by (simp add: recorded_def)
  have i: "?i = length (takeWhile (\<lambda>t. t < ?o) ?r)"
    using c by (simp add: expired_from_takeWhile recorded_def)
  then have ile: "?i \<le> itsCount m" using lr length_takeWhile_le[of _ ?r] by metis
  have w: "?w = drop ?i ?r"
    unfolding in_window_def i
    by (simp add: sorted_dropWhile_filter[OF s, symmetric] dropWhile_eq_drop)
  have tp: "take (itsCount m - ?i) ?p = ?w"
    using shift_from_take[OF c, of 0 ?i] ile unfolding w by (simp add: recorded_def)
  have lw: "length ?w = itsCount m - ?i" using lr by (simp add: w)
  have sw: "sorted ?w" "\<forall>t \<in> set ?w. t \<le> now" "sorted (?w @ [now])"
    using s assms(2) by (auto simp: in_window_def sorted_append intro: sorted_wrt_filter)
  show ?thesis
  proof (cases "length ?w < ?n")
    case True
    have "take (Suc (itsCount m - ?i)) (?p[itsCount m - ?i := now]) = ?w @ [now]"
      using True lw tp by (simp add: take_Suc_conv_app_nth)
    with True lw sw(3) show ?thesis
      by (simp add: check_def Let_def recorded_def valid_freq_def)
  next
    case False
    with lw sw(1) tp ile c show ?thesis
      by (simp add: check_def Let_def recorded_def valid_freq_def)
  qed
qed

text \<open>C17. The sliding window: on a valid state (its time points in order, none in the future) \<open>check\<close>
  accepts the event exactly when fewer than \<open>maxCount\<close> of the recorded ones are still in the
  window, and records those still in the window, and the new one when accepted.\<close>

theorem check_refines_window:
  assumes "valid_freq m" "\<forall>t \<in> set (recorded m). t \<le> now" "0 \<le> itsTimeWindow m"
  shows "(fst (check now m) = Inr () \<longleftrightarrow>
      length (in_window now (itsTimeWindow m) (recorded m)) < length (itsTimePoints m)) \<and>
    recorded (snd (check now m)) =
      in_window now (itsTimeWindow m) (recorded m) @
      (if fst (check now m) = Inr () then [now] else []) \<and>
    valid_freq (snd (check now m))"
  using check_refines[OF assms] by auto

text \<open>
  The contract of a limiter of events in a sliding window, and what follows for any sequence
  of attempts in time order: the log of the limiter is the part of the accepted events that
  is in the window, so there are never more than \<open>cap\<close> of them in it.
\<close>

fun accepted :: "(int \<Rightarrow> 's \<Rightarrow> bool \<times> 's) \<Rightarrow> int list \<Rightarrow> 's \<Rightarrow> int list" where
  "accepted attempt [] s = []"
| "accepted attempt (t # ts) s =
     (case attempt t s of (ok, s') \<Rightarrow> (if ok then [t] else []) @ accepted attempt ts s')"

fun attempts :: "(int \<Rightarrow> 's \<Rightarrow> bool \<times> 's) \<Rightarrow> int list \<Rightarrow> 's \<Rightarrow> 's" where
  "attempts attempt [] s = s"
| "attempts attempt (t # ts) s = attempts attempt ts (snd (attempt t s))"

lemma in_window_twice: "t \<le> t' \<Longrightarrow> in_window t' w (in_window t w xs) = in_window t' w xs"
  by (auto simp: in_window_def intro!: filter_cong)

lemma in_window_append: "in_window t w (xs @ ys) = in_window t w xs @ in_window t w ys"
  by (simp add: in_window_def)

locale event_limiter =
  fixes attempt :: "int \<Rightarrow> 's \<Rightarrow> bool \<times> 's"
    and log :: "'s \<Rightarrow> int list"
    and ok :: "'s \<Rightarrow> bool"
    and window :: "'s \<Rightarrow> int"
    and cap :: "'s \<Rightarrow> nat"
  assumes attempt_log: "ok s \<Longrightarrow> \<forall>x \<in> set (log s). x \<le> t \<Longrightarrow> attempt t s = (a, s') \<Longrightarrow>
      log s' = in_window t (window s) (log s) @ (if a then [t] else [])"
    and attempt_ok: "ok s \<Longrightarrow> \<forall>x \<in> set (log s). x \<le> t \<Longrightarrow> attempt t s = (a, s') \<Longrightarrow>
      ok s' \<and> window s' = window s \<and> cap s' = cap s"
    and log_cap: "ok s \<Longrightarrow> length (log s) \<le> cap s"
    and window_pos: "ok s \<Longrightarrow> 0 \<le> window s"
begin

lemma attempts_window:
  assumes "ok s" "sorted ts" "\<forall>x \<in> set (log s). \<forall>t \<in> set ts. x \<le> t" "ts \<noteq> []"
  shows "log (attempts attempt ts s) =
      in_window (last ts) (window s) (log s @ accepted attempt ts s) \<and>
    ok (attempts attempt ts s) \<and> cap (attempts attempt ts s) = cap s"
  using assms
proof (induction ts arbitrary: s)
  case Nil
  then show ?case by simp
next
  case (Cons t ts)
  obtain a s' where at: "attempt t s = (a, s')" by force
  have le: "\<forall>x \<in> set (log s). x \<le> t" using Cons.prems(3) by simp
  note log' = attempt_log[OF Cons.prems(1) le at] and ok' = attempt_ok[OF Cons.prems(1) le at]
  have w: "0 \<le> window s" by (rule window_pos[OF Cons.prems(1)])
  show ?case
  proof (cases "ts = []")
    case True
    then show ?thesis using at log' ok' w by (simp add: in_window_append) (simp add: in_window_def)
  next
    case False
    have "\<forall>x \<in> set (log s'). \<forall>u \<in> set ts. x \<le> u"
      using log' Cons.prems(2,3) by (auto simp: in_window_def)
    from Cons.IH[OF _ _ this False] Cons.prems(2) ok'
    have IH: "log (attempts attempt ts s') =
        in_window (last ts) (window s) (log s' @ accepted attempt ts s') \<and>
        ok (attempts attempt ts s') \<and> cap (attempts attempt ts s') = cap s" by simp
    have "t \<le> last ts" using Cons.prems(2) False by simp
    then show ?thesis using IH at log' False
      by (simp add: in_window_append in_window_twice)
  qed
qed

lemma attempts_capped:
  assumes "ok s" "sorted ts" "log s = []" "ts \<noteq> []"
  shows "length (in_window (last ts) (window s) (accepted attempt ts s)) \<le> cap s"
  using attempts_window[OF assms(1,2) _ assms(4)] assms(3) log_cap by fastforce

end

lemma valid_new_MaxEventFreq: "valid_freq (new_MaxEventFreq n w)"
  by (simp add: valid_freq_def new_MaxEventFreq_def recorded_def)

definition check_accepts :: "int \<Rightarrow> max_event_freq \<Rightarrow> bool \<times> max_event_freq" where
  "check_accepts now m = (fst (check now m) = Inr (), snd (check now m))"

interpretation event_freq: event_limiter
  check_accepts recorded "\<lambda>m. valid_freq m \<and> 0 \<le> itsTimeWindow m" itsTimeWindow
  "\<lambda>m. length (itsTimePoints m)"
proof (unfold_locales, goal_cases)
  case (1 m t a m')
  with check_refines[of m t] show ?case by (auto simp: check_accepts_def)
next
  case (2 m t a m')
  with check_refines[of m t] show ?case by (auto simp: check_accepts_def)
next
  case (3 m)
  then show ?case by (simp add: valid_freq_def recorded_def)
next
  case (4 m)
  then show ?case by simp
qed

text \<open>C34. However often memory runs out, as long as the clock does not go back: in the window that
  ends with an attempt at most \<open>maxCount\<close> attempts have been let through.\<close>

theorem event_limit_holds:
  assumes "sorted ts" "ts \<noteq> []" "0 \<le> w"
  shows "length (in_window (last ts) w (accepted check_accepts ts (new_MaxEventFreq maxCount w)))
    \<le> maxCount"
  using event_freq.attempts_capped[of "new_MaxEventFreq maxCount w" ts] assms
    valid_new_MaxEventFreq[of maxCount w]
  by (simp add: new_MaxEventFreq_def recorded_def)

definition maxEventFreq :: max_event_freq where
  "maxEventFreq = new_MaxEventFreq 10 (60 * 1000000000)"

subsection \<open>The new-handlers\<close>

text \<open>
  How a call of a new-handler ends: the exception leaves it, or \<^verbatim>\<open>std::terminate\<close> ends the
  process. \<open>printed\<close> says whether the active requests and the backtrace were printed.
\<close>

datatype thrown = Runtime_error | Bad_alloc

datatype outcome = Throws thrown | Terminates

text \<open>
  A function-try-block: what the body throws goes to the handler. The clause of both
  functions is \<^verbatim>\<open>catch (...)\<close>, and it calls \<^verbatim>\<open>std::terminate\<close>.
\<close>

fun function_try_block :: "outcome \<Rightarrow> (thrown \<Rightarrow> outcome) \<Rightarrow> outcome" where
  "function_try_block (Throws x) handler = handler x"
| "function_try_block Terminates handler = Terminates"

record new_handler_call =
  nh_outcome :: outcome
  nh_printed :: bool

definition bad_alloc_new_handler :: "int \<Rightarrow> max_event_freq \<Rightarrow> new_handler_call \<times> max_event_freq" where
  "bad_alloc_new_handler now m =
     (let (checked, m) = check now m;
          printed = (checked = Inr ());
          body = (case checked of Inl Too_many_errors \<Rightarrow> Throws Runtime_error | Inr _ \<Rightarrow> Throws Bad_alloc)
      in (\<lparr>nh_outcome = function_try_block body (\<lambda>caught. Terminates), nh_printed = printed\<rparr>, m))"

definition terminate_new_handler :: new_handler_call where
  "terminate_new_handler =
     \<lparr>nh_outcome = function_try_block (Throws Bad_alloc) (\<lambda>caught. Terminates), nh_printed = False\<rparr>"

datatype new_handler = Bad_alloc_new_handler | Terminate_new_handler

datatype main_error = Unknown_new_handler string | Start_failed

definition set_new_handler :: "string \<Rightarrow> main_error + new_handler" where
  "set_new_handler name =
     (if name = ''default'' then Inr Bad_alloc_new_handler
      else if name = ''bad_alloc'' then Inr Bad_alloc_new_handler
      else if name = ''terminate'' then Inr Terminate_new_handler
      else Inl (Unknown_new_handler name))"

subsection \<open>The number of server threads\<close>

definition DEFAULT_ASYNC_THREAD_SIZE :: nat where
  "DEFAULT_ASYNC_THREAD_SIZE = 6"

text \<open>
  The argument is the setting \<^verbatim>\<open>server_threads\<close>: \<open>None\<close> when it does not exist, \<open>Some None\<close>
  when it is not an unsigned number.
\<close>

definition get_server_threads :: "nat option option \<Rightarrow> nat" where
  "get_server_threads setting =
     (case setting of
        None \<Rightarrow> DEFAULT_ASYNC_THREAD_SIZE
      | Some lookup \<Rightarrow>
          (let server_threads = (case lookup of None \<Rightarrow> DEFAULT_ASYNC_THREAD_SIZE | Some n \<Rightarrow> n)
           in if server_threads < 1 then DEFAULT_ASYNC_THREAD_SIZE else server_threads))"

subsection \<open>Signals\<close>

text \<open>The numbers of the signals on Linux.\<close>

abbreviation SIGHUP :: int where "SIGHUP \<equiv> 1"
abbreviation SIGINT :: int where "SIGINT \<equiv> 2"
abbreviation SIGILL :: int where "SIGILL \<equiv> 4"
abbreviation SIGABRT :: int where "SIGABRT \<equiv> 6"
abbreviation SIGBUS :: int where "SIGBUS \<equiv> 7"
abbreviation SIGFPE :: int where "SIGFPE \<equiv> 8"
abbreviation SIGSEGV :: int where "SIGSEGV \<equiv> 11"
abbreviation SIGTERM :: int where "SIGTERM \<equiv> 15"
abbreviation SIGXCPU :: int where "SIGXCPU \<equiv> 24"
abbreviation SIGXFSZ :: int where "SIGXFSZ \<equiv> 25"
abbreviation SIGPROF :: int where "SIGPROF \<equiv> 27"
abbreviation SIGWINCH :: int where "SIGWINCH \<equiv> 28"
abbreviation SIGSYS :: int where "SIGSYS \<equiv> 31"

definition core_signals :: "int list" where
  "core_signals = [SIGILL, SIGABRT, SIGFPE, SIGSYS, SIGSEGV, SIGXCPU, SIGXFSZ]"

text \<open>The mask that \<open>block_signals\<close> sets: whether a signal of the full set stays blocked.\<close>

definition block_signals :: "int \<Rightarrow> bool" where
  "block_signals sig = (sig \<noteq> SIGPROF \<and> sig \<notin> set core_signals)"

datatype signal_action = Default_action | Record_signal | Report_crash

definition init_signals :: "(int \<Rightarrow> signal_action) \<Rightarrow> (int \<Rightarrow> bool) \<times> (int \<Rightarrow> signal_action)" where
  "init_signals actions =
     (block_signals,
      actions(SIGBUS := Record_signal, SIGTERM := Record_signal, SIGWINCH := Record_signal,
              SIGHUP := Record_signal, SIGINT := Record_signal, SIGSEGV := Report_crash))"

text \<open>
  The crash report: what is printed, for the URIs of the requests in progress, the actions of
  the signals afterwards, and the signal that is raised again.
\<close>

definition rule_line :: string where
  "rule_line = replicate 57 CHR ''-'' @ [CHR 0x0A]"

definition crash_signal_handler ::
  "string \<Rightarrow> string list \<Rightarrow> int \<Rightarrow> (int \<Rightarrow> signal_action) \<Rightarrow> string \<times> (int \<Rightarrow> signal_action) \<times> int" where
  "crash_signal_handler log_time uris sig actions =
     (rule_line @ log_time @ '' THE SYSTEM IS GOING DOWN (signal='' @ decimal_int sig @ '')'' @ [CHR 0x0A] @
      rule_line @ concat (map (\<lambda>uri. uri @ [CHR 0x0A] @ rule_line) uris),
      actions(sig := Default_action), sig)"

text \<open>
  The state of the main thread. \<open>sigint_cnt\<close>, a \<^verbatim>\<open>double\<close> that moves in steps of 1 and 0.05,
  is kept in units of 0.05. \<open>stops\<close> counts the calls of \<open>stop_server\<close>, \<open>shutdown_calls\<close>
  those of the server's \<open>shutdownServer\<close>, and \<open>server_exists\<close> says whether the pointer to the
  server is set.
\<close>

record daemon =
  last_signal :: int
  sigint_cnt :: int
  stops :: nat
  server_exists :: bool
  shutdown_calls :: nat

definition signal_handler :: "int \<Rightarrow> daemon \<Rightarrow> daemon" where
  "signal_handler sig d = d\<lparr>last_signal := sig\<rparr>"

definition stop_server :: "daemon \<Rightarrow> daemon" where
  "stop_server d = d\<lparr>stops := stops d + 1, shutdown_calls := shutdown_calls d + 1\<rparr>"

text \<open>
  A task of the group ended with an exception: the server, which runs as one of the tasks, is
  shut down, or \<open>None\<close>, the exception goes on when there is no server yet.
\<close>

definition on_task_error :: "daemon \<Rightarrow> daemon option" where
  "on_task_error d =
     (if server_exists d then Some (d\<lparr>shutdown_calls := shutdown_calls d + 1\<rparr>) else None)"

subsection \<open>The watchdog\<close>

datatype watchdog_end = Too_many_signals | Timed_out | Interrupted

definition watchdog_poll :: "daemon \<Rightarrow> bool \<times> daemon" where
  "watchdog_poll d =
     (if last_signal d = SIGINT \<or> last_signal d = SIGTERM then
        (let d = d\<lparr>last_signal := 0, sigint_cnt := sigint_cnt d + 20\<rparr>
         in (sigint_cnt d > 100, d))
      else (False, d\<lparr>sigint_cnt := max 0 (sigint_cnt d - 1)\<rparr>))"

text \<open>
  Each element of the list is one round of the loop: the signals that arrive while it
  sleeps. The loop has \<open>n\<close> rounds left; the list ends when the task is cancelled, which
  interrupts the sleep.
\<close>

fun watchdog_loop :: "nat \<Rightarrow> int list list \<Rightarrow> daemon \<Rightarrow> watchdog_end \<times> daemon" where
  "watchdog_loop 0 rounds d = (Timed_out, d)"
| "watchdog_loop (Suc n) [] d = (Interrupted, d)"
| "watchdog_loop (Suc n) (sigs # rounds) d =
     (case watchdog_poll (fold signal_handler sigs d) of
        (True, d) \<Rightarrow> (Too_many_signals, d)
      | (False, d) \<Rightarrow> watchdog_loop n rounds d)"

definition sigint_watchdog :: "int list list \<Rightarrow> daemon \<Rightarrow> watchdog_end \<times> daemon" where
  "sigint_watchdog rounds d = watchdog_loop 1200 rounds d"

subsection \<open>The main loop\<close>

text \<open>
  How the process ends: an exit code, or \<^verbatim>\<open>abort\<close>. The watchdog runs while the server stops
  after SIGINT; \<open>rounds\<close> is what it sees until it is cancelled.
\<close>

datatype process_end = Exit_code int | Aborted

definition handle_signal :: "int \<Rightarrow> int list list \<Rightarrow> daemon \<Rightarrow> process_end option \<times> daemon" where
  "handle_signal sig rounds d =
     (if sig = SIGBUS \<or> sig = SIGWINCH then (None, d\<lparr>last_signal := 0\<rparr>)
      else if sig = SIGTERM \<or> sig = SIGHUP then (Some (Exit_code 0), stop_server d)
      else if sig = SIGINT then
        (let d = stop_server (d\<lparr>last_signal := 0\<rparr>)
         in case sigint_watchdog rounds d of
              (Interrupted, d) \<Rightarrow> (Some (Exit_code 0), d)
            | (_, d) \<Rightarrow> (Some Aborted, d))
      else (Some (Exit_code 1), stop_server d))"

text \<open>
  One second of the main loop: the signals that arrived, whether a task was found to have
  failed, and whether the reactor is done. An exception that leaves the loop is caught by
  \<open>main\<close>.
\<close>

record tick =
  tk_signals :: "int list"
  tk_taskError :: bool
  tk_shutdownFinished :: bool
  tk_rounds :: "int list list"

definition main_tick :: "tick \<Rightarrow> daemon \<Rightarrow> process_end option \<times> daemon" where
  "main_tick k d =
     (let d = fold signal_handler (tk_signals k) d
      in case (if tk_taskError k then on_task_error d else Some d) of
           None \<Rightarrow> (Some (Exit_code (- 1)), d)
         | Some d \<Rightarrow>
             (let sig = last_signal d
              in if tk_shutdownFinished k then (Some (Exit_code 0), stop_server d)
                 else if sig \<noteq> 0 then handle_signal sig (tk_rounds k) d
                 else (None, d)))"

text \<open>\<open>None\<close>: the process is still running after these ticks.\<close>

fun main_loop :: "tick list \<Rightarrow> daemon \<Rightarrow> process_end option \<times> daemon" where
  "main_loop [] d = (None, d)"
| "main_loop (k # ks) d =
     (case main_tick k d of
        (Some r, d) \<Rightarrow> (Some r, d)
      | (None, d) \<Rightarrow> main_loop ks d)"

text \<open>
  \<open>main\<close>: the options are parsed, the new-handler is set, the reactor and the server are
  made (either may throw), and the loop runs.
\<close>

definition main :: "bool \<Rightarrow> string \<Rightarrow> bool \<Rightarrow> tick list \<Rightarrow> process_end option \<times> daemon" where
  "main parsed new_handler_name server_made ticks =
     (let d = \<lparr>last_signal = 0, sigint_cnt = 0, stops = 0, server_exists = False,
               shutdown_calls = 0\<rparr> in
      if \<not> parsed then (Some (Exit_code 1), d)
      else
        (case set_new_handler new_handler_name of
           Inl _ \<Rightarrow> (Some (Exit_code (- 1)), d)
         | Inr _ \<Rightarrow>
             if \<not> server_made then (Some (Exit_code (- 1)), d)
             else main_loop ticks (d\<lparr>server_exists := True\<rparr>)))"

subsection \<open>What the daemon does\<close>

text \<open>Both new-handlers end the process, whatever the state of the event limit: the exception
  that \<open>bad_alloc_new_handler\<close> throws is caught by its own function-try-block, so no
  \<^verbatim>\<open>std::bad_alloc\<close> ever reaches the code that asked for memory. The limit on the event
  frequency only decides whether the active requests are printed.\<close>

theorem new_handlers_terminate:
  "nh_outcome (fst (bad_alloc_new_handler now m)) = Terminates \<and>
   nh_outcome terminate_new_handler = Terminates \<and>
   nh_printed (fst (bad_alloc_new_handler now m)) = (fst (check now m) = Inr ())"
  by (cases "check now m"; cases "fst (check now m)")
    (auto simp: bad_alloc_new_handler_def terminate_new_handler_def split: too_many.splits)

lemma fold_signal_handler:
  "fold signal_handler sigs d = (if sigs = [] then d else d\<lparr>last_signal := last sigs\<rparr>)"
  by (induction sigs arbitrary: d) (auto simp: signal_handler_def)

text \<open>What one second of the main loop does with the signals that arrived in it: only the last
  one counts. The loop goes on if that is \<^verbatim>\<open>SIGBUS\<close> or \<^verbatim>\<open>SIGWINCH\<close>, whatever came before it; the
  server is stopped exactly once when the loop ends, and the exit code is 0 for the three
  signals that ask for a shutdown unless the watchdog aborts.\<close>

theorem main_tick_last_signal:
  "main_tick \<lparr>tk_signals = sigs @ [sig], tk_taskError = False, tk_shutdownFinished = False,
      tk_rounds = rounds\<rparr> d =
     (let d' = d\<lparr>last_signal := sig\<rparr> in
      if sig = 0 then (None, d')
      else if sig = SIGBUS \<or> sig = SIGWINCH then (None, d'\<lparr>last_signal := 0\<rparr>)
      else if sig = SIGINT then
        (let w = sigint_watchdog rounds (stop_server (d'\<lparr>last_signal := 0\<rparr>))
         in (Some (if fst w = Interrupted then Exit_code 0 else Aborted), snd w))
      else (Some (Exit_code (if sig = SIGTERM \<or> sig = SIGHUP then 0 else 1)),
            stop_server d'))"
proof -
  have arrive: "fold signal_handler (sigs @ [sig]) d = d\<lparr>last_signal := sig\<rparr>"
    by (simp only: fold_signal_handler) simp
  have "main_tick \<lparr>tk_signals = sigs @ [sig], tk_taskError = False, tk_shutdownFinished = False,
      tk_rounds = rounds\<rparr> d =
      (if sig = 0 then (None, d\<lparr>last_signal := sig\<rparr>) else handle_signal sig rounds (d\<lparr>last_signal := sig\<rparr>))"
    by (simp only: main_tick_def tick.simps arrive Let_def if_False daemon.simps) auto
  then show ?thesis
    by (cases "sigint_watchdog rounds (stop_server (d\<lparr>last_signal := 0\<rparr>))";
        cases "fst (sigint_watchdog rounds (stop_server (d\<lparr>last_signal := 0\<rparr>)))")
      (simp_all add: handle_signal_def Let_def)
qed

lemma sigint_watchdog_keeps:
  "stops (snd (watchdog_loop n rounds d)) = stops d \<and>
   server_exists (snd (watchdog_loop n rounds d)) = server_exists d"
proof (induction n rounds d rule: watchdog_loop.induct)
  case (3 n sigs rounds d)
  have "stops (fold signal_handler sigs d) = stops d"
    "server_exists (fold signal_handler sigs d) = server_exists d"
    by (simp_all add: fold_signal_handler)
  then have "stops (snd (watchdog_poll (fold signal_handler sigs d))) = stops d"
    "server_exists (snd (watchdog_poll (fold signal_handler sigs d))) = server_exists d"
    by (simp_all add: watchdog_poll_def Let_def)
  with 3 show ?case by (cases "watchdog_poll (fold signal_handler sigs d)") (auto split: bool.split)
qed simp_all

text \<open>However the loop ends, the server has been stopped exactly once, and not before.\<close>

lemma main_tick_stops:
  assumes "server_exists d" "main_tick k d = (r, d')"
  shows "stops d' = stops d + (if r = None then 0 else 1) \<and> server_exists d'"
proof -
  define d1 where "d1 = (if tk_taskError k then the (on_task_error (fold signal_handler (tk_signals k) d))
      else fold signal_handler (tk_signals k) d)"
  have d1: "stops d1 = stops d" "server_exists d1"
    using assms(1) by (simp_all add: d1_def on_task_error_def fold_signal_handler)
  have "main_tick k d = (if tk_shutdownFinished k then (Some (Exit_code 0), stop_server d1)
      else if last_signal d1 \<noteq> 0 then handle_signal (last_signal d1) (tk_rounds k) d1 else (None, d1))"
    using assms(1) by (simp add: main_tick_def d1_def on_task_error_def fold_signal_handler Let_def)
  with assms(2) d1 sigint_watchdog_keeps[of 1200 "tk_rounds k" "stop_server (d1\<lparr>last_signal := 0\<rparr>)"]
  show ?thesis
    by (auto simp: handle_signal_def stop_server_def sigint_watchdog_def Let_def
        split: if_splits prod.splits watchdog_end.splits)
qed

lemma main_loop_stops_once:
  assumes "server_exists d" "main_loop ks d = (r, d')"
  shows "stops d' = stops d + (if r = None then 0 else 1)"
  using assms
proof (induction ks arbitrary: d)
  case (Cons k ks)
  obtain r1 d1 where k: "main_tick k d = (r1, d1)" by force
  with Cons main_tick_stops[OF Cons.prems(1) k] show ?case by (cases r1) auto
qed simp

text \<open>A second after which the loop ends: the reactor is done, or the last signal of that second is not
  one of those that are ignored.\<close>

definition ends_server :: "tick \<Rightarrow> bool" where
  "ends_server k \<longleftrightarrow>
     tk_shutdownFinished k \<or>
     tk_signals k \<noteq> [] \<and> last (tk_signals k) \<notin> {0, SIGBUS, SIGWINCH}"

lemma main_tick_ends:
  assumes "server_exists d" "last_signal d = 0" "main_tick k d = (r, d')"
  shows "(r = None \<longleftrightarrow> \<not> ends_server k) \<and> (r = None \<longrightarrow> last_signal d' = 0)"
  using assms
  by (auto simp: main_tick_def on_task_error_def fold_signal_handler handle_signal_def ends_server_def
      Let_def split: if_splits prod.splits watchdog_end.splits)

text \<open>C36. The daemon runs until it is asked to end, and then it stops its server exactly once. Asked means:
  the reactor has shut down, or the last signal of some second is neither \<^verbatim>\<open>SIGBUS\<close> nor
  \<^verbatim>\<open>SIGWINCH\<close>; a SIGTERM followed by one of these in the same second is not noticed. Failed
  tasks shut the server down but do not end the loop.\<close>

theorem daemon_ends_when_asked:
  assumes "set_new_handler name = Inr h" "main True name True ks = (r, d)"
  shows "(r = None \<longleftrightarrow> (\<forall>k \<in> set ks. \<not> ends_server k)) \<and> stops d = (if r = None then 0 else 1)"
proof -
  let ?d = "\<lparr>last_signal = 0, sigint_cnt = 0, stops = 0, server_exists = True, shutdown_calls = 0\<rparr>"
  have loop: "main_loop ks ?d = (r, d)" using assms by (simp add: main_def)
  have "r = None \<longleftrightarrow> (\<forall>k \<in> set ks. \<not> ends_server k)"
    if "main_loop ks d0 = (r, d')" "server_exists d0" "last_signal d0 = 0" for d0 d'
    using that
  proof (induction ks arbitrary: d0)
    case (Cons k ks)
    obtain r1 d1 where k: "main_tick k d0 = (r1, d1)" by force
    with Cons main_tick_ends[OF Cons.prems(2,3) k] main_tick_stops[OF Cons.prems(2) k]
    show ?case by (cases r1) auto
  qed simp
  from this[OF loop] main_loop_stops_once[OF _ loop] show ?thesis by simp
qed

text \<open>A round in which the watchdog sees a signal it counts.\<close>

definition counted_round :: "int list \<Rightarrow> bool" where
  "counted_round sigs \<longleftrightarrow> sigs \<noteq> [] \<and> (last sigs = SIGINT \<or> last sigs = SIGTERM)"

definition stop_signal :: "daemon \<Rightarrow> bool" where
  "stop_signal d \<longleftrightarrow> last_signal d = SIGINT \<or> last_signal d = SIGTERM"

lemma watchdog_poll_round:
  assumes "\<not> stop_signal d" "watchdog_poll (fold signal_handler sigs d) = (aborts, d')"
  shows "\<not> stop_signal d'" "aborts \<Longrightarrow> counted_round sigs \<and> sigint_cnt d' > 100"
    "0 \<le> sigint_cnt d \<Longrightarrow>
       0 \<le> sigint_cnt d' \<and> sigint_cnt d' \<le> sigint_cnt d + (if counted_round sigs then 20 else 0)"
  using assms
  by (auto simp: watchdog_poll_def fold_signal_handler counted_round_def stop_signal_def Let_def
      split: if_splits)

lemma watchdog_loop_counts:
  assumes "\<not> stop_signal d" "0 \<le> sigint_cnt d" "watchdog_loop n rounds d = (r, d')"
  shows "case r of
      Too_many_signals \<Rightarrow> sigint_cnt d + 20 * int (length (filter counted_round (take n rounds))) > 100
    | Timed_out \<Rightarrow> n \<le> length rounds
    | Interrupted \<Rightarrow> length rounds < n"
  using assms
proof (induction n rounds d rule: watchdog_loop.induct)
  case (3 n sigs rounds d)
  obtain aborts d1 where p: "watchdog_poll (fold signal_handler sigs d) = (aborts, d1)" by force
  note round = watchdog_poll_round[OF "3.prems"(1) p] 
  show ?case
  proof (cases aborts)
    case True
    with "3.prems" p round show ?thesis by auto
  next
    case False
    with "3.prems" p have "watchdog_loop n rounds d1 = (r, d')" by simp
    from "3.IH"[OF p[symmetric] _ round(1) _ this] False round(3)[OF "3.prems"(2)]
    show ?thesis by (cases r) auto
  qed
qed auto

text \<open>C37. Once the watchdog runs it ends the process unless it is cancelled: it is interrupted only
  when the shutdown takes less than its 1200 rounds (one minute), and before that it aborts
  only after at least six rounds in which SIGINT or SIGTERM arrived.\<close>

theorem sigint_watchdog_ends:
  assumes "last_signal d = 0" "sigint_cnt d = 0"
  shows "case fst (sigint_watchdog rounds d) of
      Too_many_signals \<Rightarrow> 6 \<le> length (filter counted_round (take 1200 rounds))
    | Timed_out \<Rightarrow> 1200 \<le> length rounds
    | Interrupted \<Rightarrow> length rounds < 1200"
proof -
  obtain r d' where w: "watchdog_loop 1200 rounds d = (r, d')" by force
  have "\<not> stop_signal d" using assms by (simp add: stop_signal_def)
  from watchdog_loop_counts[OF this _ w] assms show ?thesis
    by (cases r) (auto simp: sigint_watchdog_def w)
qed

end
