(* ===== verification/Tester.thy ===== *)
theory Tester
  imports Server "HOL-Library.Multiset"
begin

text \<open>
  \<^verbatim>\<open>loadtest/Tester.cpp\<close>, the load test client: it reads request lines from a file, sends them
  from a pool of threads, keeps a result per answer, reports its progress every five seconds
  and stops on a signal. The network, the clock and the shuffle are arguments.
\<close>

subsection \<open>Reading an answer\<close>

text \<open>\<^verbatim>\<open>boost::algorithm::split\<close> with \<^verbatim>\<open>token_compress_on\<close>: runs of separators count as one.\<close>

function split_runs :: "(char \<Rightarrow> bool) \<Rightarrow> string \<Rightarrow> string list" where
  "split_runs sep s =
     (if \<exists>c \<in> set s. sep c
      then takeWhile (\<lambda>c. \<not> sep c) s # split_runs sep (dropWhile sep (dropWhile (\<lambda>c. \<not> sep c) s))
      else [s])"
  by pat_completeness auto
termination
proof (relation "measure (\<lambda>(sep, s). length s)", goal_cases)
  case (2 sep s)
  then have "dropWhile (\<lambda>c. \<not> sep c) s \<noteq> []" by (simp add: dropWhile_eq_Nil_conv)
  then obtain c r where d: "dropWhile (\<lambda>c. \<not> sep c) s = c # r" by (cases "dropWhile (\<lambda>c. \<not> sep c) s") auto
  then have "sep c" by (metis hd_dropWhile list.distinct(1) list.sel(1))
  moreover have "length (dropWhile sep r) \<le> length r" by (rule length_dropWhile_le)
  moreover have "length (c # r) \<le> length s" using length_dropWhile_le[of "\<lambda>c. \<not> sep c" s] d by simp
  ultimately show ?case using d by simp
qed simp

declare split_runs.simps [simp del]

definition is_line_break :: "char \<Rightarrow> bool" where
  "is_line_break c \<longleftrightarrow> c = CHR 0x0D \<or> c = CHR 0x0A"

definition is_space :: "char \<Rightarrow> bool" where
  "is_space c \<longleftrightarrow> c \<in> {CHR '' '', CHR 0x09, CHR 0x0A, CHR 0x0B, CHR 0x0C, CHR 0x0D}"

definition replace_char :: "char \<Rightarrow> char \<Rightarrow> string \<Rightarrow> string" where
  "replace_char a b s = map (\<lambda>c. if c = a then b else c) s"

definition parseStatus :: "string \<Rightarrow> string \<times> string" where
  "parseStatus message =
     (let (header_end, body_begin) =
        (case find_str message (crlf @ crlf) 0 of
           None \<Rightarrow> (length message, length message) | Some i \<Rightarrow> (i, i + 4));
          headerTokens = split_runs is_line_break (take header_end message);
          statusLineTokens = split_runs is_space (hd headerTokens);
          messageBody = replace_char (CHR 0x0D) (CHR '' '')
            (replace_char (CHR 0x0A) (CHR '' '') (drop body_begin message))
      in if 1 < length statusLineTokens then (statusLineTokens ! 1, messageBody) else ([], []))"

subsection \<open>Requests and results\<close>

record load_request =
  tr_hostName :: string
  tr_port :: "16 word"
  tr_URI :: string

record load_result =
  res_time :: int
  res_URI :: string
  res_duration :: int
  res_status :: string
  res_response :: string

text \<open>A line of the progress report: the number of results it is about and their mean time.\<close>

datatype progress = Completed nat u64 | No_completed_requests

text \<open>
  Durations and times are in microseconds. \<open>printed\<close> is what \<^verbatim>\<open>printProgress\<close> has written on
  the error stream so far.
\<close>

record tester =
  itsHostName :: string
  itsPort :: "32 word"
  itsRequests :: "load_request list"
  itsResults :: "load_result list"
  itsCurrentResultInd :: nat
  itsPrintResults :: bool
  scheduled :: "load_request list"
  timer_armed :: bool
  io_stopped :: bool
  pool_shut_down :: bool
  sent :: "string list"
  printed :: "progress list"

definition request_line :: "string \<Rightarrow> string" where
  "request_line uri = ''GET '' @ uri @ '' HTTP/1.0''"

definition request_text :: "string \<Rightarrow> string" where
  "request_text uri = request_line uri @ crlf @ crlf"

text \<open>\<open>shuffle\<close> is what \<^verbatim>\<open>random_shuffle\<close> does to the list; \<open>None\<close>: the file cannot be opened.\<close>

definition readReqFile ::
  "(load_request list \<Rightarrow> load_request list) \<Rightarrow> string list option \<Rightarrow> tester \<Rightarrow> tester" where
  "readReqFile shuffle lines t =
     (case lines of
        None \<Rightarrow> t
      | Some ls \<Rightarrow>
          t\<lparr>itsRequests := shuffle (itsRequests t @
              map (\<lambda>line. \<lparr>tr_hostName = itsHostName t, tr_port = ucast (itsPort t),
                           tr_URI = replace_char (CHR '' '') (CHR ''+'') line\<rparr>) ls)\<rparr>)"

datatype tester_error = Request_file_not_found | Connection_failed

definition construct_Tester ::
  "(load_request list \<Rightarrow> load_request list) \<Rightarrow> bool \<Rightarrow> string list option \<Rightarrow> string \<Rightarrow>
   16 word \<Rightarrow> tester_error + tester" where
  "construct_Tester shuffle file_exists lines hostname prt =
     (if \<not> file_exists then Inl Request_file_not_found
      else
        (let t = \<lparr>itsHostName = hostname, itsPort = ucast prt, itsRequests = [], itsResults = [],
                  itsCurrentResultInd = 0, itsPrintResults = False, scheduled = [],
                  timer_armed = False, io_stopped = False, pool_shut_down = False, sent = [],
                  printed = []\<rparr>;
             t = readReqFile shuffle lines t
         in Inr (t\<lparr>scheduled := itsRequests t\<rparr>)))"

text \<open>
  What the network answers: resolving or connecting throws, the write fails, or so many bytes
  are read (none when the read fails), at most the 512 of the buffer.
\<close>

datatype exchange = Not_connected | Write_failed | Received string

definition performRequest ::
  "exchange \<Rightarrow> int \<Rightarrow> int \<Rightarrow> load_request \<Rightarrow> tester \<Rightarrow> tester_error + tester" where
  "performRequest answer before after theReq t =
     (case answer of
        Not_connected \<Rightarrow> Inl Connection_failed
      | Write_failed \<Rightarrow> Inr (t\<lparr>sent := sent t @ [request_text (tr_URI theReq)]\<rparr>)
      | Received bytes \<Rightarrow>
          (let parsedResult = parseStatus (take 512 bytes);
               t = t\<lparr>sent := sent t @ [request_text (tr_URI theReq)]\<rparr>
           in Inr (t\<lparr>itsResults := itsResults t @
                [\<lparr>res_time = before, res_URI = tr_URI theReq, res_duration = after - before,
                  res_status = fst parsedResult, res_response = snd parsedResult\<rparr>]\<rparr>)))"

text \<open>The remote is probed with a request for the root; a read of less than eight bytes throws.\<close>

definition probeRemote :: "exchange \<Rightarrow> tester \<Rightarrow> tester_error + tester" where
  "probeRemote answer t =
     (case answer of
        Not_connected \<Rightarrow> Inl Connection_failed
      | Write_failed \<Rightarrow> Inl Connection_failed
      | Received bytes \<Rightarrow>
          if length bytes < 8 then Inl Connection_failed
          else Inr (t\<lparr>sent := sent t @ [request_text ''/'']\<rparr>))"

text \<open>\<open>run\<close> arms the progress timer; what the pool does comes as events.\<close>

definition run_Tester :: "tester \<Rightarrow> tester" where
  "run_Tester t = t\<lparr>timer_armed := True\<rparr>"

definition handleSignal :: "int \<Rightarrow> tester \<Rightarrow> tester" where
  "handleSignal signal_number t =
     (let t = t\<lparr>io_stopped := True, pool_shut_down := True\<rparr>
      in if signal_number = 3 then t\<lparr>itsPrintResults := True\<rparr> else t)"

subsection \<open>Progress\<close>

text \<open>
  The sum is a \<^verbatim>\<open>long\<close>, the count a \<^verbatim>\<open>std::size_t\<close>: the division is the unsigned one, and its
  result is read as signed again.
\<close>

definition total_milliseconds :: "load_result \<Rightarrow> int" where
  "total_milliseconds r = (if res_duration r \<ge> 0 then res_duration r div 1000 else - (- res_duration r div 1000))"

definition average_duration :: "load_result list \<Rightarrow> u64" where
  "average_duration rs =
     fold (\<lambda>r sum. sum + word_of_int (total_milliseconds r)) rs 0 div word_of_nat (length rs)"

text \<open>The timer is armed again unless the wait was aborted; nothing is printed then.\<close>

definition printProgress :: "error_code \<Rightarrow> tester \<Rightarrow> tester" where
  "printProgress err t =
     (if err \<noteq> Operation_aborted then
        (let theseResults = drop (itsCurrentResultInd t) (itsResults t);
             t = t\<lparr>itsCurrentResultInd := length (itsResults t)\<rparr>;
             t = t\<lparr>printed := printed t @
                   [if theseResults \<noteq> []
                    then Completed (length theseResults) (average_duration theseResults)
                    else No_completed_requests]\<rparr>
         in t\<lparr>timer_armed := True\<rparr>)
      else t)"

text \<open>The output operators; how times and durations are printed is Fmi's.\<close>

definition show_request :: "load_request \<Rightarrow> string" where
  "show_request r = tr_hostName r @ '':'' @ decimal (unat (tr_port r)) @ tr_URI r"

definition show_result :: "(int \<Rightarrow> string) \<Rightarrow> (int \<Rightarrow> string) \<Rightarrow> load_result \<Rightarrow> string" where
  "show_result show_time show_duration r =
     show_time (res_time r) @ ''###'' @ res_URI r @ ''###'' @ show_duration (res_duration r) @ ''###'' @
     res_status r @ ''###'' @ res_response r"

definition printResults :: "(int \<Rightarrow> string) \<Rightarrow> (int \<Rightarrow> string) \<Rightarrow> tester \<Rightarrow> string list" where
  "printResults show_time show_duration t = map (show_result show_time show_duration) (itsResults t)"

definition dumpRequests :: "tester \<Rightarrow> string list" where
  "dumpRequests t = map show_request (itsRequests t)"

subsection \<open>The program\<close>

text \<open>
  What happens while \<open>run\<close> waits for the pool: a thread has its answer, the timer fires, a
  signal arrives. The last two are handled by the thread of the \<^verbatim>\<open>io_context\<close>, until it is
  stopped; threads of the pool still finish what they have begun.
\<close>

datatype tester_event =
  Answered exchange int int load_request | Progress_timer error_code | Signal int

definition tester_event :: "tester_event \<Rightarrow> tester \<Rightarrow> tester" where
  "tester_event ev t =
     (case ev of
        Answered answer before after req \<Rightarrow>
          (case performRequest answer before after req t of Inl _ \<Rightarrow> t | Inr t' \<Rightarrow> t')
      | Progress_timer err \<Rightarrow>
          if timer_armed t \<and> \<not> io_stopped t then printProgress err (t\<lparr>timer_armed := False\<rparr>) else t
      | Signal sig \<Rightarrow> if \<not> io_stopped t then handleSignal sig t else t)"

text \<open>The exit code, and the results printed at the end; an exception ends the program.\<close>

definition tester_main ::
  "(int \<Rightarrow> string) \<Rightarrow> (int \<Rightarrow> string) \<Rightarrow> bool \<Rightarrow> bool \<Rightarrow> tester_error + tester \<Rightarrow> exchange \<Rightarrow>
   tester_event list \<Rightarrow> tester_error + int \<times> string list" where
  "tester_main show_time show_duration help suite_given made probe events =
     (if help then Inr (1, [])
      else if \<not> suite_given then Inr (1, [])
      else
        (case made of
           Inl err \<Rightarrow> Inl err
         | Inr t \<Rightarrow>
             (case probeRemote probe t of
                Inl err \<Rightarrow> Inl err
              | Inr t \<Rightarrow>
                  (let t = fold tester_event events (run_Tester t)
                   in Inr (0, if itsPrintResults t then printResults show_time show_duration t else [])))))"

subsection \<open>Answers\<close>

lemma split_runs_none: "\<forall>c \<in> set s. \<not> sep c \<Longrightarrow> split_runs sep s = [s]"
  by (subst split_runs.simps) simp

lemma split_runs_sep:
  assumes "\<forall>c \<in> set a. \<not> sep c" "sep x"
  shows "split_runs sep (a @ x # b) = a # split_runs sep (dropWhile sep b)"
proof -
  have "takeWhile (\<lambda>c. \<not> sep c) (a @ x # b) = a" "dropWhile (\<lambda>c. \<not> sep c) (a @ x # b) = x # b"
    using assms by (simp_all add: takeWhile_append2 dropWhile_append2)
  then show ?thesis using assms(2) by (subst split_runs.simps) auto
qed

lemma hd_split_runs:
  assumes "\<forall>c \<in> set a. \<not> sep c" "b = [] \<or> sep (hd b)"
  shows "hd (split_runs sep (a @ b)) = a"
  using assms split_runs_sep[OF assms(1), of "hd b" "tl b"]
  by (cases b) (simp_all add: split_runs_none)

lemma parseStatus_found:
  assumes "find_str m (crlf @ crlf) 0 = Some i" "hd (split_runs is_line_break (take i m)) = line"
    and "split_runs is_space line = v # code # rest" "drop (i + 4) m = body"
  shows "parseStatus m =
    (code, replace_char (CHR 0x0D) (CHR '' '') (replace_char (CHR 0x0A) (CHR '' '') body))"
  using assms by (simp add: parseStatus_def)

text \<open>C39. The status code and the body of an answer: for a status line of a version, a code and a
  reason, any header fields and any body, \<open>parseStatus\<close> gives the code and the body with its
  line breaks turned to spaces.\<close>

theorem parseStatus_reads_answer:
  assumes "v \<noteq> []" "\<forall>c \<in> set (v @ code). \<not> is_space c" "\<forall>c \<in> set reason. \<not> is_line_break c"
    and "\<forall>nv \<in> set hs. field_ok nv" "code \<noteq> []"
  shows "parseStatus (request_head (v @ '' '' @ code @ '' '' @ reason) hs @ body) =
    (code, map (\<lambda>c. if is_line_break c then CHR '' '' else c) body)"
proof -
  let ?line = "v @ '' '' @ code @ '' '' @ reason"
  have nb: "\<forall>c \<in> set ?line. \<not> is_line_break c"
    using assms(2,3) by (auto simp: is_space_def is_line_break_def)
  then have cr: "no_cr ?line" by (auto simp: no_cr_def is_line_break_def)
  let ?i = "length ?line + length (field_lines hs)"
  have i: "find_str (request_head ?line hs @ body) (crlf @ crlf) 0 = Some ?i"
    by (rule find_head_end[OF cr assms(4)])
  have "take ?i (request_head ?line hs @ body) =
      ?line @ take (length (field_lines hs)) (crlf @ field_lines hs @ crlf @ body)"
    by (simp add: request_head_def)
  moreover have "take (length (field_lines hs)) (crlf @ x) = [] \<or>
      is_line_break (hd (take (length (field_lines hs)) (crlf @ x)))" for x
    by (cases "length (field_lines hs)") (simp_all add: crlf_def is_line_break_def)
  ultimately have head: "hd (split_runs is_line_break (take ?i (request_head ?line hs @ body))) = ?line"
    using hd_split_runs[OF nb] by (simp only:)
  obtain c cs where code: "code = c # cs" "\<not> is_space c" using assms(2,5) by (cases code) auto
  have "split_runs is_space ?line = v # code # split_runs is_space (dropWhile is_space reason)"
    using split_runs_sep[of v is_space "CHR '' ''" "code @ '' '' @ reason"]
      split_runs_sep[of code is_space "CHR '' ''" reason] assms(2) code
    by (simp add: is_space_def)
  moreover have "length (request_head ?line hs) = ?i + 4" by (simp add: request_head_def)
  then have "drop (?i + 4) (request_head ?line hs @ body) = body" by (metis append_eq_conv_conj)
  ultimately have "parseStatus (request_head ?line hs @ body) =
      (code, replace_char (CHR 0x0D) (CHR '' '') (replace_char (CHR 0x0A) (CHR '' '') body))"
    by (rule parseStatus_found[OF i head])
  moreover have "replace_char (CHR 0x0D) (CHR '' '') (replace_char (CHR 0x0A) (CHR '' '') body) =
      map (\<lambda>c. if is_line_break c then CHR '' '' else c) body"
    by (simp add: replace_char_def is_line_break_def)
  ultimately show ?thesis by (simp only:)
qed

subsection \<open>The requests\<close>

lemma split_on_none: "c \<notin> set s \<Longrightarrow> split_on c s = [s]"
  by (subst split_on_takeWhile) (simp add: takeWhile_eq_all_conv)

lemma split_on_first: "c \<notin> set a \<Longrightarrow> split_on c (a @ c # b) = a # split_on c b"
  by (induction a) auto

lemma request_line_splits:
  assumes "CHR '' '' \<notin> set uri"
  shows "split_on CHR '' '' (request_line uri) = [''GET'', uri, ''HTTP/1.0'']"
  using assms split_on_first[of "CHR '' ''" "''GET''" "uri @ '' HTTP/1.0''"]
    split_on_first[of "CHR '' ''" uri "''HTTP/1.0''"] by (simp add: split_on_none request_line_def)

text \<open>Every line of the request file becomes one scheduled request, and its request line has the
  three parts of the protocol however many spaces the line of the file had.\<close>

theorem every_line_is_requested:
  assumes "construct_Tester shuffle file_exists (Some ls) hostname prt = Inr t"
    and "\<forall>xs. mset (shuffle xs) = mset xs"
  shows "mset (map tr_URI (scheduled t)) = mset (map (replace_char (CHR '' '') (CHR ''+'')) ls) \<and>
    (\<forall>r \<in> set (scheduled t). tr_port r = prt \<and> tr_hostName r = hostname \<and>
      split_on CHR '' '' (request_line (tr_URI r)) = [''GET'', tr_URI r, ''HTTP/1.0''])"
proof -
  have "ucast (ucast prt :: 32 word) = prt" by (rule ucast_up_ucast_id) (simp add: is_up)
  let ?rs = "map (\<lambda>line. \<lparr>tr_hostName = hostname, tr_port = prt,
    tr_URI = replace_char (CHR '' '') (CHR ''+'') line\<rparr>) ls"
  have t: "scheduled t = shuffle ?rs"
    using assms(1) \<open>ucast (ucast prt :: 32 word) = prt\<close>
    by (auto simp: construct_Tester_def readReqFile_def Let_def split: if_splits)
  have m: "mset (shuffle ?rs) = mset ?rs" using assms(2) by blast
  have "mset (map tr_URI (shuffle ?rs)) = image_mset tr_URI (mset ?rs)" unfolding m[symmetric] by simp
  then have u: "mset (map tr_URI (shuffle ?rs)) = mset (map (replace_char (CHR '' '') (CHR ''+'')) ls)"
    by (simp add: image_mset.compositionality comp_def)
  have s: "set (shuffle ?rs) = set ?rs" using m by (rule mset_eq_setD)
  have "tr_port r = prt \<and> tr_hostName r = hostname \<and>
      split_on CHR '' '' (request_line (tr_URI r)) = [''GET'', tr_URI r, ''HTTP/1.0'']"
    if r: "r \<in> set ?rs" for r
  proof -
    from r have "CHR '' '' \<notin> set (tr_URI r)" by (auto simp: replace_char_def)
    from request_line_splits[OF this] r show ?thesis by (simp only:) auto
  qed
  then show ?thesis unfolding t s using u by blast
qed

subsection \<open>Progress reports\<close>

text \<open>What a report about given results says.\<close>

definition report_of :: "load_result list \<Rightarrow> progress" where
  "report_of rs = (if rs = [] then No_completed_requests else Completed (length rs) (average_duration rs))"

text \<open>An event adds results, or prints one report about all those not reported yet.\<close>

lemma tester_event_reports:
  "\<exists>rs slices. itsResults (tester_event ev t) = itsResults t @ rs \<and>
    printed (tester_event ev t) = printed t @ map report_of slices \<and>
    (slices = [] \<and> itsCurrentResultInd (tester_event ev t) = itsCurrentResultInd t \<or>
     slices = [drop (itsCurrentResultInd t) (itsResults t)] \<and> rs = [] \<and>
       itsCurrentResultInd (tester_event ev t) = length (itsResults t))"
proof -
  let ?now = "\<exists>err. ev = Progress_timer err \<and> err \<noteq> Operation_aborted \<and> timer_armed t \<and> \<not> io_stopped t"
  show ?thesis
  proof (cases ?now)
    case True
    then show ?thesis
      by (intro exI[of _ "[]"] exI[of _ "[drop (itsCurrentResultInd t) (itsResults t)]"])
        (auto simp: tester_event_def printProgress_def report_of_def Let_def)
  next
    case False
    then have "printed (tester_event ev t) = printed t \<and>
        itsCurrentResultInd (tester_event ev t) = itsCurrentResultInd t \<and>
        (\<exists>rs. itsResults (tester_event ev t) = itsResults t @ rs)"
      by (cases ev) (auto simp: tester_event_def performRequest_def printProgress_def handleSignal_def
          Let_def split: exchange.split)
    then show ?thesis by force
  qed
qed

lemma fold_results: "\<exists>rs. itsResults (fold tester_event evs t) = itsResults t @ rs"
proof (induction evs arbitrary: t)
  case (Cons ev evs)
  then show ?case using tester_event_reports[of ev t] by (metis append.assoc fold_simps(2))
qed simp

text \<open>C40. The progress reports count every result exactly once and in order, however the answers of
  the threads, the timer and the signals interleave: the lines printed are those for
  consecutive slices of the results, each with the length and the mean time of its slice, and
  the slices, followed by the results not reported yet, are the results obtained since the
  start.\<close>

theorem progress_counts_each_result_once:
  assumes "itsCurrentResultInd t \<le> length (itsResults t)"
  shows "let t' = fold tester_event evs t in
    itsCurrentResultInd t' \<le> length (itsResults t') \<and>
    (\<exists>slices. printed t' = printed t @ map report_of slices \<and>
      drop (itsCurrentResultInd t) (itsResults t') =
        concat slices @ drop (itsCurrentResultInd t') (itsResults t'))"
  using assms
proof (induction evs arbitrary: t)
  case Nil
  then show ?case by (auto intro!: exI[of _ "[]"])
next
  case (Cons ev evs)
  let ?u = "tester_event ev t" and ?t' = "fold tester_event evs (tester_event ev t)"
  obtain rs new where u: "itsResults ?u = itsResults t @ rs" "printed ?u = printed t @ map report_of new"
    "new = [] \<and> itsCurrentResultInd ?u = itsCurrentResultInd t \<or>
     new = [drop (itsCurrentResultInd t) (itsResults t)] \<and> rs = [] \<and>
       itsCurrentResultInd ?u = length (itsResults t)"
    using tester_event_reports[of ev t] by blast
  have "itsCurrentResultInd ?u \<le> length (itsResults ?u)" using u Cons.prems by auto
  note IH = Cons.IH[OF this, unfolded Let_def]
  then obtain slices where slices: "printed ?t' = printed ?u @ map report_of slices"
    "drop (itsCurrentResultInd ?u) (itsResults ?t') =
      concat slices @ drop (itsCurrentResultInd ?t') (itsResults ?t')" by blast
  obtain more where more: "itsResults ?t' = itsResults ?u @ more" using fold_results by blast
  have "drop (itsCurrentResultInd t) (itsResults ?t') =
      concat new @ drop (itsCurrentResultInd ?u) (itsResults ?t')"
    using u Cons.prems by (auto simp: more)
  with IH slices u(2) show ?case by (auto intro!: exI[of _ "new @ slices"])
qed

text \<open>The average of a report is the mean of the durations in milliseconds, rounded down, as long as
  none is negative and their sum fits; the unsigned division is then harmless.\<close>

theorem average_is_mean:
  assumes "\<forall>r \<in> set rs. 0 \<le> total_milliseconds r" "rs \<noteq> []"
    and "sum_list (map total_milliseconds rs) < 2 ^ 63" "int (length rs) < 2 ^ 64"
  shows "uint (average_duration rs) = sum_list (map total_milliseconds rs) div int (length rs)"
proof -
  have f: "fold (\<lambda>r sum. sum + word_of_int (total_milliseconds r)) rs w =
      w + word_of_int (sum_list (map total_milliseconds rs))" for w :: u64
    by (induction rs arbitrary: w) simp_all
  have "0 \<le> sum_list (map total_milliseconds rs)" using assms(1) by (intro sum_list_nonneg) auto
  then have "uint (word_of_int (sum_list (map total_milliseconds rs)) :: u64) =
      sum_list (map total_milliseconds rs)"
    using assms(3) by (simp add: uint_word_of_int)
  moreover have "uint (word_of_nat (length rs) :: u64) = int (length rs)"
    using assms(4) by (simp add: uint_nat unat_of_nat take_bit_nat_eq_self_iff)
  ultimately show ?thesis by (simp add: average_duration_def f uint_div)
qed

end
