(* ===== verification/Witnesses.thy ===== *)
theory Witnesses
  imports Sample_Runs Exchange_Rules Conn_Calls Conn_Fresh Conn_Endings Conn_Liveness Conn_Delivery Conn_Pipelining
    Server_Rules Server_Connections
    Server_Lifecycle Daemon Tester
begin

text \<open>
  The theorems that have hypotheses, applied to concrete inputs on the instance
  \<open>sample_spine\<close>.
\<close>

lemma sample_expect_value:
  "expect_value [(''Host'', '' x''), (''eXpect'', '' 100-continue '')] = ''100-continue''"
  "expect_value [(''Expect'', ''100-continue'')] = ''100-continue''"
  by code_simp+

theorem peekRequestHead_complete_witness:
  "let head = request_head (''POST /a '' @ ''HTTP/'' @ ''1.1'') [(''Host'', '' x''), (''eXpect'', '' 100-continue '')] in
     (\<forall>n < length head. peekRequestHead sample_spine (take n head) = empty_head) \<and>
     peekRequestHead sample_spine (head @ ''body'') =
       \<lparr>head_complete = True, head_version = ''1.1'', head_expect = ''100-continue''\<rparr>"
  unfolding sample_expect_value(1)[symmetric]
  by (rule peekRequestHead_complete[OF sample_lowers]) (simp_all add: no_cr_def field_ok_def)

subsection \<open>Connections\<close>

theorem one_operation_at_a_time_witness:
  "length (filter (\<lambda>p. \<not> is_timer p) (pending (queued ''/a''))) \<le> 1"
  by (rule one_operation_at_a_time[OF reach_queued])

theorem handler_starts_fresh_witness:
  "itsResponse (queued ''/a'') = new_Response sample_spine \<and> itsResponseString (queued ''/a'') = [] \<and>
   \<not> itsHeadRequest answered \<and> \<not> itsExpectHandled answered \<and> itsResponseString answered = []"
proof -
  have "Pending_job Slow_pool (Handle_request plain_handler) \<in> set (pending (queued ''/a''))"
    "\<not> hasTimedOut (queued ''/a'')"
    by (simp_all add: queued_eq queued_state_def started_eq)
  moreover have "Pending_read \<in> set (pending answered)" "itsBuffer answered = []"
    unfolding answered_def answering_a
    by (simp_all add: writeRegularReply_def written_def Let_def notifyBackendFinished_def
        sample_fields finishResponse_def handled_fields sample_env_def armTimer_def add_pending_def
        startRead_def plain_response_def no_response_def)
  ultimately show ?thesis
    using handler_starts_fresh[OF reach_queued, of _ "''/a''" Slow_pool plain_handler]
      handler_starts_fresh[OF reach_answered, of Pending_read] by auto
qed

theorem requests_capped_witness:
  "itsRequestCount (answering ''/a'') \<le> 1000 \<and>
   plugin_calls (hooks (answering ''/a'')) \<le> 1 \<and> itsRequestCount (answering ''/a'') < 1000"
proof -
  have "itsMaxKeepAliveRequests (answering ''/a'') = 1000" "itsKeepAlive (answering ''/a'')"
    "itsRequestCount (answering ''/a'') = 1"
    by (simp_all add: answering_a handled_fields)
  with requests_capped[OF reach_answering] show ?thesis by simp
qed

theorem disconnect_watch_never_armed_witness:
  "Pending_disconnect_read \<notin> set (pending (queued ''/a'')) \<and>
   \<not> itsPrematurelyDisconnected (queued ''/a'')"
  by (rule disconnect_watch_never_armed[OF reach_queued])

theorem timer_lock_safe_witness: "\<not> deadlocked answered \<and> \<not> lockHeld answered"
  by (rule timer_lock_safe[OF reach_answered])

subsection \<open>The protocol\<close>

lemma reach_answering_chunked: "reachable sample_spine sample_server (answering ''/chunked'')"
  unfolding answering_def
  by (rule reach_event[OF reach_queued]) (simp_all add: queued_eq queued_state_def)

text \<open>A chunked response from its first piece to the next request.\<close>

definition chunked_events ::
  "((sample_request, sample_response, sample_handler) env \<times> sample_handler event) list" where
  "chunked_events = map (Pair sample_env)
     [Job_run Slow_pool Next_chunked_chunk, Write_done Chunked_writer 0 Success 8,
      Job_run Slow_pool Next_chunked_chunk, Write_done Chunked_writer 0 Success 10,
      Job_run Slow_pool Next_chunked_chunk, Write_done Final_writer 0 Success 5]"

lemma chunked_run:
  "\<exists>t. run_events sample_spine sample_server chunked_events (answering ''/chunked'') = Some t \<and>
     phase_of t = Reading"
  by (simp add: chunked_events_def dispatch_def answering_chunked handled_fields Let_def stream_steps
      sample_fields sample_content_def chunked_response_def no_response_def add_pending_def
      async_write_some_def complete_def written_def writeChunkedReply_def finalizeChunkedReply_def
      chunk_frame_def last_chunk_def convertToHex_def hex.simps crlf_def sample_env_def
      notifyBackendFinished_def finalizeStreamLogging_def finishResponse_def armTimer_def startRead_def
      phase_of_def)

theorem chunked_body_is_ended_witness:
  "\<exists>evs1 ev evs2 u v before. chunked_events = evs1 @ ev # evs2 \<and>
     run_events sample_spine sample_server evs1 (answering ''/chunked'') = Some u \<and>
     phase_of u = Sending Final_writer \<and> run_events sample_spine sample_server [ev] u = Some v \<and>
     phase_of v = Reading \<and> wire v = before @ last_chunk"
proof -
  have "in_chunked_body (phase_of (answering ''/chunked''))"
    by (simp add: in_chunked_body_def phase_of_def answering_chunked handled_fields)
  with chunked_run chunked_body_is_ended[OF reach_answering_chunked] show ?thesis by blast
qed

theorem connection_follows_protocol_witness:
  "phase_of (queued ''/a'') \<in> moves (phase_of started_connection) \<and>
   reach phase_start phase_step (phase_of (queued ''/a''))"
proof -
  have "dispatch sample_spine sample_server sample_env (Read_done Success (sample_bytes ''/a''))
      started_connection = Some (queued ''/a'')"
    by (simp add: dispatch_def queued_def started_eq)
  from connection_follows_protocol[OF reach_started handler_step[OF this]] show ?thesis by simp
qed

theorem responses_sent_whole_witness:
  "\<exists>before after. wire answered = before @ (head_text plain_response @ ''hello'') @ after"
proof -
  let ?n = "length (itsResponseString (answering ''/a''))"
  have "dispatch sample_spine sample_server sample_env (Write_done Regular_writer 0 Success ?n)
      (answering ''/a'') = Some answered"
    by (simp add: dispatch_def answered_def) (simp add: answering_a handled_fields)
  from responses_sent_whole[OF reach_answering handler_step[OF this]] show ?thesis
    by (simp add: answering_a)
qed


subsection \<open>Pipelining\<close>

lemma sample_parses_alone: "parses_alone sample_spine (sample_bytes ''/a'') (sample_bytes ''/a'')"
proof -
  have "sample_parse (sample_bytes ''/a'' @ sample_bytes ''/a'') = parsed ''/a''" by code_simp
  then show ?thesis by (simp add: parses_alone_def sample_fields sample_parsed) (simp add: parsed_def)
qed

definition answer_events ::
  "((sample_request, sample_response, sample_handler) env \<times> sample_handler event) list" where
  "answer_events =
     [(sample_env, Job_run Slow_pool (Handle_request plain_handler)),
      (sample_env, Write_done Regular_writer 0 Success (length (itsResponseString (answering ''/a''))))]"

lemma two_requests_run:
  "run_events sample_spine sample_server
     ((sample_env, Read_done Success (sample_bytes ''/a'')) # answer_events @
      [(sample_env, Read_done Success (sample_bytes ''/a''))]) started_connection =
   Some (run_handler sample_spine sample_env sample_server (Read_done Success (sample_bytes ''/a'')) answered)"
proof -
  have "dispatch sample_spine sample_server sample_env (Read_done Success (sample_bytes ''/a''))
      started_connection = Some (queued ''/a'')"
    by (simp add: dispatch_def queued_def started_eq)
  moreover have "dispatch sample_spine sample_server sample_env
      (Job_run Slow_pool (Handle_request plain_handler)) (queued ''/a'') = Some (answering ''/a'')"
    by (simp add: dispatch_def answering_def) (simp add: queued_eq queued_state_def)
  moreover have "dispatch sample_spine sample_server sample_env
      (Write_done Regular_writer 0 Success (length (itsResponseString (answering ''/a''))))
      (answering ''/a'') = Some answered"
    by (simp add: dispatch_def answered_def) (simp add: answering_a handled_fields)
  moreover have "Pending_read \<in> set (pending answered)"
    unfolding answered_def answering_a
    by (simp add: writeRegularReply_def written_def Let_def notifyBackendFinished_def
        sample_fields finishResponse_def handled_fields sample_env_def armTimer_def add_pending_def
        startRead_def plain_response_def no_response_def)
  ultimately show ?thesis by (simp add: answer_events_def dispatch_def)
qed

theorem pipelining_is_transparent_witness:
  "\<exists>t'. run_events sample_spine sample_server
     ((sample_env, Read_done Success (sample_bytes ''/a'' @ sample_bytes ''/a'')) # answer_events @
      [(sample_env, Posted_run)]) started_connection = Some t' \<and>
     same_but_timers t' (run_handler sample_spine sample_env sample_server
       (Read_done Success (sample_bytes ''/a'')) answered)"
proof -
  let ?xs = "[(sample_env, sample_bytes ''/a'', answer_events), (sample_env, sample_bytes ''/a'', [])]"
  have run: "run_events sample_spine sample_server (waiting_events ?xs) started_connection =
      Some (run_handler sample_spine sample_env sample_server
        (Read_done Success (sample_bytes ''/a'')) answered)"
    using two_requests_run by simp
  have "list_all exchange_ok ?xs"
    by (simp add: exchange_ok_def answer_events_def sample_env_def)
  moreover have "parse_each sample_spine (itsBuffer started_connection) (requests_of ?xs)"
    using sample_parses_alone by (simp add: started_eq)
  moreover have "itsMaxRequestSize started_connection = 0 \<or> itsReceivedBytes started_connection +
      length (concat (requests_of ?xs)) \<le> itsMaxRequestSize started_connection"
    by (simp add: started_eq length_sample_bytes)
  moreover have "[] \<notin> set (requests_of (tl ?xs))" "Pending_read \<in> set (pending started_connection)"
    by (simp_all add: sample_bytes_def started_eq)
  ultimately show ?thesis
    using pipelining_is_transparent[OF reach_started _ _ _ _ _ _ run] by simp
qed

subsection \<open>Responses\<close>

theorem regular_reply_delivered_witness:
  "\<exists>t. run_events sample_spine sample_server
      (write_events sample_env Regular_writer 0
        [2, length (itsResponseString (answering ''/a'')) - 2]) (answering ''/a'') = Some t \<and>
    wire t = head_text plain_response @ ''hello''"
proof -
  have "splits [2, length (itsResponseString (answering ''/a'')) - 2]
      (itsResponseString (answering ''/a''))"
    by (simp add: splits_def answering_a)
  from regular_reply_delivered[OF _ _ _ this, of sample_spine sample_server sample_env] show ?thesis
    by (simp add: answering_a handled_fields)
qed

lemma sample_accepts: "accepts pool sample_env"
  by (simp add: accepts_def sample_env_def)

theorem chunked_reply_delivered_witness:
  "\<exists>t body. run_events sample_spine sample_server
      (stream_events Slow_pool Next_chunked_chunk Chunked_writer
        [(sample_env, [3, 5]), (sample_env, [10])] @
       (sample_env, Job_run Slow_pool Next_chunked_chunk) # write_events sample_env Final_writer 0 [5])
      (answering ''/chunked'') = Some t \<and>
    wire t = head_text (chunked_response [[], ''abc'', ''defgh'']) @ body \<and>
    dechunk body = Some (''abcdefgh'', [])"
proof -
  let ?s = "answering ''/chunked''"
  have "at_job Slow_pool Next_chunked_chunk ?s"
    by (simp add: at_job_def answering_chunked handled_fields request_pool_def)
  moreover have "streams sample_spine (itsResponse ?s) [''abc'', ''defgh''] Stream_EXIT_OK"
    by (auto simp: answering_chunked sample_fields sample_content_def chunked_response_def
        no_response_def intro!: stream_piece stream_end)
  moreover have "fits (chunk_frame sample_spine) Slow_pool (itsPendingHeaders ?s) [''abc'', ''defgh'']
      [(sample_env, [3, 5]), (sample_env, [10])]"
    by (simp add: answering_chunked handled_fields sample_accepts splits_def chunk_frame_def
        convertToHex_def sample_fields hex.simps)
  moreover have "splits [5] ((if [''abc'', ''defgh''] = [] then itsPendingHeaders ?s else []) @ last_chunk)"
    by (simp add: splits_def last_chunk_def)
  ultimately show ?thesis
    using chunked_reply_delivered[OF sample_writes_hex, of Slow_pool ?s "[''abc'', ''defgh'']"
        "[(sample_env, [3, 5]), (sample_env, [10])]" "[5]" sample_server sample_env]
    by (simp add: answering_chunked handled_fields)
qed

theorem stream_reply_delivered_witness:
  "\<exists>t. run_events sample_spine sample_server
      (stream_events Slow_pool Next_chunk Stream_writer [(sample_env, [1, 2]), (sample_env, [5])] @
       [(sample_env, Job_run Slow_pool Next_chunk)]) (answering ''/stream'') = Some t \<and>
    wire t = head_text (stream_response [[], ''abc'', ''defgh'']) @ ''abcdefgh'' \<and>
    (Pending_read \<in> set (pending t) \<or> Pending_posted \<in> set (pending t))"
proof -
  let ?s = "answering ''/stream''"
  have "at_job Slow_pool Next_chunk ?s"
    by (simp add: at_job_def answering_stream handled_fields request_pool_def)
  moreover have "streams sample_spine (itsResponse ?s) [''abc'', ''defgh''] Stream_EXIT_OK"
    by (auto simp: answering_stream sample_fields sample_content_def stream_response_def
        no_response_def intro!: stream_piece stream_end)
  moreover have "fits (\<lambda>c. c) Slow_pool (itsPendingHeaders ?s) [''abc'', ''defgh'']
      [(sample_env, [1, 2]), (sample_env, [5])]"
    by (simp add: answering_stream handled_fields sample_accepts splits_def)
  moreover have "others (pending ?s) = [Pending_job Slow_pool Next_chunk]"
    by (simp add: answering_stream others_def)
  ultimately show ?thesis
    using stream_reply_delivered[of Slow_pool ?s sample_spine "[''abc'', ''defgh'']" Stream_EXIT_OK
        "[(sample_env, [1, 2]), (sample_env, [5])]" sample_env sample_server] sample_accepts
    by (simp add: answering_stream handled_fields) (simp add: sample_env_def)
qed

theorem failed_chunks_unterminated_witness:
  "\<exists>n. wire (getNextChunkedChunk sample_spine sample_env ((answering ''/chunked'')
        \<lparr>itsResponse := no_response\<lparr>sp_ending := Stream_EXIT_Other 3\<rparr>, itsPendingHeaders := ''x''\<rparr>)) =
      head_text (chunked_response [[], ''abc'', ''defgh'']) @ take n ''x''"
  using failed_chunks_unterminated[of sample_spine "(answering ''/chunked'')
      \<lparr>itsResponse := no_response\<lparr>sp_ending := Stream_EXIT_Other 3\<rparr>, itsPendingHeaders := ''x''\<rparr>" sample_env]
  by (simp add: sample_fields no_response_def) (simp add: answering_chunked)

subsection \<open>The server\<close>

definition limited_server :: "(sample_request, sample_response, sample_handler) async_server" where
  "limited_server = construct_AsyncServer sample_spine (sample_server\<lparr>srv_maxConnections := 1\<rparr>)"

definition full_server :: "(sample_request, sample_response, sample_handler) async_server" where
  "full_server = handleAccept sample_spine sample_env Success (limited_server\<lparr>accepting := False\<rparr>)"

lemmas server_steps = full_server_def limited_server_def handleAccept_def construct_AsyncServer_def
  startAccept_def isShutdownRequested_def getMaxConnections_def as_connectionCount_def
  set_connectionCount_def sample_server_def initial_server_def

lemma full_server_fields:
  "\<not> isShutdownRequested (as_server full_server)" "itsNewConnection full_server = Some 1"
  "length (connections full_server) = 2" "as_connectionCount full_server = 1"
  "getMaxConnections (as_server full_server) = 1" "accepting full_server"
  "connections full_server ! 1 = new_connection sample_spine (as_server full_server)"
  by (simp_all add: server_steps start_def registerConnection_def split_beta Let_def)

lemma reach_full_server: "reach (server_start sample_spine) (server_step sample_spine) full_server"
proof (rule reach_step)
  show "reach (server_start sample_spine) (server_step sample_spine) limited_server"
    unfolding limited_server_def
    by (intro reach_start constructed) (simp add: sample_server_def initial_server_def)
  have "accepting limited_server" by (simp add: server_steps)
  then show "server_step sample_spine limited_server (sample_env, Accept_done Success) full_server"
    by (intro server_step) (simp add: full_server_def)
qed

theorem connections_capped_witness:
  "length (filter is_live (connections full_server)) \<le> 1"
  using connections_capped[OF reach_full_server] full_server_fields by simp

lemma sample_response_status: "response_status sample_spine"
  by (simp add: response_status_def sample_spine_def)

theorem refused_at_limit_witness:
  "let a' = handleAccept sample_spine sample_env Success full_server; s = connections a' ! 1 in
   \<not> socketOpen s \<and> rs_getStatus sample_spine (itsResponse s) = service_unavailable \<and>
   (\<exists>h. wire s = h @ rs_contentToBuffer sample_spine (itsResponse s)) \<and>
   pending s = [] \<and> as_connectionCount a' = 1 \<and> limitLines a' = 1"
proof -
  have "limitLines full_server = 0" "\<not> itsConnectionLimitReported full_server"
    by (simp_all add: server_steps start_def registerConnection_def split_beta Let_def)
  moreover have "fst (env_headerWrite sample_env) = Success" "fst (env_contentWrite sample_env) = Success"
    by (simp_all add: sample_env_def)
  ultimately show ?thesis
    using refused_at_limit[OF sample_prints_status sample_response_status full_server_fields(1,2) _
        full_server_fields(7), of sample_env] full_server_fields
    unfolding Let_def by auto
qed

theorem server_connections_reachable_witness:
  "reachable sample_spine (settings (as_server full_server)) (connections full_server ! 0)"
proof (rule server_connections_reachable[OF reach_full_server])
  show "connections full_server ! 0 \<in> set (connections full_server)"
    using full_server_fields by (intro nth_mem) simp
  show "is_live (connections full_server ! 0)"
    by (simp add: server_steps start_def registerConnection_def split_beta Let_def is_live_def
        new_connection_eq armTimer_def add_pending_def startRead_def)
qed

theorem buffered_bytes_capped_witness:
  "(\<Sum>s \<leftarrow> filter is_live (connections full_server). length (itsBuffer s)) \<le> 4096"
proof -
  have "srv_maxRequestSize (as_server full_server) = 4096"
    by (simp add: server_steps start_def registerConnection_def split_beta Let_def sample_options_def)
  with buffered_bytes_capped[OF reach_full_server] full_server_fields show ?thesis by simp
qed

fun lifecycle_run :: "lifecycle_event list \<Rightarrow> lifecycle \<Rightarrow> lifecycle option" where
  "lifecycle_run [] l = Some l"
| "lifecycle_run (ev # evs) l =
     (case lifecycle_step ev l of None \<Rightarrow> None | Some l' \<Rightarrow> lifecycle_run evs l')"

lemma lifecycle_run_reach:
  "reach lc_start lc_step l \<Longrightarrow> lifecycle_run evs l = Some l' \<Longrightarrow> reach lc_start lc_step l'"
  by (induction evs arbitrary: l) (auto split: option.splits dest: lc_step intro: reach_step)

text \<open>Two workers, a handler that uses the executors, and a shutdown that destroys them.\<close>

definition lifecycle_example :: "lifecycle_event list" where
  "lifecycle_example =
     replicate 5 Run_thread @ [Handler_begins 0, Handler_schedules 0, Handler_ends 0, Shutdown_called] @
     replicate 3 (Shutdown_thread 0) @ [Worker_leaves 0, Worker_leaves 1] @
     replicate 2 (Shutdown_thread 0)"

theorem executors_not_used_after_destruction_witness:
  "case lifecycle_run lifecycle_example (initial_lifecycle 2) of
     None \<Rightarrow> False
   | Some l \<Rightarrow> lc_adminExecutor l = None \<and> \<not> lc_nullDereference l \<and>
       Worker_handler \<notin> set (lc_workers l) \<and> lc_ioStopped l"
proof -
  have "\<exists>l. lifecycle_run lifecycle_example (initial_lifecycle 2) = Some l \<and>
      \<not> lc_gaveUp l \<and> lc_adminExecutor l = None"
    by (simp add: lifecycle_example_def initial_lifecycle_def run_step.simps shut_step_def Let_def
        start_executors_def shutdown_executors_def use_executors_def numeral_eq_Suc)
  then obtain l where l: "lifecycle_run lifecycle_example (initial_lifecycle 2) = Some l"
    "\<not> lc_gaveUp l" "lc_adminExecutor l = None" by blast
  from executors_not_used_after_destruction[OF lifecycle_run_reach[OF reach_start[of lc_start, OF lc_start] l(1)] l(2)]
  show ?thesis using l by simp
qed

subsection \<open>The daemon\<close>

theorem event_limit_holds_witness:
  "length (in_window 4 3 (accepted check_accepts [1, 2, 3, 4] (new_MaxEventFreq 2 3))) \<le> 2"
  using event_limit_holds[of "[1, 2, 3, 4]" 3 2] by simp

theorem check_refines_window_witness:
  "valid_freq (snd (check 5 (new_MaxEventFreq 2 3)))"
  using check_refines_window[of "new_MaxEventFreq 2 3" 5] valid_new_MaxEventFreq[of 2 3]
  by (simp add: new_MaxEventFreq_def recorded_def)

theorem sigint_watchdog_ends_witness:
  "case fst (sigint_watchdog [[SIGINT], []] \<lparr>last_signal = 0, sigint_cnt = 0, stops = 1,
      server_exists = True, shutdown_calls = 1\<rparr>) of
      Too_many_signals \<Rightarrow> 6 \<le> length (filter counted_round (take 1200 [[SIGINT], []]))
    | Timed_out \<Rightarrow> 1200 \<le> length [[SIGINT], []]
    | Interrupted \<Rightarrow> length [[SIGINT], []] < 1200"
  by (rule sigint_watchdog_ends) simp_all

definition quiet_second :: tick where
  "quiet_second = \<lparr>tk_signals = [SIGWINCH], tk_taskError = False, tk_shutdownFinished = False, tk_rounds = []\<rparr>"

definition terminated_second :: tick where
  "terminated_second = \<lparr>tk_signals = [SIGTERM], tk_taskError = False, tk_shutdownFinished = False, tk_rounds = []\<rparr>"

theorem daemon_ends_when_asked_witness:
  "case main True ''default'' True [quiet_second, terminated_second] of (r, d) \<Rightarrow> r \<noteq> None \<and> stops d = 1"
proof -
  obtain r d where m: "main True ''default'' True [quiet_second, terminated_second] = (r, d)" by force
  have "set_new_handler ''default'' = Inr Bad_alloc_new_handler" by (simp add: set_new_handler_def)
  from daemon_ends_when_asked[OF this m] have "r \<noteq> None \<and> stops d = 1"
    by (simp add: ends_server_def terminated_second_def)
  then show ?thesis by (simp add: m)
qed

subsection \<open>Headers\<close>

theorem hasHeaderToken_is_membership_witness:
  "hasHeaderToken sample_spine ''x, Keep-Alive '' ''keep-alive''"
proof -
  have "header_tokens ''x, Keep-Alive '' = [''x'', ''keep-alive'']" by code_simp
  then show ?thesis using hasHeaderToken_is_membership[OF sample_lowers] by simp
qed

theorem evaluateKeepAlive_rule_witness:
  "evaluateKeepAlive sample_spine sample_env (queued_state ''/a'')"
  unfolding evaluateKeepAlive_rule[OF sample_lowers]
  by (simp add: queued_state_def started_eq sample_env_def parsed_def sample_fields field_steps
      sample_lower wants_persistence_def count_below word_less_nat_alt)

theorem connection_announced_witness:
  "let t = setServerHeaders sample_spine sample_env (queued_state ''/a'') in
   response_header sample_spine t ''Connection'' =
     (if \<not> itsKeepAlive t then Some ''close''
      else if itsResponseVersion (queued_state ''/a'') = ''1.1'' then None else Some ''keep-alive'') \<and>
   (\<not> itsKeepAlive t \<or> itsResponseVersion (queued_state ''/a'') = ''1.1'' \<longrightarrow>
     response_header sample_spine t ''Keep-Alive'' = None) \<and>
   (itsKeepAlive t \<longrightarrow> itsKeepAlive (queued_state ''/a''))"
  by (rule connection_announced[OF sample_response_headers])

lemma sample_request_methods: "request_methods sample_spine"
proof -
  have "replicate n CHR ''X'' \<noteq> ''GET''" "replicate n CHR ''X'' \<noteq> ''HEAD''" for n
    by (cases n; simp)+
  then show ?thesis
    by (auto simp: request_methods_def sample_spine_def split: request_method.split)
qed

lemma sample_request_parts: "request_parts sample_spine"
  by (simp add: request_parts_def request_rest_def sample_spine_def)

definition te_state :: "(sample_request, sample_response, sample_handler) conn" where
  "te_state = started_connection\<lparr>itsRequest := (pr_request (parsed ''/a''))
     \<lparr>sq_headers := [(''Host'', ''h''), (''TE'', ''x'')]\<rparr>, pending := []\<rparr>"

theorem hop_by_hop_stripped_witness:
  "request_header sample_spine (handleParsedRequest sample_spine sample_env sample_server te_state) ''TE'' = None"
proof -
  have "Pending_job Slow_pool (Handle_request plain_handler) \<in>
      set (pending (handleParsedRequest sample_spine sample_env sample_server te_state))"
    unfolding te_state_def started_eq
    by (simp add: Let_def reading_steps sample_env_def sample_texts count_below)
  moreover have "Pending_job Slow_pool (Handle_request plain_handler) \<notin> set (pending te_state)"
    by (simp add: te_state_def)
  moreover have "ascii_lower ''TE'' \<noteq> ascii_lower originalMethod"
    by (simp add: originalMethod_def sample_lower)
  moreover have "ascii_lower ''TE'' \<in> connection_fields c" for c
    by (auto simp: connection_fields_def hopByHop_def)
  ultimately show ?thesis
    using hop_by_hop_stripped[OF sample_request_headers sample_request_methods sample_request_parts] by simp
qed

theorem original_method_not_forged_witness:
  "request_header sample_spine (take_head_method sample_spine ((queued_state ''/a'')
      \<lparr>itsRequest := no_request\<lparr>sq_method := ''HEAD'', sq_headers := [(originalMethod, ''PUT'')]\<rparr>\<rparr>))
     originalMethod = Some ''HEAD''"
  using original_method_not_forged[OF sample_request_headers sample_request_methods sample_request_parts, of "(queued_state ''/a'')
      \<lparr>itsRequest := no_request\<lparr>sq_method := ''HEAD'', sq_headers := [(originalMethod, ''PUT'')]\<rparr>\<rparr>"]
  by (simp add: Let_def sample_fields)

subsection \<open>Exchanges\<close>

lemma sample_response_contents: "response_contents sample_spine"
  by (simp add: response_contents_def sample_fields sample_content_def split: list.split)

definition hello_response :: sample_response where
  "hello_response = no_response\<lparr>sp_status := Some 200, sp_content := ''hello''\<rparr>"

definition hello_state :: "(sample_request, sample_response, sample_handler) conn" where
  "hello_state = (queued_state ''/a'')\<lparr>itsResponse := hello_response\<rparr>"

theorem regular_reply_framed_witness:
  "itsResponseString (startRegularReply sample_spine sample_env hello_state) =
     head_text (hello_response\<lparr>sp_headers := [(''Content-Length'', decimal (length ''hello''))]\<rparr>) @ ''hello''"
proof -
  have e: "encode_response sample_spine hello_state = hello_state"
    by (simp add: encode_response_def hello_state_def queued_state_def started_eq sample_fields
        hello_response_def no_response_def)
  have f: "frame_response sample_spine hello_state =
      hello_state\<lparr>itsResponse := hello_response\<lparr>sp_headers := [(''Content-Length'', decimal (length ''hello''))]\<rparr>\<rparr>"
    by (simp add: frame_response_def hello_state_def hello_response_def statusHasNoBody_def
        queued_state_def started_eq sample_fields no_response_def set_header_def set_field_def
        field_steps)
  have "\<not> rs_hasStreamContent sample_spine (itsResponse (encode_response sample_spine hello_state))"
    unfolding e by (simp add: hello_state_def hello_response_def no_response_def sample_fields)
  moreover have "rs_headersToString sample_spine
      (itsResponse (frame_response sample_spine (encode_response sample_spine hello_state))) =
      Some (head_text (hello_response\<lparr>sp_headers := [(''Content-Length'', decimal (length ''hello''))]\<rparr>))"
    by (simp add: e f sample_fields sample_head_text hello_response_def)
  ultimately show ?thesis
    using regular_reply_framed[OF sample_response_headers sample_response_contents,
        of hello_state _ sample_env]
    by (simp add: Let_def e f sample_fields sample_content_def)
      (simp add: hello_state_def queued_state_def started_eq hello_response_def no_response_def)
qed

theorem waiting_is_timed_witness:
  "\<exists>t. dispatch sample_spine sample_server sample_env (Timer_fired 3 Success) answered = Some t \<and>
     hasTimedOut t \<and> \<not> socketOpen t"
proof -
  have "Pending_read \<in> set (pending answered)" "\<not> hasTimedOut answered"
    unfolding answered_def answering_a
    by (simp_all add: writeRegularReply_def written_def Let_def notifyBackendFinished_def
        sample_fields finishResponse_def handled_fields sample_env_def armTimer_def add_pending_def
        startRead_def plain_response_def no_response_def)
  with waiting_is_timed[OF sample_prints_status reach_answered, of sample_env] answered_idle(2)
  show ?thesis by simp
qed

lemma queued_job:
  "Pending_job Slow_pool (Handle_request plain_handler) \<in> set (pending (queued ''/a''))"
  "socketOpen (queued ''/a'')" "plugin_calls (hooks (queued ''/a'')) = 0"
  by (simp_all add: queued_eq queued_state_def started_eq)

theorem queued_request_reaches_plugin_witness:
  "\<exists>rest. hooks (answering ''/a'') = Client_started ''10.0.0.1'' # Plugin_called ''Timeseries'' # rest"
proof -
  from queued_request_reaches_plugin[OF reach_queued queued_job(1), where e = sample_env] queued_job(2)
  obtain rest where "hooks (answering ''/a'') = hooks (queued ''/a'') @
      Client_started (rq_getClientIP sample_spine (itsRequest (queued ''/a''))) #
        Plugin_called (hv_getPluginName sample_spine plain_handler) # rest"
    unfolding answering_def Let_def by (simp only: if_True) blast
  then show ?thesis by (simp add: queued_eq queued_state_def started_eq sample_fields plain_handler_def)
qed

theorem plugin_calls_are_job_runs_witness: "plugin_calls (hooks (answering ''/a'')) = 1"
proof -
  have "dispatch sample_spine sample_server sample_env
      (Job_run Slow_pool (Handle_request plain_handler)) (queued ''/a'') = Some (answering ''/a'')"
    using queued_job(1) by (simp add: dispatch_def answering_def del: run_handler.simps)
  from plugin_calls_are_job_runs[OF reach_queued handler_step[OF this]] queued_job(2,3) show ?thesis
    by simp
qed

theorem receive_buffer_bounded_witness:
  "length (itsBuffer started_connection) \<le> 4096"
  using receive_buffer_bounded[OF reach_started] by (simp add: started_eq)

definition expecting_state :: "(sample_request, sample_response, sample_handler) conn" where
  "expecting_state = started_connection
     \<lparr>itsBuffer := request_head (''PUT /a '' @ ''HTTP/'' @ ''1.1'') [(''Expect'', ''100-continue'')]\<rparr>"

theorem expect_continue_rule_witness:
  "let t = snd (handleExpectContinue sample_spine sample_env expecting_state) in
   wire t = continueReply \<and> handleExpectContinue sample_spine sample_env t = (True, t)"
proof -
  have p: "peekRequestHead sample_spine (itsBuffer expecting_state) =
      \<lparr>head_complete = True, head_version = ''1.1'', head_expect = ''100-continue''\<rparr>"
    using peekRequestHead_reads[OF sample_lowers, of "''PUT /a ''" "''1.1''"
        "[(''Expect'', ''100-continue'')]" "[]", unfolded sample_expect_value]
    by (simp add: expecting_state_def no_cr_def field_ok_def sample_expect_value)
  have "header_tokens ''100-continue'' = [''100-continue'']" by code_simp
  with expect_continue_rule[OF sample_lowers sample_prints_status, of expecting_state sample_env sample_env] p
  show ?thesis
    by (simp add: Let_def sample_version) (simp add: expecting_state_def started_eq sample_env_def)
qed

theorem host_required_witness:
  "let t = handleParsedRequest sample_spine sample_env sample_server
     (started_connection\<lparr>itsRequest := no_request\<lparr>sq_version := ''1.1''\<rparr>\<rparr>) in
   \<not> socketOpen t \<and> pending t = pending started_connection \<and> hooks t = []"
proof -
  let ?s = "started_connection\<lparr>itsRequest := no_request\<lparr>sq_version := ''1.1''\<rparr>\<rparr>"
  have "resolveClientIP sample_spine sample_env sample_server ?s =
      (True, ?s\<lparr>itsRequest := no_request\<lparr>sq_version := ''1.1'', sq_client := ''10.0.0.1''\<rparr>\<rparr>)"
    by (simp add: resolveClientIP_def sample_env_def sample_fields started_eq)
  from host_required[OF sample_prints_status this] show ?thesis
    by (simp add: Let_def sample_fields sample_version no_request_def field_steps) (simp add: started_eq)
qed

theorem oversized_request_refused_witness:
  "let t = run_handler sample_spine sample_env sample_server
      (Read_done Success (replicate 5000 CHR ''x'')) started_connection in
    \<not> socketOpen t \<and> ops t = [] \<and> hooks t = hooks started_connection \<and>
    itsBuffer t = itsBuffer started_connection"
  by (rule oversized_request_refused[OF sample_prints_status reach_started])
    (simp_all add: started_eq sample_env_def)

subsection \<open>Settings\<close>

definition sample_config :: config where
  "sample_config =
     \<lparr>cf_logmemoryuse = Some 60, cf_logmemoryfields = None, cf_logmemoryfields_ok = True, cf_keepalive = True,
      cf_keepalive_enabled = None, cf_keepalive_timeout = Some (-5), cf_keepalive_maxrequests = None,
      cf_maxconnections = Some (-1), cf_maxheadersize = None, cf_request_timeout = Some 30,
      cf_cancel_on_disconnect = None,
      cf_plugins = Some [\<lparr>pg_name = ''timeseries'', pg_hasName = True, pg_isGroup = True, pg_request_timeout = Some 7,
                          pg_cancel_on_disconnect = Some True\<rparr>],
      cf_trustedproxies = None, cf_trustedproxies_ok = True\<rparr>"

definition sample_construction :: "server_error + options \<times> server" where
  "sample_construction = construct_server sample_spine sample_options sample_config (Some 1024) None True
     (\<lambda>p. Some (if p = 0 then 40000 else p))"

lemma sample_constructed: "\<exists>opts srv. sample_construction = Inr (opts, srv)"
  by (simp add: sample_construction_def construct_server_def plugins_named_def sample_config_def sample_options_def initial_server_def Let_def)

theorem request_limits_configured_witness:
  "case sample_construction of Inl _ \<Rightarrow> False
   | Inr (opts, srv) \<Rightarrow>
       createCancellationToken sample_spine srv plain_handler (queued ''/a'') =
         \<lparr>ct_deadline = Some 7, ct_probe = True\<rparr>"
proof -
  obtain opts srv where c: "sample_construction = Inr (opts, srv)" using sample_constructed by blast
  have "\<not> itsAdminQuery (queued ''/a'')" by (simp add: queued_eq queued_state_def started_eq)
  moreover have "ascii_tolower_copy sample_spine ''timeseries'' = ascii_tolower_copy sample_spine ''Timeseries''"
    unfolding sample_spine_def by simp code_simp
  ultimately have "createCancellationToken sample_spine srv plain_handler (queued ''/a'') =
      \<lparr>ct_deadline = Some 7, ct_probe = True\<rparr>"
    using request_limits_configured[OF c[unfolded sample_construction_def], of _ plain_handler "queued ''/a''"]
    by (simp add: Let_def sample_config_def plugin_timeouts_def plugin_cancels_def plain_handler_def sample_fields)
  then show ?thesis unfolding c by simp
qed

theorem started_server_settings_witness:
  "case sample_construction of Inl _ \<Rightarrow> False
   | Inr (opts, srv) \<Rightarrow> 0 < getKeepAliveTimeout srv \<and> srv_memoryLogArmed srv = (0 < srv_memoryLogPeriod srv) \<and>
       op_port opts \<noteq> 0 \<and> getMaxConnections srv = defaultMaxConnections (Some 1024)"
proof -
  obtain opts srv where c: "sample_construction = Inr (opts, srv)" using sample_constructed by blast
  show ?thesis
    using started_server_settings[OF c[unfolded sample_construction_def]] unfolding c
    by (simp add: sample_config_def)
qed

subsection \<open>The load test client\<close>

theorem parseStatus_reads_answer_witness:
  "parseStatus (request_head (''HTTP/1.0'' @ '' '' @ ''404'' @ '' '' @ ''Not Found'') [(''Server'', ''x'')] @
     ''a'' @ [CHR 0x0A] @ ''b'') = (''404'', ''a b'')"
  using parseStatus_reads_answer[of "''HTTP/1.0''" "''404''" "''Not Found''" "[(''Server'', ''x'')]"
      "''a'' @ [CHR 0x0A] @ ''b''"]
  by (simp add: is_space_def is_line_break_def field_ok_def no_cr_def)

definition sample_tester :: tester where
  "sample_tester =
     \<lparr>itsHostName = ''h'', itsPort = 80, itsRequests = [], itsResults = [], itsCurrentResultInd = 0,
      itsPrintResults = False, scheduled = [],
      timer_armed = True, io_stopped = False, pool_shut_down = False, sent = [], printed = []\<rparr>"

definition sample_load :: "tester_event list" where
  "sample_load =
     [Answered (Received ''x'') 0 5 \<lparr>tr_hostName = ''h'', tr_port = 80, tr_URI = ''/a''\<rparr>,
      Progress_timer Success, Progress_timer Success,
      Answered (Received ''x'') 6 9 \<lparr>tr_hostName = ''h'', tr_port = 80, tr_URI = ''/b''\<rparr>]"

theorem progress_counts_each_result_once_witness:
  "let t' = fold tester_event sample_load sample_tester in
    \<exists>slices. printed t' = map report_of slices \<and>
      itsResults t' = concat slices @ drop (itsCurrentResultInd t') (itsResults t')"
  using progress_counts_each_result_once[of sample_tester sample_load]
  by (simp add: Let_def sample_tester_def)

end
