(* ===== verification/Divergences.thy ===== *)
theory Divergences
  imports Server_Rules Tester Sample_Runs
begin

text \<open>
  Where the code does something else than it means to, as theorems about the definitions:
  small, and each about one place.
\<close>

subsection \<open>Stock replies\<close>

text \<open>\<open>sendSimpleReply\<close> does not look at the method: the content goes out for a HEAD request too.\<close>

theorem stock_reply_has_body_for_head:
  fixes s :: "('q, 'p, 'h) conn"
  assumes "socketOpen s" "rs_headersToBuffer sp (itsResponse s) = Some h"
    and "fst (env_headerWrite e) = Success" "fst (env_contentWrite e) = Success"
  shows "wire (sendSimpleReply sp e s) = wire s @ h @ rs_contentToBuffer sp (itsResponse s)"
proof -
  have "wire (finishResponse sp e u) = wire u" for u :: "('q, 'p, 'h) conn"
    by (simp add: finishResponse_def Let_def closeSocket_def armTimer_def startRead_def add_pending_def)
  with assms show ?thesis
    by (simp add: sendSimpleReply_def sync_write_def closeSocket_def Let_def)
qed

text \<open>The error of the header section is forgotten when the content that follows is written.\<close>

theorem header_error_forgotten:
  assumes "socketOpen s" "itsKeepAlive s" "rs_headersToBuffer sp (itsResponse s) = Some h"
    and "fst (env_headerWrite e) \<noteq> Success" "fst (env_contentWrite e) = Success"
  shows "\<exists>w. sendSimpleReply sp e s = finishResponse sp e (s\<lparr>wire := w, itsFinalStatus := Success\<rparr>)"
  using assms by (auto simp: sendSimpleReply_def sync_write_def Let_def)

text \<open>When the queue is full in the middle of a streamed body, a second header section is sent in it.\<close>

theorem full_queue_writes_headers_into_body:
  fixes s :: "('q, 'p, 'h) conn"
  assumes "prints_status sp" "\<not> env_schedule e (request_pool s)" "socketOpen s"
    and "fst (env_headerWrite e) = Success" "fst (env_contentWrite e) = Success"
  shows "\<exists>p h. rs_headersToBuffer sp p = Some h \<and>
    wire (scheduleChunkGetter sp e s) = wire s @ h @ rs_contentToBuffer sp p"
proof -
  let ?k = "s\<lparr>itsKeepAlive := False\<rparr>"
  let ?t = "sendStockReply sp e service_unavailable ?k"
  obtain h where "rs_headersToBuffer sp (itsResponse ?t) = Some h"
    "wire ?t = wire s @ h @ rs_contentToBuffer sp (itsResponse ?t)"
    using sendStockReply_sent[OF assms(1), of ?k e service_unavailable] assms(3-5) by (auto simp: Let_def)
  moreover have "wire (scheduleChunkGetter sp e s) = wire ?t"
    using assms(2) by (simp add: scheduleChunkGetter_def Let_def reportInfo_def add_report_def)
  ultimately show ?thesis by auto
qed

subsection \<open>Writing\<close>

text \<open>A connection that writes its response has no timer left that would do anything: a client that does
  not read holds it as long as it likes.\<close>

theorem response_write_untimed:
  assumes "conn_step sample_spine sample_server (answering ''/a'') (e, Timer_fired g err) t"
  shows "socketOpen t \<and> pending t = [Pending_write Regular_writer 0] \<and> \<not> hasTimedOut t"
  using assms
  by (auto simp: conn_step_iff dispatch_def handleTimer_def complete_def answering_a handled_fields Let_def
      split: if_splits)

subsection \<open>Reading\<close>

text \<open>A read that fails ends the connection's operations but not its socket.\<close>

theorem read_error_leaves_socket_open:
  "socketOpen (handleReadError sp err s) = socketOpen s \<and> pending (handleReadError sp err s) = pending s"
  by (simp add: handleReadError_def reportInfo_def add_report_def)

text \<open>A header section that arrives whole is not compared with the limit on header sections.\<close>

definition short_headers :: "(sample_request, sample_response, sample_handler) conn" where
  "short_headers = started_connection\<lparr>itsMaxHeaderSize := 1\<rparr>"

theorem whole_header_section_unlimited:
  "itsMaxHeaderSize short_headers < length (sample_bytes ''/a'') \<and>
   Pending_job Slow_pool (Handle_request plain_handler) \<in> set (pending
     (run_handler sample_spine sample_env sample_server (Read_done Success (sample_bytes ''/a'')) short_headers))"
  unfolding short_headers_def started_eq
  by (simp add: Let_def reading_steps sample_env_def sample_texts count_below)

subsection \<open>The connection cap\<close>

text \<open>Below 64 descriptors the default cap is above the limit it is derived from; at a third of the
  range of the limit three times the limit wraps around, and the cap falls back to 64.\<close>

theorem default_cap_exceeds_small_limit:
  assumes "unat cur < 64"
  shows "unat (defaultMaxConnections (Some cur)) = 64"
proof -
  have "unat RLIM_INFINITY = 2 ^ 64 - 1"
    by (simp add: RLIM_INFINITY_def unsigned_minus_1_eq_mask mask_eq_exp_minus_1)
  with assms have "cur \<noteq> RLIM_INFINITY" by auto
  with assms default_cap_leaves_descriptors[of cur] show ?thesis by simp
qed

theorem default_cap_wraps: "defaultMaxConnections (Some (2 ^ 64 div 3 + 1)) = 64"
  by (simp add: defaultMaxConnections_def RLIM_INFINITY_def)

subsection \<open>The load test client\<close>

text \<open>The sum of the durations is converted to the unsigned type of the number of results: two
  durations of minus one millisecond have a mean of almost \<open>2 ^ 63\<close> milliseconds.\<close>

theorem negative_mean_is_huge:
  "average_duration [r\<lparr>res_duration := -1000\<rparr>, r\<lparr>res_duration := -1000\<rparr>] = 2 ^ 63 - 1"
  by (simp add: average_duration_def total_milliseconds_def)

end
