(* ===== verification/Spec2Isabelle.thy ===== *)
theory Spec2Isabelle
  imports Witnesses Divergences
begin

text \<open>
  SmartMet Server: an HTTP/1.x server in C++.

  \<^bold>\<open>The program.\<close> \<^verbatim>\<open>main/smartmetd.cpp\<close> parses the options, makes the reactor (which loads engines
  and plugins) and an \<^verbatim>\<open>AsyncServer\<close>, runs both as tasks, and then looks once a second for a
  signal. The server accepts connections on its worker threads. Each accepted socket
  belongs to one \<^verbatim>\<open>AsyncConnection\<close>, which reads a request, gives it to one of three thread pools,
  where the plugin's handler is called, writes the response by one of several paths, and then
  closes the socket or waits for the next request. A timer bounds the waits for a handshake and
  for the bytes of a request, not the writing of a response. The load
  test client \<^verbatim>\<open>loadtest/Tester.cpp\<close> is a program of its own.

  \<^bold>\<open>What is not in the repository\<close> is an argument of the model. SmartMet Spine (requests,
  responses, the parser, the reactor), macgyver and Boost are the record \<open>spine\<close> of theory
  \<open>Spine\<close>, with requests, responses and handlers as type parameters. The answers of the
  operating system, of the pools and of a plugin during one handler are the record \<open>env\<close> of
  theory \<open>Connection\<close>. Theorems that rely on such code name what they rely on:
  \<open>lowers_ascii\<close> (ASCII case folding), \<open>reads_decimal\<close> and \<open>writes_hex\<close> (numbers),
  \<open>response_headers\<close> and \<open>request_headers\<close> (header fields are a map without case),
  \<open>request_methods\<close> and \<open>request_parts\<close> (the parts of a request are independent),
  \<open>response_contents\<close>, \<open>response_status\<close>, \<open>prints_status\<close> (a response with a status can be printed), \<open>parses_alone\<close> (the parser does not look behind a complete request). Theory \<open>Sample\<close> defines an executable instance \<open>sample_spine\<close> of all of them.

  \<^bold>\<open>Theories and sources.\<close>

  \<^item> \<open>Prelude\<close>: named collections, the operations of \<^verbatim>\<open>std::string\<close> that the code uses, reachability
    and the locale \<open>inductive_invariant\<close>. \<open>Spine\<close>: see above.
  \<^item> \<open>Utility\<close>: \<^verbatim>\<open>source/Utility.cpp\<close>, all functions.
  \<^item> \<open>Server\<close>, \<open>Server_Rules\<close>: \<^verbatim>\<open>source/Server.cpp\<close> and \<^verbatim>\<open>include/Server.h\<close>: the constructor as a
    composition of what it reads from the configuration, the look-ups, the memory log. The locale
    \<open>plugin_setting\<close> is the contract of a setting that plugins override, interpreted for the
    time limit and for the probe of a closed connection.
  \<^item> \<open>Connection\<close>: \<^verbatim>\<open>Connection.h\<close>, \<^verbatim>\<open>Connection.cpp\<close> and the state of \<^verbatim>\<open>AsyncConnection\<close>. The record
    \<open>conn\<close> adds what the object does outside of itself: \<open>wire\<close>, the bytes the client has
    received; \<open>pending\<close>, the asynchronous operations that are under way; \<open>hooks\<close> and \<open>reports\<close>,
    the calls and log lines so far; \<open>lockHeld\<close> and \<open>deadlocked\<close>, the timer's mutex.
  \<^item> \<open>Conn_Reply\<close>, \<open>Conn_Stream\<close>, \<open>Conn_Request\<close>: the operations of \<^verbatim>\<open>source/AsyncConnection.cpp\<close>, in
    the order response headers and timer, writing, reading and handling. One definition per
    member function; \<open>handleRead\<close>, \<open>handleParsedRequest\<close>, \<open>handleCompletedRead\<close> and
    \<open>startRegularReply\<close> are composed of two to four named parts.
  \<^item> \<open>Conn_System\<close>: the events a connection sees and the step relation \<open>conn_step\<close>: the completion of
    any pending operation runs its handler. The order of completions is arbitrary.
    \<open>Conn_Phases\<close> abstracts it to the machine of its phases (handshake, reading, queued, fetching,
    sending, over), of which the step relation \<open>phase_step\<close> is the specification.
  \<^item> \<open>AsyncServer\<close>: the accept loop over a list of connections, which are destroyed when nothing
    refers to them. \<open>Server_Lifecycle\<close>: \<open>run\<close>, \<open>shutdown\<close> and the workers as interleaved threads.
  \<^item> \<open>Daemon\<close>: \<^verbatim>\<open>main/smartmetd.cpp\<close>. \<open>Tester\<close>: \<^verbatim>\<open>loadtest/Tester.cpp\<close>.

  \<^bold>\<open>What is shown.\<close>

  \<^item> \<open>Conn_Invariant\<close> proves the invariant \<open>conn_inv\<close> of the reachable states of a connection handler by
    handler (at most one operation besides the timer is pending, and what each may rely on),
    and \<open>Conn_Evolution\<close> the relation \<open>evolves\<close> (what has been sent is not taken back, a closed socket
    stays closed, requests and plugin calls are counted) with the invariants \<open>serve_inv\<close> and
    \<open>well_formed\<close>. \<open>Conn_Properties\<close> draws the consequences: one request at a time, the request
    limit, the bound on buffered bytes, the timer and its lock, and what a stock reply writes.
  \<^item> \<open>Conn_Fresh\<close>: no leak of state from one request to the next, by the invariant \<open>renewed\<close>.
  \<^item> \<open>Conn_Writes\<close>: the locales \<open>partial_writer\<close> and \<open>chunk_source\<close> state what the write handlers
    share; every way to split the writes delivers the same bytes, and a reader of the chunked
    coding reads the stream's pieces back.
  \<^item> \<open>Conn_Phases\<close>: the handlers refine the machine of the phases (locale \<open>simulation\<close>), so a connection
    does not leave a chunked body for the next request but through the final write.
    \<open>Conn_Delivery\<close>: the
    invariant \<open>tail_sent\<close> (what a pending write has sent is the end of the wire), and from it that
    no response of a connection that goes on is cut short, timer or not. \<open>Conn_Endings\<close>: the invariant
    \<open>final_inv\<close>, and from it that the final write has put the whole last chunk on the wire.
  \<^item> \<open>Conn_Pipelining\<close>: two connections that differ in what is buffered behind the current request
    stay \<open>twin\<close> through all handlers that answer; any number of pipelined requests are served as
    if each had been sent after the answer to the one before it.
  \<^item> \<open>Conn_Liveness\<close>: a connection never waits for a request, or for the handshake before it, without a
    timer that can end the wait; the writing of a response has none.
  \<^item> \<open>Header_Rules\<close>: the header code is equal to definitions over lists of tokens, and header fields
    are followed through the functions that rewrite them. \<open>Exchange_Rules\<close>: the framing of a
    buffered response, and what happens to requests that are refused or delayed. \<open>Conn_Calls\<close>:
    the calls of plugins are the runs of queued requests on open sockets, once each.
  \<^item> \<open>Server_Connections\<close>: the composition. Every started connection of a reachable server is in a
    reachable state of \<open>Conn_System\<close>, so what is shown of one connection holds of each connection
    of a server, and the two limits together bound the bytes all of them buffer.
  \<^item> \<open>Server_Rules\<close>, \<open>AsyncServer\<close>, \<open>Server_Lifecycle\<close>, \<open>Daemon\<close> (with the locale \<open>event_limiter\<close> for the
    sliding window of the out of memory errors), \<open>Tester\<close>: the properties of those parts.
  \<^item> \<open>Sample_Runs\<close> and \<open>Witnesses\<close>: runs on the instance and, for each property with hypotheses, a
    concrete case in which they hold.
  \<^item> \<open>Divergences\<close>: theorems about places where the code does something else than it means to.

  \<^bold>\<open>Bounds.\<close> Counters that the code compares or subtracts are 64 bit words (requests, connections,
  timer generations, the connection cap); byte counts of buffers are natural numbers, since
  they are lengths of strings in memory. All functions terminate; the only loop with a
  bound of its own is the watchdog, with the 1200 rounds of the code.

  \<^bold>\<open>Limits of the model.\<close> A handler is one atomic step: the handlers of one connection run one after
  the other because at most one operation is pending, and only the timer can interleave;
  its effects under \<open>itsMutex\<close> are kept, other races with it inside a handler are not. A synchronous
  write is one step with an error and a number of bytes. An exception that a handler
  catches and prints is modelled where the code can raise it itself: a plugin that throws,
  a response without a status, and the cancellation of the operations of a socket that the
  timer has closed.

  \<^bold>\<open>Not modelled.\<close> The stack trace library \<^verbatim>\<open>include/backward.h\<close> (vendored); \<^verbatim>\<open>source/Names.cpp\<close> (one call
  of \<^verbatim>\<open>boost::regex_replace\<close>, whose meaning is Boost's); the TLS context beyond its success or
  failure; the task group and the locale set-up of \<^verbatim>\<open>main\<close>; \<^verbatim>\<open>testRequest\<close> of the load test
  client, which is never called; packaging, documentation and test scripts. Of the load test
  client the thread pool is reduced to the order of its answers.
\<close>

end
